(* ===== verification/Prelude.thy ===== *)
theory Prelude
  imports Main "HOL-Library.Word" "HOL-Library.Monad_Syntax"
begin

unbundle bit_operations_syntax

text \<open>
  Shared vocabulary of the development: the machine integer types of
  \<^verbatim>\<open>include/freerdp/types.h\<close>, byte-level lemmas on words, a memory-block update
  (\<open>overwrite\<close>) and the lemmas on the option monad that carry the proofs about code that may
  touch memory outside a buffer. Throughout the library \<^term>\<open>None\<close> as the result of an
  operation means that the C code would read or write outside its buffer (undefined
  behaviour); every other outcome, error returns included, is a \<^term>\<open>Some\<close>.
\<close>

section \<open>Machine integers\<close>

type_synonym u8 = "8 word"
type_synonym u16 = "16 word"
type_synonym u32 = "32 word"
type_synonym u64 = "64 word"
type_synonym tbool = bool

text \<open>
  \<open>wire\<close> collects the evaluation rules of the stream operations, \<open>wire_def\<close> the definitions
  of the composite readers and writers that unfold into them.
\<close>

named_theorems wire
named_theorems wire_def

section \<open>Splitting words into bytes and joining them again\<close>

text \<open>Byte \<open>k\<close> of a word, counted from the least significant end.\<close>

definition octet :: "nat \<Rightarrow> 'a::len word \<Rightarrow> u8" where
  "octet k w = ucast (drop_bit (8 * k) w)"

lemma bit_octet [bit_simps]: "bit (octet k w) i \<longleftrightarrow> i < 8 \<and> bit w (8 * k + i)"
  by (auto simp: octet_def bit_simps)

lemma octet_drop_bit:
  "octet 0 (drop_bit 8 w) = octet (Suc 0) w" "octet 0 (drop_bit 16 w) = octet 2 w"
  "octet 0 (drop_bit 24 w) = octet 3 w"
  by (simp_all add: octet_def)

lemma octet_u8 [simp]: "octet 0 (b :: u8) = b"
  by (simp add: octet_def)

lemma octet_zero [simp]: "octet k 0 = 0"
  by (simp add: octet_def)

text \<open>The C expressions that join bytes add values with disjoint bits.\<close>

lemma join_u16: "ucast (octet 0 w) + push_bit 8 (ucast (octet (Suc 0) w)) = (w :: u16)"
proof -
  have "ucast (octet 0 w) AND push_bit 8 (ucast (octet (Suc 0) w)) = (0 :: u16)"
    by (rule bit_word_eqI) (auto simp: bit_simps)
  then have "ucast (octet 0 w) + push_bit 8 (ucast (octet (Suc 0) w))
      = ucast (octet 0 w) OR push_bit 8 (ucast (octet (Suc 0) w) :: u16)"
    by (rule disjunctive_add_eq_or)
  also have "\<dots> = w"
    by (rule bit_word_eqI) (auto simp: bit_simps)
  finally show ?thesis .
qed

lemma join_u16_be:
  "push_bit 8 (ucast (octet (Suc 0) w)) + ucast (octet 0 w) = (ucast (w :: 'a::len word) :: u16)"
proof -
  have "push_bit 8 (ucast (octet (Suc 0) w)) AND ucast (octet 0 w) = (0 :: u16)"
    by (rule bit_word_eqI) (auto simp: bit_simps)
  then have "push_bit 8 (ucast (octet (Suc 0) w)) + ucast (octet 0 w)
      = push_bit 8 (ucast (octet (Suc 0) w)) OR (ucast (octet 0 w) :: u16)"
    by (rule disjunctive_add_eq_or)
  also have "\<dots> = ucast w"
    by (rule bit_word_eqI) (auto simp: bit_simps)
  finally show ?thesis .
qed

lemma add_eq_or3:
  fixes a b c d :: "'a::len word"
  assumes "a AND b = 0" and "(a OR b) AND c = 0" and "(a OR b OR c) AND d = 0"
  shows "a + b + c + d = a OR b OR c OR d"
  using assms by (simp add: disjunctive_add_eq_or or.assoc)

lemma join_u32:
  "ucast (octet 0 w) + push_bit 8 (ucast (octet (Suc 0) w)) + push_bit 16 (ucast (octet 2 w))
     + push_bit 24 (ucast (octet 3 w)) = (w :: u32)"
proof -
  let ?o = "\<lambda>k. ucast (octet k w) :: u32"
  have "?o 0 + push_bit 8 (?o (Suc 0)) + push_bit 16 (?o 2) + push_bit 24 (?o 3)
      = ?o 0 OR push_bit 8 (?o (Suc 0)) OR push_bit 16 (?o 2) OR push_bit 24 (?o 3)"
    by (rule add_eq_or3; rule bit_word_eqI; auto simp: bit_simps)
  also have "\<dots> = w"
  proof (rule bit_word_eqI)
    fix n
    assume "n < LENGTH(32)"
    then consider "n < 8" | "8 \<le> n \<and> n < 16" | "16 \<le> n \<and> n < 24" | "24 \<le> n \<and> n < 32"
      by force
    then show "bit (?o 0 OR push_bit 8 (?o (Suc 0)) OR push_bit 16 (?o 2) OR push_bit 24 (?o 3)) n
        = bit w n"
      by cases (auto simp: bit_simps)
  qed
  finally show ?thesis .
qed

text \<open>A word below \<open>2 ^ k\<close> has no bit at \<open>k\<close> or above.\<close>

lemma bit_below:
  fixes v :: "'a::len word"
  assumes "unat v < 2 ^ k" and "bit v n"
  shows "n < k"
proof -
  from assms(2) have "bit (unat v) n" by (simp add: bit_unsigned_iff)
  then have "odd (unat v div 2 ^ n)" by (simp add: bit_iff_odd)
  then have "unat v div 2 ^ n \<noteq> 0" by (auto elim: oddE)
  then have "2 ^ n \<le> unat v" by (simp add: div_eq_0_iff not_less)
  with assms(1) have "(2::nat) ^ n < 2 ^ k" by linarith
  then show ?thesis by simp
qed

lemma unat_u8_less: "unat (b :: u8) < 256"
  using unsigned_less [of b] by simp

lemma and_80_eq_0: "(b :: u8) AND 0x80 = 0 \<longleftrightarrow> b < 0x80"
proof -
  have "b AND 0x80 = 0 \<longleftrightarrow> \<not> bit b 7"
    using and_exp_eq_0_iff_not_bit [of b 7] by simp
  also have "bit b 7 \<longleftrightarrow> bit (unat b) 7"
    by (simp add: bit_unsigned_iff)
  also have "\<dots> \<longleftrightarrow> odd (unat b div 128)"
    by (simp add: bit_iff_odd)
  also have "\<dots> \<longleftrightarrow> \<not> unat b < 128"
  proof (cases "unat b < 128")
    case False
    have "unat b div 128 = 1"
      by (rule div_nat_eqI) (use False unat_u8_less [of b] in simp_all)
    with False show ?thesis by simp
  qed simp
  finally show ?thesis by (simp add: word_less_nat_alt)
qed

lemma and_not_plus_and: "(b AND NOT m) + (b AND m) = (b :: 'a::len word)"
proof -
  have "(b AND NOT m) AND (b AND m) = 0"
    by (rule bit_word_eqI) (auto simp: bit_simps)
  then have "(b AND NOT m) + (b AND m) = (b AND NOT m) OR (b AND m)"
    by (rule disjunctive_add_eq_or)
  also have "\<dots> = b"
    by (rule bit_word_eqI) (auto simp: bit_simps)
  finally show ?thesis .
qed

lemma and_exp_bit: "bit b k \<Longrightarrow> b AND 2 ^ k = (2 ^ k :: 'a::len word)"
  by (rule bit_word_eqI) (auto simp only: bit_simps possible_bit_word)

text \<open>Clearing the top bit of a byte that has it set.\<close>

lemma clear_80:
  assumes "(b :: u8) AND 0x80 \<noteq> 0"
  shows "b AND NOT 0x80 = b - 0x80"
proof -
  have "b AND 2 ^ 7 \<noteq> 0" using assms by simp
  then have "bit b 7" using and_exp_eq_0_iff_not_bit [of b 7] by blast
  then have "b AND 2 ^ 7 = 2 ^ 7" by (rule and_exp_bit)
  then have m: "b AND 0x80 = 0x80" by simp
  from and_not_plus_and [of b "0x80"] have "(b AND NOT 0x80) + 0x80 = b" unfolding m .
  then show ?thesis by (rule eq_diff_eq [THEN iffD2])
qed

text \<open>Bytes promoted to \<open>int\<close>, as C promotes them.\<close>

lemma uint_byte_less: "uint (b :: u8) < 256"
  using unsigned_less [of b] by simp

lemma int_join_byte: "push_bit 8 a OR uint (b :: u8) = 256 * a + uint b"
proof -
  have "push_bit 8 a AND uint b = 0"
    by (rule bit_eqI) (auto simp: bit_simps dest!: bit_imp_le_length)
  then have "push_bit 8 a OR uint b = push_bit 8 a + uint b"
    by (simp add: disjunctive_add_eq_or)
  then show ?thesis by (simp add: push_bit_eq_mult)
qed

lemma byte_top_bit: "uint (b :: u8) AND 0x80 = 0 \<longleftrightarrow> b < 0x80"
proof -
  have "uint b AND 0x80 = uint (b AND 0x80)" by (simp add: unsigned_and_eq)
  then have "uint b AND 0x80 = 0 \<longleftrightarrow> b AND 0x80 = 0" by (simp only: unsigned_eq_0_iff)
  then show ?thesis by (simp only: and_80_eq_0)
qed

lemma byte_split7: "uint (b :: u8) = (uint b AND NOT 0x80) + (uint b AND 0x80)"
proof -
  have "(uint b AND NOT 0x80) AND (uint b AND 0x80) = 0"
    by (rule bit_eqI) (auto simp: bit_simps)
  then have "(uint b AND NOT 0x80) + (uint b AND 0x80) = (uint b AND NOT 0x80) OR (uint b AND 0x80)"
    by (rule disjunctive_add_eq_or)
  also have "\<dots> = uint b"
    by (rule bit_eqI) (auto simp: bit_simps)
  finally show ?thesis by simp
qed

lemma byte_clear_top:
  assumes "\<not> (b :: u8) < 0x80"
  shows "uint b AND NOT 0x80 = uint b - 128"
proof -
  have "b AND 0x80 \<noteq> 0" using assms by (simp add: and_80_eq_0)
  then have "bit b 7" using and_exp_eq_0_iff_not_bit [of b 7] by simp
  then have "b AND 2 ^ 7 = 2 ^ 7" by (rule and_exp_bit)
  then have "uint (b AND 0x80) = 128" by simp
  then have "uint b AND 0x80 = 128" by (simp add: unsigned_and_eq)
  with byte_split7 [of b] show ?thesis by simp
qed

lemma byte_low7:
  assumes "\<not> (b :: u8) < 0x80"
  shows "uint b AND 0x7F = uint b - 128"
proof -
  have "uint b AND 0x7F = take_bit 7 (uint b)" by (simp add: take_bit_eq_mask mask_eq_exp_minus_1)
  also have "\<dots> = uint b mod 128" by (simp add: take_bit_eq_mod)
  also have "\<dots> = uint b - 128"
  proof -
    have "128 \<le> uint b" using assms by (simp add: word_le_def word_less_def)
    then have "(uint b - 128) mod 128 = uint b - 128"
      using uint_byte_less [of b] by (intro mod_pos_pos_trivial) simp_all
    then show ?thesis using minus_mod_self2 [of "uint b" 128] by argo
  qed
  finally show ?thesis .
qed

section \<open>The option monad\<close>

lemma bind_if_None [simp]:
  "Option.bind (if c then Some x else None) f = (if c then f x else None)"
  by simp

lemma bind_eq_Some_iff: "Option.bind m f = Some y \<longleftrightarrow> (\<exists>x. m = Some x \<and> f x = Some y)"
  by (cases m) auto

section \<open>Memory blocks\<close>

text \<open>\<open>overwrite xs i bs\<close> stores the bytes \<open>bs\<close> at offset \<open>i\<close> of a block.\<close>

definition overwrite :: "'a list \<Rightarrow> nat \<Rightarrow> 'a list \<Rightarrow> 'a list" where
  "overwrite xs i bs = take i xs @ bs @ drop (i + length bs) xs"

lemma length_overwrite [simp]:
  "i + length bs \<le> length xs \<Longrightarrow> length (overwrite xs i bs) = length xs"
  by (simp add: overwrite_def)

lemma nth_overwrite:
  assumes "i + length bs \<le> length xs" and "j < length xs"
  shows "overwrite xs i bs ! j = (if i \<le> j \<and> j < i + length bs then bs ! (j - i) else xs ! j)"
  using assms by (auto simp: overwrite_def nth_append min_def)

end
