(* ===== verification/Wire_Stream.thy ===== *)
theory Wire_Stream
  imports Prelude
begin

unbundle bit_operations_syntax

text \<open>
  The byte stream every protocol layer reads from and writes to:
  \<^verbatim>\<open>include/freerdp/utils/stream.h\<close> and \<^verbatim>\<open>libfreerdp-utils/stream.c\<close>.
  A \<open>STREAM\<close> is a heap block \<open>s_data\<close>, a cursor \<open>s_p\<close> (the C pointer \<open>p\<close> as an offset from
  \<open>data\<close>) and a logical \<open>s_size\<close>. The macros check no bounds: a dereference outside the block
  is \<^term>\<open>None\<close>, while moving the cursor alone never fails. The C \<open>int\<close> offsets are
  unbounded here.
\<close>

section \<open>State and operations\<close>

record STREAM =
  s_size :: int
  s_p :: int
  s_data :: "u8 list"

definition stream_new :: "int \<Rightarrow> STREAM" where
  "stream_new sz =
     (if sz \<noteq> 0 then
        (let sz = (if sz > 0 then sz else 0x400)
         in \<lparr>s_size = sz, s_p = 0, s_data = replicate (nat sz) 0\<rparr>)
      else \<lparr>s_size = 0, s_p = 0, s_data = []\<rparr>)"

definition stream_attach :: "u8 list \<Rightarrow> int \<Rightarrow> STREAM" where
  "stream_attach buf sz = \<lparr>s_size = sz, s_p = 0, s_data = buf\<rparr>"

definition stream_detach :: "STREAM \<Rightarrow> STREAM" where
  "stream_detach s = \<lparr>s_size = 0, s_p = 0, s_data = []\<rparr>"

text \<open>
  \<open>realloc\<close> keeps the first \<open>original_size\<close> bytes and \<open>memset\<close> clears the added ones; a size
  that exceeds the block it describes is a corrupt stream.
\<close>

definition stream_extend :: "STREAM \<Rightarrow> int \<Rightarrow> STREAM option" where
  "stream_extend s request_size =
     (let original_size = s_size s;
          increased_size = (if request_size > original_size then request_size else original_size)
      in if 0 \<le> original_size \<and> original_size \<le> int (length (s_data s))
         then Some (s\<lparr>s_size := original_size + increased_size,
                      s_data := take (nat original_size) (s_data s) @ replicate (nat increased_size) 0\<rparr>)
         else None)"

partial_function (option) stream_check_size :: "STREAM \<Rightarrow> int \<Rightarrow> STREAM option" where
  "stream_check_size s n =
     (if s_p s + n > s_size s
      then Option.bind (stream_extend s n) (\<lambda>s. stream_check_size s n)
      else Some s)"

definition stream_get_pos :: "STREAM \<Rightarrow> int" where
  "stream_get_pos s = s_p s"

definition stream_set_pos :: "STREAM \<Rightarrow> int \<Rightarrow> STREAM" where
  "stream_set_pos s m = s\<lparr>s_p := m\<rparr>"

definition stream_seek :: "STREAM \<Rightarrow> int \<Rightarrow> STREAM" where
  "stream_seek s offset = s\<lparr>s_p := s_p s + offset\<rparr>"

definition stream_rewind :: "STREAM \<Rightarrow> int \<Rightarrow> STREAM" where
  "stream_rewind s offset = s\<lparr>s_p := s_p s - offset\<rparr>"

definition stream_seal :: "STREAM \<Rightarrow> STREAM" where
  "stream_seal s = s\<lparr>s_size := s_p s\<rparr>"

definition stream_get_length :: "STREAM \<Rightarrow> int" where
  "stream_get_length s = s_p s"

definition stream_get_left :: "STREAM \<Rightarrow> int" where
  "stream_get_left s = s_size s - s_p s"

text \<open>Dereferencing \<open>s->p + k\<close>.\<close>

definition byte_at :: "STREAM \<Rightarrow> int \<Rightarrow> u8 option" where
  "byte_at s k =
     (let i = s_p s + k
      in if 0 \<le> i \<and> i < int (length (s_data s)) then Some (s_data s ! nat i) else None)"

subsection \<open>Readers\<close>

definition stream_peek_uint8 :: "STREAM \<Rightarrow> u8 option" where
  "stream_peek_uint8 s = byte_at s 0"

definition stream_read_uint8 :: "STREAM \<Rightarrow> (u8 \<times> STREAM) option" where
  "stream_read_uint8 s = do { b \<leftarrow> byte_at s 0; Some (b, stream_seek s 1) }"

definition stream_read_uint16 :: "STREAM \<Rightarrow> (u16 \<times> STREAM) option" where
  "stream_read_uint16 s = do {
     b0 \<leftarrow> byte_at s 0;
     b1 \<leftarrow> byte_at s 1;
     Some (ucast b0 + push_bit 8 (ucast b1), stream_seek s 2) }"

definition stream_read_sint16 :: "STREAM \<Rightarrow> (int \<times> STREAM) option" where
  "stream_read_sint16 s = do {
     b0 \<leftarrow> byte_at s 0;
     b1 \<leftarrow> byte_at s 1;
     Some (sint (ucast b0 + push_bit 8 (ucast b1) :: u16), stream_seek s 2) }"

definition stream_read_uint32 :: "STREAM \<Rightarrow> (u32 \<times> STREAM) option" where
  "stream_read_uint32 s = do {
     b0 \<leftarrow> byte_at s 0;
     b1 \<leftarrow> byte_at s 1;
     b2 \<leftarrow> byte_at s 2;
     b3 \<leftarrow> byte_at s 3;
     Some (ucast b0 + push_bit 8 (ucast b1) + push_bit 16 (ucast b2) + push_bit 24 (ucast b3),
           stream_seek s 4) }"

definition stream_read_uint16_be :: "STREAM \<Rightarrow> (u16 \<times> STREAM) option" where
  "stream_read_uint16_be s = do {
     b0 \<leftarrow> byte_at s 0;
     b1 \<leftarrow> byte_at s 1;
     Some (push_bit 8 (ucast b0) + ucast b1, stream_seek s 2) }"

text \<open>The shifts are those of the macro: 8, 0, 24, 16 in stream order.\<close>

definition stream_read_uint32_be :: "STREAM \<Rightarrow> (u32 \<times> STREAM) option" where
  "stream_read_uint32_be s = do {
     b0 \<leftarrow> byte_at s 0;
     b1 \<leftarrow> byte_at s 1;
     b2 \<leftarrow> byte_at s 2;
     b3 \<leftarrow> byte_at s 3;
     Some (push_bit 8 (ucast b0) + ucast b1 + push_bit 24 (ucast b2) + push_bit 16 (ucast b3),
           stream_seek s 4) }"

text \<open>\<open>memcpy\<close> of \<open>n\<close> bytes starting at the cursor (or at any offset of a block).\<close>

definition block_read :: "u8 list \<Rightarrow> int \<Rightarrow> int \<Rightarrow> u8 list option" where
  "block_read d i n =
     (if n = 0 then Some []
      else if 0 \<le> i \<and> 0 \<le> n \<and> i + n \<le> int (length d)
      then Some (take (nat n) (drop (nat i) d)) else None)"

definition stream_read :: "STREAM \<Rightarrow> int \<Rightarrow> (u8 list \<times> STREAM) option" where
  "stream_read s n = do { b \<leftarrow> block_read (s_data s) (s_p s) n; Some (b, stream_seek s n) }"

subsection \<open>Writers\<close>

definition stream_put :: "STREAM \<Rightarrow> u8 \<Rightarrow> STREAM option" where
  "stream_put s b =
     (if 0 \<le> s_p s \<and> s_p s < int (length (s_data s))
      then Some (s\<lparr>s_data := (s_data s)[nat (s_p s) := b], s_p := s_p s + 1\<rparr>) else None)"

definition stream_write_uint8 :: "STREAM \<Rightarrow> 'a::len word \<Rightarrow> STREAM option" where
  "stream_write_uint8 s v = stream_put s (ucast v)"

definition stream_write_uint16 :: "STREAM \<Rightarrow> 'a::len word \<Rightarrow> STREAM option" where
  "stream_write_uint16 s v = do {
     s \<leftarrow> stream_put s (ucast (v AND 0xFF));
     stream_put s (ucast (drop_bit 8 v AND 0xFF)) }"

definition stream_write_uint32 :: "STREAM \<Rightarrow> 'a::len word \<Rightarrow> STREAM option" where
  "stream_write_uint32 s v = do {
     s \<leftarrow> stream_put s (ucast (v AND 0xFF));
     s \<leftarrow> stream_put s (ucast (drop_bit 8 v AND 0xFF));
     s \<leftarrow> stream_put s (ucast (drop_bit 16 v AND 0xFF));
     stream_put s (ucast (drop_bit 24 v AND 0xFF)) }"

definition stream_write_uint16_be :: "STREAM \<Rightarrow> 'a::len word \<Rightarrow> STREAM option" where
  "stream_write_uint16_be s v = do {
     s \<leftarrow> stream_put s (ucast (drop_bit 8 v AND 0xFF));
     stream_put s (ucast (v AND 0xFF)) }"

definition stream_write_uint32_be :: "STREAM \<Rightarrow> 'a::len word \<Rightarrow> STREAM option" where
  "stream_write_uint32_be s v = do {
     s \<leftarrow> stream_write_uint16_be s (drop_bit 16 v AND 0xFFFF);
     stream_write_uint16_be s (v AND 0xFFFF) }"

definition stream_write :: "STREAM \<Rightarrow> u8 list \<Rightarrow> int \<Rightarrow> STREAM option" where
  "stream_write s b n =
     (if n = 0 then Some s
      else if 0 \<le> n \<and> n \<le> int (length b) \<and> 0 \<le> s_p s \<and> s_p s + n \<le> int (length (s_data s))
      then Some (s\<lparr>s_data := overwrite (s_data s) (nat (s_p s)) (take (nat n) b), s_p := s_p s + n\<rparr>)
      else None)"

definition stream_write_zero :: "STREAM \<Rightarrow> int \<Rightarrow> STREAM option" where
  "stream_write_zero s n = stream_write s (replicate (nat n) 0) n"

definition stream_set_byte :: "STREAM \<Rightarrow> u8 \<Rightarrow> int \<Rightarrow> STREAM option" where
  "stream_set_byte s v n = stream_write s (replicate (nat n) v) n"

definition stream_copy :: "STREAM \<Rightarrow> STREAM \<Rightarrow> int \<Rightarrow> (STREAM \<times> STREAM) option" where
  "stream_copy dst src n = do {
     b \<leftarrow> block_read (s_data src) (s_p src) n;
     dst \<leftarrow> stream_write dst b n;
     Some (dst, stream_seek src n) }"


section \<open>Streams in canonical form\<close>

text \<open>
  \<open>stm pre rst sz\<close> is the stream whose cursor stands between the bytes \<open>pre\<close> and \<open>rst\<close> of its
  block. Every stream with its cursor inside the block has this form, and on it the macros are
  plain list operations.
\<close>

definition stm :: "u8 list \<Rightarrow> u8 list \<Rightarrow> int \<Rightarrow> STREAM" where
  "stm pre rst sz = \<lparr>s_size = sz, s_p = int (length pre), s_data = pre @ rst\<rparr>"

definition stream_ok :: "STREAM \<Rightarrow> bool" where
  "stream_ok s \<longleftrightarrow> 0 \<le> s_p s \<and> s_p s \<le> int (length (s_data s))"

lemma stm_sel [simp]:
  "s_size (stm pre rst sz) = sz" "s_p (stm pre rst sz) = int (length pre)"
  "s_data (stm pre rst sz) = pre @ rst"
  by (simp_all add: stm_def)

lemma stm_eq_iff [simp]:
  "stm pre rst sz = stm pre' rst' sz' \<longleftrightarrow> pre = pre' \<and> rst = rst' \<and> sz = sz'"
  by (auto simp: stm_def)

lemma stream_ok_stm [simp, intro]: "stream_ok (stm pre rst sz)"
  by (simp add: stream_ok_def)

lemma stream_ok_cases [case_names stm]:
  assumes "stream_ok s"
  obtains pre rst sz where "s = stm pre rst sz"
proof -
  let ?n = "nat (s_p s)"
  from assms have "s = stm (take ?n (s_data s)) (drop ?n (s_data s)) (s_size s)"
    by (cases s) (auto simp: stm_def stream_ok_def)
  then show ?thesis by (rule that)
qed

lemma stream_set_pos_stm:
  "int n = int (length pre) \<Longrightarrow> stream_set_pos (stm (pre @ bs) rst sz) (int n) = stm pre (bs @ rst) sz"
  by (simp add: stm_def stream_set_pos_def)

lemma stream_set_pos_start: "stream_set_pos (stm pre rst sz) 0 = stm [] (pre @ rst) sz"
  by (simp add: stm_def stream_set_pos_def)

lemma stream_seek_stm:
  "0 \<le> n \<Longrightarrow> n \<le> int (length rst) \<Longrightarrow>
     stream_seek (stm pre rst sz) n = stm (pre @ take (nat n) rst) (drop (nat n) rst) sz"
  by (auto simp: stm_def stream_seek_def min_def)

lemma byte_at_stm [wire]:
  "byte_at (stm pre rst sz) k =
     (if - int (length pre) \<le> k \<and> k < int (length rst)
      then Some ((pre @ rst) ! nat (int (length pre) + k)) else None)"
  by (auto simp: byte_at_def Let_def)

subsection \<open>The readers on canonical streams\<close>

lemma stream_peek_uint8_stm [wire]:
  "stream_peek_uint8 (stm pre (b # rst) sz) = Some b"
  "stream_peek_uint8 (stm pre [] sz) = None"
  by (simp_all add: stream_peek_uint8_def byte_at_stm)

lemma stream_read_uint8_stm [wire]:
  "stream_read_uint8 (stm pre (b # rst) sz) = Some (b, stm (pre @ [b]) rst sz)"
  "stream_read_uint8 (stm pre [] sz) = None"
  by (simp_all add: stream_read_uint8_def byte_at_stm stream_seek_stm)


lemma byte_at_stm_0 [wire]: "byte_at (stm pre (b # rst) sz) 0 = Some b"
  by (simp add: byte_at_stm)

lemma byte_at_stm_1 [wire]: "byte_at (stm pre (a # b # rst) sz) 1 = Some b"
  by (simp add: byte_at_stm nth_append nat_add_distrib)

lemma byte_at_stm_2 [wire]: "byte_at (stm pre (a # b # c # rst) sz) 2 = Some c"
  by (simp add: byte_at_stm nth_append nat_add_distrib)

lemma byte_at_stm_3 [wire]: "byte_at (stm pre (a # b # c # d # rst) sz) 3 = Some d"
  by (simp add: byte_at_stm nth_append nat_add_distrib)

lemma stream_read_uint16_stm [wire]:
  "stream_read_uint16 (stm pre (a # b # rst) sz)
     = Some (ucast a + push_bit 8 (ucast b), stm (pre @ [a, b]) rst sz)"
  by (simp add: stream_read_uint16_def byte_at_stm_0 byte_at_stm_1 stream_seek_stm)

lemma stream_read_sint16_stm [wire]:
  "stream_read_sint16 (stm pre (a # b # rst) sz)
     = Some (sint (ucast a + push_bit 8 (ucast b) :: u16), stm (pre @ [a, b]) rst sz)"
  by (simp add: stream_read_sint16_def byte_at_stm_0 byte_at_stm_1 stream_seek_stm)

lemma stream_read_uint16_be_stm [wire]:
  "stream_read_uint16_be (stm pre (a # b # rst) sz)
     = Some (push_bit 8 (ucast a) + ucast b, stm (pre @ [a, b]) rst sz)"
  by (simp add: stream_read_uint16_be_def byte_at_stm_0 byte_at_stm_1 stream_seek_stm)

lemmas byte_at_stm_0123 = byte_at_stm_0 byte_at_stm_1 byte_at_stm_2 byte_at_stm_3

lemma stream_read_uint32_stm [wire]:
  "stream_read_uint32 (stm pre (a # b # c # d # rst) sz)
     = Some (ucast a + push_bit 8 (ucast b) + push_bit 16 (ucast c) + push_bit 24 (ucast d),
             stm (pre @ [a, b, c, d]) rst sz)"
  by (simp add: stream_read_uint32_def byte_at_stm_0123 stream_seek_stm)

lemma stream_read_uint32_be_stm [wire]:
  "stream_read_uint32_be (stm pre (a # b # c # d # rst) sz)
     = Some (push_bit 8 (ucast a) + ucast b + push_bit 24 (ucast c) + push_bit 16 (ucast d),
             stm (pre @ [a, b, c, d]) rst sz)"
  by (simp add: stream_read_uint32_be_def byte_at_stm_0123 stream_seek_stm)

lemma stream_read_stm [wire]:
  "stream_read (stm pre (bs @ rst) sz) (int (length bs)) = Some (bs, stm (pre @ bs) rst sz)"
  by (cases bs) (simp_all add: stream_read_def block_read_def stream_seek_stm nat_add_distrib)

subsection \<open>Writers as emission of bytes\<close>

text \<open>
  \<open>emit bs s\<close> stores the bytes \<open>bs\<close> at the cursor and moves it behind them. Every writer of
  the protocol layers is such an emission, and two emissions in sequence are one.
\<close>

definition emit :: "u8 list \<Rightarrow> STREAM \<Rightarrow> STREAM option" where
  "emit bs s = stream_write s bs (int (length bs))"

lemma emit_stm:
  "emit bs (stm pre rst sz) =
     (if length bs \<le> length rst then Some (stm (pre @ bs) (drop (length bs) rst) sz) else None)"
  by (auto simp: emit_def stream_write_def stm_def overwrite_def)

lemma emit_Nil [simp]: "emit [] s = Some s"
  by (simp add: emit_def stream_write_def)

lemma emit_not_ok: "\<not> stream_ok s \<Longrightarrow> emit bs s = (if bs = [] then Some s else None)"
  by (auto simp: emit_def stream_write_def stream_ok_def)

lemma bind_emit [wire]: "Option.bind (emit as s) (emit bs) = emit (as @ bs) s"
proof (cases "stream_ok s")
  case True
  then obtain pre rst sz where "s = stm pre rst sz" by (rule stream_ok_cases)
  then show ?thesis by (auto simp: emit_stm add.commute)
next
  case False
  then show ?thesis by (simp add: emit_not_ok)
qed

lemma bind_emit_bind [wire]:
  "Option.bind (emit as s) (\<lambda>s. Option.bind (emit bs s) f) = Option.bind (emit (as @ bs) s) f"
  by (simp flip: bind_emit)

lemma stream_put_emit [wire]: "stream_put s b = emit [b] s"
  by (auto simp: stream_put_def emit_def stream_write_def overwrite_def upd_conv_take_nth_drop)

lemma ucast_and_FF: "ucast (v AND 0xFF :: 'a::len word) = octet 0 v"
proof (rule bit_word_eqI)
  fix n
  have "(0xFF :: 'a word) = mask 8" by (simp add: mask_eq_exp_minus_1)
  then show "bit (ucast (v AND 0xFF :: 'a word) :: u8) n = bit (octet 0 v) n"
    if "n < LENGTH(8)"
    using that by (simp only: bit_simps) (auto dest: bit_imp_le_length)
qed

lemmas octet_of_byte = ucast_and_FF octet_drop_bit

lemma stream_write_uint8_emit [wire]: "stream_write_uint8 s v = emit [octet 0 v] s"
  by (simp add: stream_write_uint8_def wire octet_def)

lemma stream_write_uint16_emit [wire]: "stream_write_uint16 s v = emit [octet 0 v, octet (Suc 0) v] s"
  by (simp add: stream_write_uint16_def octet_of_byte wire)

lemma stream_write_uint16_be_emit [wire]:
  "stream_write_uint16_be s v = emit [octet (Suc 0) v, octet 0 v] s"
  by (simp add: stream_write_uint16_be_def octet_of_byte wire)

lemma stream_write_uint32_emit [wire]:
  "stream_write_uint32 s v = emit [octet 0 v, octet (Suc 0) v, octet 2 v, octet 3 v] s"
  by (simp add: stream_write_uint32_def octet_of_byte wire)

lemma stream_write_emit [wire]:
  "0 \<le> n \<Longrightarrow> n \<le> int (length b) \<Longrightarrow> stream_write s b n = emit (take (nat n) b) s"
  by (auto simp: emit_def stream_write_def)


subsection \<open>Growing a stream\<close>

text \<open>A stream as \<open>stream_new\<close> makes it and \<open>stream_extend\<close> keeps it.\<close>

definition stream_wf :: "STREAM \<Rightarrow> bool" where
  "stream_wf s \<longleftrightarrow> 0 \<le> s_p s \<and> 0 \<le> s_size s \<and> s_size s \<le> int (length (s_data s))"

lemma stream_wf_new: "stream_wf (stream_new n)"
  by (auto simp: stream_wf_def stream_new_def Let_def)

lemma stream_extend_wf:
  assumes "stream_wf s" and "stream_extend s n = Some s'"
  shows "stream_wf s'" and "s_p s' = s_p s" and "s_size s' = s_size s + max n (s_size s)"
    and "take (nat (s_size s)) (s_data s') = take (nat (s_size s)) (s_data s)"
  using assms
  by (auto simp: stream_wf_def stream_extend_def Let_def split: if_splits)

lemma stream_extend_returns: "stream_wf s \<Longrightarrow> \<exists>s'. stream_extend s n = Some s'"
  by (auto simp: stream_wf_def stream_extend_def Let_def)


lemma stream_check_size_grows:
  assumes "stream_wf s" and "0 < n"
  shows "\<exists>s'. stream_check_size s n = Some s' \<and> stream_wf s' \<and> s_p s' = s_p s
    \<and> s_p s + n \<le> s_size s' \<and> s_size s \<le> s_size s'
    \<and> take (nat (s_size s)) (s_data s') = take (nat (s_size s)) (s_data s)"
  using assms(1)
proof (induction "nat (s_p s + n - s_size s)" arbitrary: s rule: less_induct)
  case less
  show ?case
  proof (cases "s_p s + n > s_size s")
    case False
    with less.prems show ?thesis by (subst stream_check_size.simps) auto
  next
    case True
    obtain t where t: "stream_extend s n = Some t"
      using less.prems stream_extend_returns by blast
    note ext = stream_extend_wf [OF less.prems t]
    have "nat (s_p t + n - s_size t) < nat (s_p s + n - s_size s)"
      using True ext \<open>0 < n\<close> by (auto simp: max_def)
    from less.hyps [OF this ext(1)] obtain u where
      u: "stream_check_size t n = Some u" "stream_wf u" "s_p u = s_p t" "s_p t + n \<le> s_size u"
        "s_size t \<le> s_size u" "take (nat (s_size t)) (s_data u) = take (nat (s_size t)) (s_data t)"
      by blast
    have le: "s_size s \<le> s_size t" using ext(3) less.prems by (simp add: stream_wf_def max_def)
    have "take (nat (s_size s)) (s_data u) = take (nat (s_size s)) (take (nat (s_size t)) (s_data u))"
      using le by (simp add: min_def)
    also have "\<dots> = take (nat (s_size s)) (s_data t)"
      using le u(6) by (simp add: min_def)
    finally have "take (nat (s_size s)) (s_data u) = take (nat (s_size s)) (s_data s)"
      using ext(4) by simp
    moreover have "stream_check_size s n = Some u"
      using True t u(1) by (subst stream_check_size.simps) simp
    ultimately show ?thesis using u ext(2) le by auto
  qed
qed

section \<open>Encodings: the contract between a writer and a reader\<close>

text \<open>
  The interface of every pair \<open>write_x\<close>/\<open>read_x\<close> of the protocol layers. On the values the
  encoding is meant for (\<open>ok\<close>), the writer emits \<open>enc v\<close> and the reader, standing before
  these bytes, consumes exactly them and returns \<open>dec v\<close>. The rest follows here once: a
  written value reads back, the writer faults exactly when the block has no room for the
  encoding, and it touches no other byte.
\<close>

locale wire_writer =
  fixes wr :: "STREAM \<Rightarrow> 'v \<Rightarrow> STREAM option"
    and enc :: "'v \<Rightarrow> u8 list"
    and ok :: "'v \<Rightarrow> bool"
  assumes wr_emit: "ok v \<Longrightarrow> wr s v = emit (enc v) s"
begin

lemma write_stm:
  assumes "ok v" and "stream_ok s" and "wr s v = Some s'"
  obtains pre rst sz where "s = stm pre (take (length (enc v)) rst @ drop (length (enc v)) rst) sz"
    and "s' = stm (pre @ enc v) (drop (length (enc v)) rst) sz"
proof -
  from assms(2) obtain pre rst sz where s: "s = stm pre rst sz" by (rule stream_ok_cases)
  with assms(1,3) have s': "s' = stm (pre @ enc v) (drop (length (enc v)) rst) sz"
    by (auto simp: wr_emit emit_stm split: if_splits)
  show ?thesis using that [OF _ s'] s by simp
qed

lemma write_returns_iff:
  assumes "ok v" and "stream_ok s"
  shows "(\<exists>s'. wr s v = Some s') \<longleftrightarrow> s_p s + int (length (enc v)) \<le> int (length (s_data s))"
proof -
  from assms(2) obtain pre rst sz where "s = stm pre rst sz" by (rule stream_ok_cases)
  then show ?thesis using assms(1) by (auto simp: wr_emit emit_stm)
qed

lemma write_frame:
  assumes "ok v" and "stream_ok s" and "wr s v = Some s'"
  shows "s_p s' = s_p s + int (length (enc v))" and "s_size s' = s_size s"
    and "s_data s' = overwrite (s_data s) (nat (s_p s)) (enc v)"
proof -
  from assms(2) obtain pre rst sz where s: "s = stm pre rst sz" by (rule stream_ok_cases)
  then show "s_p s' = s_p s + int (length (enc v))" "s_size s' = s_size s"
    "s_data s' = overwrite (s_data s) (nat (s_p s)) (enc v)"
    using assms(1,3) by (auto simp: wr_emit emit_stm overwrite_def split: if_splits)
qed

end

text \<open>Some readers look at the size of the stream first and need it to cover the encoding.\<close>

locale sized_codec = wire_writer wr enc ok
  for wr :: "STREAM \<Rightarrow> 'v \<Rightarrow> STREAM option" and enc :: "'v \<Rightarrow> u8 list" and ok :: "'v \<Rightarrow> bool" +
  fixes rd :: "STREAM \<Rightarrow> ('r \<times> STREAM) option"
    and dec :: "'v \<Rightarrow> 'r"
  assumes rd_sized: "ok v \<Longrightarrow> int (length pre + length (enc v)) \<le> sz \<Longrightarrow>
    rd (stm pre (enc v @ rst) sz) = Some (dec v, stm (pre @ enc v) rst sz)"
begin

lemma read_back_sized:
  assumes "ok v" and "stream_ok s" and "wr s v = Some s'" and "s_p s' \<le> s_size s'"
  shows "rd (stream_set_pos s' (stream_get_pos s)) = Some (dec v, s')"
proof -
  obtain pre rst sz where s: "s = stm pre (take (length (enc v)) rst @ drop (length (enc v)) rst) sz"
    and s': "s' = stm (pre @ enc v) (drop (length (enc v)) rst) sz"
    using assms(1-3) by (rule write_stm)
  then have "stream_set_pos s' (stream_get_pos s) = stm pre (enc v @ drop (length (enc v)) rst) sz"
    by (simp add: stream_get_pos_def stream_set_pos_stm)
  with s' assms(1,4) show ?thesis by (simp add: rd_sized)
qed

end

locale wire_codec = wire_writer wr enc ok
  for wr :: "STREAM \<Rightarrow> 'v \<Rightarrow> STREAM option" and enc :: "'v \<Rightarrow> u8 list" and ok :: "'v \<Rightarrow> bool" +
  fixes rd :: "STREAM \<Rightarrow> ('r \<times> STREAM) option"
    and dec :: "'v \<Rightarrow> 'r"
  assumes rd_stm: "ok v \<Longrightarrow> rd (stm pre (enc v @ rst) sz) = Some (dec v, stm (pre @ enc v) rst sz)"
begin

sublocale sized_codec wr enc ok rd dec
  by unfold_locales (rule rd_stm)

lemma read_back:
  assumes "ok v" and "stream_ok s" and "wr s v = Some s'"
  shows "rd (stream_set_pos s' (stream_get_pos s)) = Some (dec v, s')"
proof -
  obtain pre rst sz where s: "s = stm pre (take (length (enc v)) rst @ drop (length (enc v)) rst) sz"
    and s': "s' = stm (pre @ enc v) (drop (length (enc v)) rst) sz"
    using assms by (rule write_stm)
  then have "stream_set_pos s' (stream_get_pos s) = stm pre (enc v @ drop (length (enc v)) rst) sz"
    by (simp add: stream_get_pos_def stream_set_pos_stm)
  with s' show ?thesis by (simp add: rd_stm assms(1))
qed

end

lemma map_snd_emit [wire]:
  "map_option snd (Option.bind (emit bs s) (\<lambda>s. Some (f s, s))) = emit bs s"
  by (cases "emit bs s") simp_all

text \<open>Two encodings in sequence are an encoding.\<close>

locale wire_codec_pair =
  a: wire_codec wr1 enc1 ok1 rd1 dec1 + b: wire_codec wr2 enc2 ok2 rd2 dec2
  for wr1 :: "STREAM \<Rightarrow> 'v \<Rightarrow> STREAM option" and enc1 ok1
    and rd1 :: "STREAM \<Rightarrow> ('r \<times> STREAM) option" and dec1
    and wr2 :: "STREAM \<Rightarrow> 'w \<Rightarrow> STREAM option" and enc2 ok2
    and rd2 :: "STREAM \<Rightarrow> ('t \<times> STREAM) option" and dec2
begin

sublocale seq: wire_codec
  "\<lambda>s p. Option.bind (wr1 s (fst p)) (\<lambda>s. wr2 s (snd p))"
  "\<lambda>p. enc1 (fst p) @ enc2 (snd p)" "\<lambda>p. ok1 (fst p) \<and> ok2 (snd p)"
  "\<lambda>s. Option.bind (rd1 s) (\<lambda>(x, s). Option.bind (rd2 s) (\<lambda>(y, s). Some ((x, y), s)))"
  "\<lambda>p. (dec1 (fst p), dec2 (snd p))"
  by unfold_locales (auto simp: a.wr_emit b.wr_emit a.rd_stm b.rd_stm bind_emit)

end

section \<open>Bounded readers\<close>

text \<open>
  The parsers of received data that compare with \<open>stream_get_left\<close> before they read: from a
  stream whose cursor is inside its size they return without a fault, move the cursor forward,
  never beyond the size, and change nothing else.
\<close>

definition inside :: "STREAM \<Rightarrow> bool" where
  "inside s \<longleftrightarrow> 0 \<le> s_p s \<and> s_p s \<le> s_size s \<and> s_size s \<le> int (length (s_data s))"

definition advances :: "STREAM \<Rightarrow> STREAM \<Rightarrow> bool" where
  "advances s s' \<longleftrightarrow> inside s' \<and> s_p s \<le> s_p s' \<and> s_size s' = s_size s \<and> s_data s' = s_data s"

lemma advances_refl [simp]: "inside s \<Longrightarrow> advances s s"
  by (simp add: advances_def)

lemma advances_trans [trans]: "advances s t \<Longrightarrow> advances t u \<Longrightarrow> advances s u"
  by (auto simp: advances_def)

lemma advances_inside [dest]: "advances s t \<Longrightarrow> inside t"
  by (simp add: advances_def)

lemma advances_seek: "inside s \<Longrightarrow> 0 \<le> n \<Longrightarrow> n \<le> stream_get_left s \<Longrightarrow> advances s (stream_seek s n)"
  by (auto simp: advances_def inside_def stream_get_left_def stream_seek_def)

lemma byte_at_inside: "inside s \<Longrightarrow> 0 \<le> k \<Longrightarrow> k < stream_get_left s \<Longrightarrow> \<exists>b. byte_at s k = Some b"
  by (auto simp: inside_def byte_at_def stream_get_left_def Let_def)

lemma left_seek [simp]: "stream_get_left (stream_seek s n) = stream_get_left s - n"
  by (simp add: stream_get_left_def stream_seek_def)

lemma seek_sel [simp]:
  "s_data (stream_seek s n) = s_data s" "s_size (stream_seek s n) = s_size s" "s_p (stream_seek s n) = s_p s + n"
  by (simp_all add: stream_seek_def)

lemma seek_seek [simp]: "stream_seek (stream_seek s m) n = stream_seek s (m + n)"
  by (simp add: stream_seek_def)

lemma read_uint8_inside:
  assumes "inside s" and "1 \<le> stream_get_left s"
  shows "\<exists>v. stream_read_uint8 s = Some (v, stream_seek s 1)"
  using byte_at_inside [OF assms(1), of 0] assms(2) by (auto simp: stream_read_uint8_def)

lemma read_uint16_inside:
  assumes "inside s" and "2 \<le> stream_get_left s"
  shows "\<exists>v. stream_read_uint16 s = Some (v, stream_seek s 2)"
  using byte_at_inside [OF assms(1), of 0] byte_at_inside [OF assms(1), of 1] assms(2)
  by (auto simp: stream_read_uint16_def)

lemma read_uint32_inside:
  assumes "inside s" and "4 \<le> stream_get_left s"
  shows "\<exists>v. stream_read_uint32 s = Some (v, stream_seek s 4)"
  using byte_at_inside [OF assms(1), of 0] byte_at_inside [OF assms(1), of 1]
    byte_at_inside [OF assms(1), of 2] byte_at_inside [OF assms(1), of 3] assms(2)
  by (auto simp: stream_read_uint32_def)

lemma inside_seek: "inside s \<Longrightarrow> 0 \<le> n \<Longrightarrow> n \<le> stream_get_left s \<Longrightarrow> inside (stream_seek s n)"
  using advances_seek by blast

text \<open>\<open>safe_from s r\<close>: the computation returned, at a stream that \<open>s\<close> advances to.\<close>

definition safe_from :: "STREAM \<Rightarrow> ('r \<times> STREAM) option \<Rightarrow> bool" where
  "safe_from s r \<longleftrightarrow> (\<exists>q t. r = Some (q, t) \<and> advances s t)"

named_theorems safe_intro

lemma safe_return [safe_intro]: "advances s t \<Longrightarrow> safe_from s (Some (q, t))"
  by (simp add: safe_from_def)

lemma safe_if [safe_intro]:
  "(c \<Longrightarrow> safe_from s a) \<Longrightarrow> (\<not> c \<Longrightarrow> safe_from s b) \<Longrightarrow> safe_from s (if c then a else b)"
  by simp

lemma safe_bind:
  "safe_from s m \<Longrightarrow> (\<And>q t. advances s t \<Longrightarrow> safe_from t (f (q, t))) \<Longrightarrow> safe_from s (Option.bind m f)"
  unfolding safe_from_def using advances_trans by fastforce

lemma safe_read_uint8 [safe_intro]:
  "inside s \<Longrightarrow> 1 \<le> stream_get_left s \<Longrightarrow> (\<And>v. safe_from s0 (f (v, stream_seek s 1))) \<Longrightarrow>
     safe_from s0 (Option.bind (stream_read_uint8 s) f)"
  using read_uint8_inside by fastforce

lemma safe_read_uint16 [safe_intro]:
  "inside s \<Longrightarrow> 2 \<le> stream_get_left s \<Longrightarrow> (\<And>v. safe_from s0 (f (v, stream_seek s 2))) \<Longrightarrow>
     safe_from s0 (Option.bind (stream_read_uint16 s) f)"
  using read_uint16_inside by fastforce

lemma safe_read_uint32 [safe_intro]:
  "inside s \<Longrightarrow> 4 \<le> stream_get_left s \<Longrightarrow> (\<And>v. safe_from s0 (f (v, stream_seek s 4))) \<Longrightarrow>
     safe_from s0 (Option.bind (stream_read_uint32 s) f)"
  using read_uint32_inside by fastforce

locale bounded_reader =
  fixes rd :: "STREAM \<Rightarrow> ('r \<times> STREAM) option"
  assumes bounded: "inside s \<Longrightarrow> safe_from s (rd s)"
begin

lemma no_fault: "inside s \<Longrightarrow> rd s \<noteq> None"
  using bounded unfolding safe_from_def by fastforce

lemma stays_inside: "inside s \<Longrightarrow> rd s = Some (r, s') \<Longrightarrow> advances s s'"
  using bounded unfolding safe_from_def by fastforce

lemma then_bounded:
  "inside s \<Longrightarrow> (\<And>q t. advances s t \<Longrightarrow> safe_from t (f (q, t))) \<Longrightarrow> safe_from s (Option.bind (rd s) f)"
  by (rule safe_bind [OF bounded])

end

section \<open>The fixed-width integers\<close>

interpretation w8: wire_codec "stream_write_uint8 :: STREAM \<Rightarrow> u8 \<Rightarrow> _"
  "\<lambda>v. [v]" "\<lambda>_. True" stream_read_uint8 id
  by unfold_locales (simp_all add: wire)

interpretation w16: wire_codec "stream_write_uint16 :: STREAM \<Rightarrow> u16 \<Rightarrow> _"
  "\<lambda>v. [octet 0 v, octet (Suc 0) v]" "\<lambda>_. True" stream_read_uint16 id
  by unfold_locales (simp_all add: wire join_u16)

interpretation w16be: wire_codec "stream_write_uint16_be :: STREAM \<Rightarrow> u16 \<Rightarrow> _"
  "\<lambda>v. [octet (Suc 0) v, octet 0 v]" "\<lambda>_. True" stream_read_uint16_be id
  by unfold_locales (simp_all add: wire join_u16_be)

interpretation w32: wire_codec "stream_write_uint32 :: STREAM \<Rightarrow> u32 \<Rightarrow> _"
  "\<lambda>v. [octet 0 v, octet (Suc 0) v, octet 2 v, octet 3 v]" "\<lambda>_. True" stream_read_uint32 id
  by unfold_locales (simp_all add: wire join_u32)


text \<open>
  The big-endian 32-bit pair is not symmetric: the writer puts the most significant byte first,
  the reader shifts the bytes by 8, 0, 24 and 16, so a value comes back with its two halves
  exchanged.
\<close>

definition swap_halves :: "u32 \<Rightarrow> u32" where
  "swap_halves v = push_bit 16 v OR drop_bit 16 v"

lemma octet_and_FFFF:
  "octet 0 (w AND 0xFFFF :: u32) = octet 0 w" "octet (Suc 0) (w AND 0xFFFF :: u32) = octet (Suc 0) w"
proof -
  have "(0xFFFF :: u32) = mask 16" by (simp add: mask_eq_exp_minus_1)
  then show "octet 0 (w AND 0xFFFF) = octet 0 w" "octet (Suc 0) (w AND 0xFFFF) = octet (Suc 0) w"
    by (auto intro!: bit_word_eqI simp only: bit_simps) auto
qed

lemma octet_drop_16:
  "octet 0 (drop_bit 16 v :: u32) = octet 2 v" "octet (Suc 0) (drop_bit 16 v :: u32) = octet 3 v"
  by (auto simp: octet_def)

lemma stream_write_uint32_be_emit [wire]:
  "stream_write_uint32_be s (v :: u32) = emit [octet 3 v, octet 2 v, octet (Suc 0) v, octet 0 v] s"
  by (simp add: stream_write_uint32_be_def wire octet_and_FFFF octet_drop_16)

lemma join_u32_be:
  "push_bit 8 (ucast (octet 3 w)) + ucast (octet 2 w) + push_bit 24 (ucast (octet (Suc 0) w))
     + push_bit 16 (ucast (octet 0 w)) = swap_halves w"
proof -
  let ?o = "\<lambda>k. ucast (octet k w) :: u32"
  have "push_bit 8 (?o 3) + ?o 2 + push_bit 24 (?o (Suc 0)) + push_bit 16 (?o 0)
      = push_bit 8 (?o 3) OR ?o 2 OR push_bit 24 (?o (Suc 0)) OR push_bit 16 (?o 0)"
    by (rule add_eq_or3; rule bit_word_eqI; auto simp: bit_simps)
  also have "\<dots> = swap_halves w"
  proof (rule bit_word_eqI)
    fix n
    assume "n < LENGTH(32)"
    then consider "n < 8" | "8 \<le> n \<and> n < 16" | "16 \<le> n \<and> n < 24" | "24 \<le> n \<and> n < 32"
      by force
    then show "bit (push_bit 8 (?o 3) OR ?o 2 OR push_bit 24 (?o (Suc 0)) OR push_bit 16 (?o 0)) n
        = bit (swap_halves w) n"
      by cases (auto simp: bit_simps swap_halves_def dest: bit_imp_le_length)
  qed
  finally show ?thesis .
qed

interpretation w32be: wire_codec "stream_write_uint32_be :: STREAM \<Rightarrow> u32 \<Rightarrow> _"
  "\<lambda>v. [octet 3 v, octet 2 v, octet (Suc 0) v, octet 0 v]" "\<lambda>_. True" stream_read_uint32_be swap_halves
  by unfold_locales (simp_all add: wire join_u32_be)

section \<open>Properties\<close>



text \<open>
  C27: a 32-bit value written big-endian with \<open>stream_write_uint32_be\<close> is read back by
  \<open>stream_read_uint32_be\<close> with its 16-bit halves exchanged, so only values whose halves are
  equal survive the round trip.
\<close>

theorem uint32_be_swaps:
  assumes "stream_ok s" and "stream_write_uint32_be s v = Some s'"
  shows "stream_read_uint32_be (stream_set_pos s' (stream_get_pos s)) = Some (swap_halves v, s')"
  using w32be.read_back [OF _ assms] by simp

theorem uint32_be_swaps_witness:
  "stream_read_uint32_be (stm [] [0x12, 0x34, 0x56, 0x78] 4)
     = Some (0x56781234, stm [0x12, 0x34, 0x56, 0x78] [] 4)"
proof -
  have w: "stream_write_uint32_be (stm [] [0, 0, 0, 0] 4) (0x12345678 :: u32)
      = Some (stm [0x12, 0x34, 0x56, 0x78] [] 4)"
    by (simp add: wire emit_stm octet_def)
  show ?thesis
    using uint32_be_swaps [OF stream_ok_stm w]
    by (simp add: stream_get_pos_def stream_set_pos_start swap_halves_def)
qed

end
