(* ===== verification/Ber.thy ===== *)
theory Ber
  imports Wire_Stream
begin

unbundle bit_operations_syntax

text \<open>
  ASN.1 Basic Encoding Rules: \<^verbatim>\<open>libfreerdp-core/ber.c\<close> and \<^verbatim>\<open>ber.h\<close>. An out-parameter of the C
  code that some path leaves unwritten is an argument here too: the reader takes the old
  content of the variable and returns the new one. The functions that return a byte count
  return it beside the stream.
\<close>

section \<open>Constants\<close>

definition BER_CLASS_UNIV :: u8 where "BER_CLASS_UNIV = 0x00"
definition BER_CLASS_APPL :: u8 where "BER_CLASS_APPL = 0x40"
definition BER_CLASS_CTXT :: u8 where "BER_CLASS_CTXT = 0x80"
definition BER_PRIMITIVE :: u8 where "BER_PRIMITIVE = 0x00"
definition BER_CONSTRUCT :: u8 where "BER_CONSTRUCT = 0x20"
definition BER_TAG_MASK :: u8 where "BER_TAG_MASK = 0x1F"
definition BER_TAG_BOOLEAN :: u8 where "BER_TAG_BOOLEAN = 0x01"
definition BER_TAG_INTEGER :: u8 where "BER_TAG_INTEGER = 0x02"
definition BER_TAG_BIT_STRING :: u8 where "BER_TAG_BIT_STRING = 0x03"
definition BER_TAG_OCTET_STRING :: u8 where "BER_TAG_OCTET_STRING = 0x04"
definition BER_TAG_ENUMERATED :: u8 where "BER_TAG_ENUMERATED = 0x0A"
definition BER_TAG_SEQUENCE :: u8 where "BER_TAG_SEQUENCE = 0x10"
definition BER_TAG_SEQUENCE_OF :: u8 where "BER_TAG_SEQUENCE_OF = 0x10"

definition BER_PC :: "bool \<Rightarrow> u8" where
  "BER_PC pc = (if pc then BER_CONSTRUCT else BER_PRIMITIVE)"

lemmas ber_const = BER_CLASS_UNIV_def BER_CLASS_APPL_def BER_CLASS_CTXT_def BER_PRIMITIVE_def
  BER_CONSTRUCT_def BER_TAG_MASK_def BER_TAG_BOOLEAN_def BER_TAG_INTEGER_def BER_TAG_BIT_STRING_def
  BER_TAG_OCTET_STRING_def BER_TAG_ENUMERATED_def BER_TAG_SEQUENCE_def BER_TAG_SEQUENCE_OF_def BER_PC_def

section \<open>Lengths\<close>

definition ber_read_length :: "STREAM \<Rightarrow> int \<Rightarrow> (int \<times> STREAM) option" where
  "ber_read_length s len = do {
     (byte, s) \<leftarrow> stream_read_uint8 s;
     if byte AND 0x80 \<noteq> 0 then do {
       let byte = byte AND NOT 0x80;
       (len, s) \<leftarrow> (if byte = 1 then do { (v, s) \<leftarrow> stream_read_uint8 s; Some (uint v, s) }
                    else Some (len, s));
       (if byte = 2 then do { (v, s) \<leftarrow> stream_read_uint16_be s; Some (uint v, s) }
        else Some (len, s)) }
     else Some (uint byte, s) }"

definition ber_write_length :: "STREAM \<Rightarrow> int \<Rightarrow> (int \<times> STREAM) option" where
  "ber_write_length s len =
     (if len > 0x7F then do {
        s \<leftarrow> stream_write_uint8 s (0x82 :: u8);
        s \<leftarrow> stream_write_uint16_be s (word_of_int len :: u32);
        Some (3, s) }
      else do {
        s \<leftarrow> stream_write_uint8 s (word_of_int len :: u32);
        Some (1, s) })"

definition ber_skip_length :: "int \<Rightarrow> int" where
  "ber_skip_length len = (if len > 0x7F then 3 else 1)"

definition ber_get_content_length :: "int \<Rightarrow> int" where
  "ber_get_content_length len = (if len - 1 > 0x7F then len - 4 else len - 2)"

section \<open>Tags\<close>

definition ber_read_universal_tag :: "STREAM \<Rightarrow> u8 \<Rightarrow> bool \<Rightarrow> (tbool \<times> STREAM) option" where
  "ber_read_universal_tag s tag pc = do {
     (byte, s) \<leftarrow> stream_read_uint8 s;
     (if byte \<noteq> (BER_CLASS_UNIV OR BER_PC pc OR (BER_TAG_MASK AND tag)) then Some (False, s)
      else Some (True, s)) }"

definition ber_write_universal_tag :: "STREAM \<Rightarrow> u8 \<Rightarrow> bool \<Rightarrow> STREAM option" where
  "ber_write_universal_tag s tag pc =
     stream_write_uint8 s ((BER_CLASS_UNIV OR BER_PC pc) OR (BER_TAG_MASK AND tag))"

definition ber_read_application_tag :: "STREAM \<Rightarrow> u8 \<Rightarrow> int \<Rightarrow> ((tbool \<times> int) \<times> STREAM) option" where
  "ber_read_application_tag s tag len =
     (if tag > 30 then do {
        (byte, s) \<leftarrow> stream_read_uint8 s;
        (if byte \<noteq> ((BER_CLASS_APPL OR BER_CONSTRUCT) OR BER_TAG_MASK) then Some ((False, len), s)
         else do {
           (byte, s) \<leftarrow> stream_read_uint8 s;
           (if byte \<noteq> tag then Some ((False, len), s)
            else do {
              (len, s) \<leftarrow> ber_read_length s len;
              Some ((True, len), s) }) }) }
      else do {
        (byte, s) \<leftarrow> stream_read_uint8 s;
        (if byte \<noteq> ((BER_CLASS_APPL OR BER_CONSTRUCT) OR (BER_TAG_MASK AND tag))
         then Some ((False, len), s)
         else do {
           (len, s) \<leftarrow> ber_read_length s len;
           Some ((True, len), s) }) })"

definition ber_write_application_tag :: "STREAM \<Rightarrow> u8 \<Rightarrow> int \<Rightarrow> STREAM option" where
  "ber_write_application_tag s tag len =
     (if tag > 30 then do {
        s \<leftarrow> stream_write_uint8 s ((BER_CLASS_APPL OR BER_CONSTRUCT) OR BER_TAG_MASK);
        s \<leftarrow> stream_write_uint8 s tag;
        (_, s) \<leftarrow> ber_write_length s len;
        Some s }
      else do {
        s \<leftarrow> stream_write_uint8 s ((BER_CLASS_APPL OR BER_CONSTRUCT) OR (BER_TAG_MASK AND tag));
        (_, s) \<leftarrow> ber_write_length s len;
        Some s })"

definition ber_read_contextual_tag :: "STREAM \<Rightarrow> u8 \<Rightarrow> int \<Rightarrow> bool \<Rightarrow> ((tbool \<times> int) \<times> STREAM) option" where
  "ber_read_contextual_tag s tag len pc = do {
     (byte, s) \<leftarrow> stream_read_uint8 s;
     (if byte \<noteq> ((BER_CLASS_CTXT OR BER_PC pc) OR (BER_TAG_MASK AND tag))
      then Some ((False, len), stream_rewind s 1)
      else do {
        (len, s) \<leftarrow> ber_read_length s len;
        Some ((True, len), s) }) }"

definition ber_write_contextual_tag :: "STREAM \<Rightarrow> u8 \<Rightarrow> int \<Rightarrow> bool \<Rightarrow> (int \<times> STREAM) option" where
  "ber_write_contextual_tag s tag len pc = do {
     s \<leftarrow> stream_write_uint8 s ((BER_CLASS_CTXT OR BER_PC pc) OR (BER_TAG_MASK AND tag));
     (n, s) \<leftarrow> ber_write_length s len;
     Some (n + 1, s) }"

definition ber_skip_contextual_tag :: "int \<Rightarrow> int" where
  "ber_skip_contextual_tag len = ber_skip_length len + 1"

definition ber_read_sequence_tag :: "STREAM \<Rightarrow> int \<Rightarrow> ((tbool \<times> int) \<times> STREAM) option" where
  "ber_read_sequence_tag s len = do {
     (byte, s) \<leftarrow> stream_read_uint8 s;
     (if byte \<noteq> ((BER_CLASS_UNIV OR BER_CONSTRUCT) OR BER_TAG_SEQUENCE_OF)
      then Some ((False, len), s)
      else do {
        (len, s) \<leftarrow> ber_read_length s len;
        Some ((True, len), s) }) }"

definition ber_write_sequence_tag :: "STREAM \<Rightarrow> int \<Rightarrow> (int \<times> STREAM) option" where
  "ber_write_sequence_tag s len = do {
     s \<leftarrow> stream_write_uint8 s ((BER_CLASS_UNIV OR BER_CONSTRUCT) OR (BER_TAG_MASK AND BER_TAG_SEQUENCE));
     (n, s) \<leftarrow> ber_write_length s len;
     Some (n + 1, s) }"

definition ber_skip_sequence :: "int \<Rightarrow> int" where
  "ber_skip_sequence len = 1 + ber_skip_length len + len"

definition ber_skip_sequence_tag :: "int \<Rightarrow> int" where
  "ber_skip_sequence_tag len = 1 + ber_skip_length len"

section \<open>Values\<close>

definition ber_read_enumerated :: "STREAM \<Rightarrow> u8 \<Rightarrow> int \<Rightarrow> u8 \<Rightarrow> ((tbool \<times> u8) \<times> STREAM) option" where
  "ber_read_enumerated s enumerated len count = do {
     (_, s) \<leftarrow> ber_read_universal_tag s BER_TAG_ENUMERATED False;
     (len, s) \<leftarrow> ber_read_length s len;
     (if len = 1 then do {
        (enumerated, s) \<leftarrow> stream_read_uint8 s;
        (if uint enumerated + 1 > uint count then Some ((False, enumerated), s)
         else Some ((True, enumerated), s)) }
      else Some ((False, enumerated), s)) }"

definition ber_write_enumerated :: "STREAM \<Rightarrow> u8 \<Rightarrow> u8 \<Rightarrow> STREAM option" where
  "ber_write_enumerated s enumerated count = do {
     s \<leftarrow> ber_write_universal_tag s BER_TAG_ENUMERATED False;
     (_, s) \<leftarrow> ber_write_length s 1;
     stream_write_uint8 s enumerated }"

definition ber_read_bit_string :: "STREAM \<Rightarrow> int \<Rightarrow> ((tbool \<times> int \<times> u8) \<times> STREAM) option" where
  "ber_read_bit_string s len = do {
     (_, s) \<leftarrow> ber_read_universal_tag s BER_TAG_BIT_STRING False;
     (len, s) \<leftarrow> ber_read_length s len;
     (padding, s) \<leftarrow> stream_read_uint8 s;
     Some ((True, len, padding), s) }"

definition ber_read_octet_string :: "STREAM \<Rightarrow> int \<Rightarrow> ((tbool \<times> int) \<times> STREAM) option" where
  "ber_read_octet_string s len = do {
     (_, s) \<leftarrow> ber_read_universal_tag s BER_TAG_OCTET_STRING False;
     (len, s) \<leftarrow> ber_read_length s len;
     Some ((True, len), s) }"

definition ber_write_octet_string :: "STREAM \<Rightarrow> u8 list \<Rightarrow> int \<Rightarrow> STREAM option" where
  "ber_write_octet_string s oct_str len = do {
     s \<leftarrow> ber_write_universal_tag s BER_TAG_OCTET_STRING False;
     (_, s) \<leftarrow> ber_write_length s len;
     stream_write s oct_str len }"

definition ber_write_octet_string_tag :: "STREAM \<Rightarrow> int \<Rightarrow> (int \<times> STREAM) option" where
  "ber_write_octet_string_tag s len = do {
     s \<leftarrow> ber_write_universal_tag s BER_TAG_OCTET_STRING False;
     (_, s) \<leftarrow> ber_write_length s len;
     Some (1 + ber_skip_length len, s) }"

definition ber_skip_octet_string :: "int \<Rightarrow> int" where
  "ber_skip_octet_string len = 1 + ber_skip_length len + len"

definition ber_read_boolean :: "STREAM \<Rightarrow> tbool \<Rightarrow> int \<Rightarrow> ((tbool \<times> tbool) \<times> STREAM) option" where
  "ber_read_boolean s val len = do {
     (ok, s) \<leftarrow> ber_read_universal_tag s BER_TAG_BOOLEAN False;
     (if \<not> ok then Some ((False, val), s)
      else do {
        (len, s) \<leftarrow> ber_read_length s len;
        (if len \<noteq> 1 then Some ((False, val), s)
         else do {
           (v, s) \<leftarrow> stream_read_uint8 s;
           Some ((True, (if v \<noteq> 0 then True else False)), s) }) }) }"

definition ber_write_boolean :: "STREAM \<Rightarrow> tbool \<Rightarrow> STREAM option" where
  "ber_write_boolean s val = do {
     s \<leftarrow> ber_write_universal_tag s BER_TAG_BOOLEAN False;
     (_, s) \<leftarrow> ber_write_length s 1;
     stream_write_uint8 s (if val then 0xFF else 0 :: u8) }"

text \<open>The pointer argument is \<^term>\<open>None\<close> for \<open>NULL\<close>, otherwise the content it points to.\<close>

definition ber_read_integer :: "STREAM \<Rightarrow> u32 option \<Rightarrow> int \<Rightarrow> ((tbool \<times> u32 option) \<times> STREAM) option" where
  "ber_read_integer s val len = do {
     (_, s) \<leftarrow> ber_read_universal_tag s BER_TAG_INTEGER False;
     (len, s) \<leftarrow> ber_read_length s len;
     (if val = None then Some ((True, None), stream_seek s len)
      else if len = 1 then do {
        (v, s) \<leftarrow> stream_read_uint8 s;
        Some ((True, Some (ucast v)), s) }
      else if len = 2 then do {
        (v, s) \<leftarrow> stream_read_uint16_be s;
        Some ((True, Some (ucast v)), s) }
      else if len = 3 then do {
        (byte, s) \<leftarrow> stream_read_uint8 s;
        (v, s) \<leftarrow> stream_read_uint16_be s;
        Some ((True, Some (ucast v + push_bit 16 (ucast byte))), s) }
      else if len = 4 then do {
        (v, s) \<leftarrow> stream_read_uint32_be s;
        Some ((True, Some v), s) }
      else Some ((False, val), s)) }"

definition ber_write_integer :: "STREAM \<Rightarrow> u32 \<Rightarrow> (int \<times> STREAM) option" where
  "ber_write_integer s val = do {
     s \<leftarrow> ber_write_universal_tag s BER_TAG_INTEGER False;
     (if val \<le> 0xFF then do {
        (_, s) \<leftarrow> ber_write_length s 1;
        s \<leftarrow> stream_write_uint8 s val;
        Some (2, s) }
      else if val < 0xFF80 then do {
        (_, s) \<leftarrow> ber_write_length s 2;
        s \<leftarrow> stream_write_uint16_be s val;
        Some (3, s) }
      else if val < 0xFF8000 then do {
        (_, s) \<leftarrow> ber_write_length s 3;
        s \<leftarrow> stream_write_uint8 s (drop_bit 16 val);
        s \<leftarrow> stream_write_uint16_be s (val AND 0xFFFF);
        Some (4, s) }
      else do {
        (_, s) \<leftarrow> ber_write_length s 4;
        s \<leftarrow> stream_write_uint32_be s val;
        Some (5, s) }) }"

definition ber_skip_integer :: "u32 \<Rightarrow> int" where
  "ber_skip_integer val =
     (if val \<le> 0xFF then ber_skip_length 1 + 2
      else if val \<le> 0xFFFF then ber_skip_length 2 + 3
      else ber_skip_length 4 + 5)"

definition ber_read_integer_length :: "STREAM \<Rightarrow> int \<Rightarrow> ((tbool \<times> int) \<times> STREAM) option" where
  "ber_read_integer_length s len = do {
     (_, s) \<leftarrow> ber_read_universal_tag s BER_TAG_INTEGER False;
     (len, s) \<leftarrow> ber_read_length s len;
     Some ((True, len), s) }"


section \<open>Writers as emissions\<close>

definition ber_length_enc :: "int \<Rightarrow> u8 list" where
  "ber_length_enc n =
     (if n > 0x7F then [0x82, octet (Suc 0) (word_of_int n :: u32), octet 0 (word_of_int n :: u32)]
      else [octet 0 (word_of_int n :: u32)])"

lemma ber_write_length_emit [wire]:
  "ber_write_length s n = Option.bind (emit (ber_length_enc n) s) (\<lambda>s. Some (ber_skip_length n, s))"
  by (simp add: ber_write_length_def ber_length_enc_def ber_skip_length_def wire)

lemma length_ber_length_enc [simp]: "int (length (ber_length_enc n)) = ber_skip_length n"
  by (simp add: ber_length_enc_def ber_skip_length_def)

lemma ber_length_enc_small [simp]:
  "ber_length_enc 1 = [1]" "ber_length_enc 2 = [2]" "ber_length_enc 3 = [3]" "ber_length_enc 4 = [4]"
  by (simp_all add: ber_length_enc_def octet_def)

definition ber_universal_enc :: "u8 \<Rightarrow> bool \<Rightarrow> u8" where
  "ber_universal_enc tag pc = (BER_CLASS_UNIV OR BER_PC pc) OR (BER_TAG_MASK AND tag)"

lemma ber_write_universal_tag_emit [wire]:
  "ber_write_universal_tag s tag pc = emit [ber_universal_enc tag pc] s"
  by (simp add: ber_write_universal_tag_def ber_universal_enc_def wire)

lemma ber_read_universal_tag_stm [wire]:
  "ber_read_universal_tag (stm pre (b # rst) sz) tag pc
     = Some (b = ber_universal_enc tag pc, stm (pre @ [b]) rst sz)"
  by (simp add: ber_read_universal_tag_def ber_universal_enc_def wire or.assoc)

lemma ber_read_length_short:
  "b < 0x80 \<Longrightarrow>
     ber_read_length (stm pre (b # rst) sz) len = Some (uint b, stm (pre @ [b]) rst sz)"
  by (simp add: ber_read_length_def wire and_80_eq_0)

lemma ber_read_length_two:
  "ber_read_length (stm pre (0x82 # a # b # rst) sz) len
     = Some (uint (push_bit 8 (ucast a) + ucast b :: u16), stm (pre @ [0x82, a, b]) rst sz)"
  by (simp add: ber_read_length_def wire)

lemma ber_read_length_stm [wire]:
  assumes "0 \<le> n" and "n \<le> 0xFFFF"
  shows "ber_read_length (stm pre (ber_length_enc n @ rst) sz) len
    = Some (n, stm (pre @ ber_length_enc n) rst sz)"
proof (cases "n > 0x7F")
  case True
  have "uint (ucast (word_of_int n :: u32) :: u16) = n"
    using assms by (simp add: unsigned_ucast_eq uint_word_of_int take_bit_eq_mod)
  with True show ?thesis
    by (simp add: ber_length_enc_def ber_read_length_two join_u16_be)
next
  case False
  have "uint (octet 0 (word_of_int n :: u32)) = n"
    using assms False by (simp add: octet_def unsigned_ucast_eq uint_word_of_int take_bit_eq_mod)
  with False show ?thesis
    by (simp add: ber_length_enc_def ber_read_length_short word_less_def)
qed

interpretation ber_length: wire_codec
  "\<lambda>s n. map_option snd (ber_write_length s n)" ber_length_enc "\<lambda>n. 0 \<le> n \<and> n \<le> 0xFFFF"
  "\<lambda>s. ber_read_length s len" id for len
  by unfold_locales (simp_all add: wire)

section \<open>INTEGER\<close>

definition ber_integer_enc :: "u32 \<Rightarrow> u8 list" where
  "ber_integer_enc v = ber_universal_enc BER_TAG_INTEGER False #
     (if v \<le> 0xFF then [1, octet 0 v]
      else if v < 0xFF80 then [2, octet (Suc 0) v, octet 0 v]
      else if v < 0xFF8000 then [3, octet 2 v, octet (Suc 0) v, octet 0 v]
      else [4, octet 3 v, octet 2 v, octet (Suc 0) v, octet 0 v])"

definition ber_integer_dec :: "u32 \<Rightarrow> u32" where
  "ber_integer_dec v = (if v < 0xFF8000 then v else swap_halves v)"

lemma ber_write_integer_emit [wire]:
  "ber_write_integer s v =
     Option.bind (emit (ber_integer_enc v) s) (\<lambda>s. Some (int (length (ber_integer_enc v)) - 1, s))"
  by (simp add: ber_write_integer_def ber_integer_enc_def wire octet_and_FFFF octet_drop_bit)

lemma ber_read_length_byte [wire]:
  "ber_read_length (stm pre (1 # rst) sz) len = Some (1, stm (pre @ [1]) rst sz)"
  "ber_read_length (stm pre (2 # rst) sz) len = Some (2, stm (pre @ [2]) rst sz)"
  "ber_read_length (stm pre (3 # rst) sz) len = Some (3, stm (pre @ [3]) rst sz)"
  "ber_read_length (stm pre (4 # rst) sz) len = Some (4, stm (pre @ [4]) rst sz)"
  by (simp_all add: ber_read_length_short)

lemma join_u24:
  assumes "(v :: u32) < 0x1000000"
  shows "ucast (ucast v :: u16) + push_bit 16 (ucast (octet 2 v)) = v"
proof -
  have "ucast (ucast v :: u16) AND push_bit 16 (ucast (octet 2 v)) = (0 :: u32)"
    by (rule bit_word_eqI) (auto simp: bit_simps)
  then have "ucast (ucast v :: u16) + push_bit 16 (ucast (octet 2 v))
      = (ucast (ucast v :: u16) OR push_bit 16 (ucast (octet 2 v)) :: u32)"
    by (rule disjunctive_add_eq_or)
  also have "\<dots> = v"
  proof (rule bit_word_eqI)
    fix n
    have "\<not> bit v n" if "24 \<le> n"
      using bit_below [of v 24 n] assms that by (auto simp: word_less_nat_alt)
    then show "bit (ucast (ucast v :: u16) OR push_bit 16 (ucast (octet 2 v)) :: u32) n = bit v n"
      if "n < LENGTH(32)"
      using that by (cases "n < 24"; cases "n < 16") (auto simp: bit_simps)
  qed
  finally show ?thesis .
qed

lemma ucast_u8_id: "(v :: u32) \<le> 0xFF \<Longrightarrow> ucast (octet 0 v) = v"
  using bit_below [of v 8] by (intro bit_word_eqI) (auto simp: bit_simps word_le_nat_alt)

lemma ucast_u16_id: "(v :: u32) < 0x10000 \<Longrightarrow> ucast (ucast v :: u16) = v"
  using bit_below [of v 16] by (intro bit_word_eqI) (auto simp: bit_simps word_less_nat_alt)

lemma ber_read_integer_stm [wire]:
  "ber_read_integer (stm pre (ber_integer_enc v @ rst) sz) (Some old) len
     = Some ((True, Some (ber_integer_dec v)), stm (pre @ ber_integer_enc v) rst sz)"
proof -
  consider "v \<le> 0xFF" | "\<not> v \<le> 0xFF" "v < 0xFF80" | "\<not> v \<le> 0xFF" "\<not> v < 0xFF80" "v < 0xFF8000"
    | "\<not> v < 0xFF8000" by blast
  then show ?thesis
  proof cases
    case 1
    then have "v < 0xFF8000" by (simp add: word_le_nat_alt word_less_nat_alt)
    with 1 show ?thesis
      by (simp add: ber_integer_enc_def ber_integer_dec_def ber_read_integer_def wire ucast_u8_id)
  next
    case 2
    then have "v < 0xFF8000" "v < 0x10000" by (simp_all add: word_less_nat_alt)
    with 2 show ?thesis
      by (simp add: ber_integer_enc_def ber_integer_dec_def ber_read_integer_def wire
          join_u16_be ucast_u16_id)
  next
    case 3
    then have "v < 0x1000000" by (simp add: word_less_nat_alt)
    with 3 show ?thesis
      by (simp add: ber_integer_enc_def ber_integer_dec_def ber_read_integer_def wire
          join_u16_be join_u24)
  next
    case 4
    then have "\<not> v \<le> 0xFF" "\<not> v < 0xFF80" by (simp_all add: word_le_nat_alt word_less_nat_alt)
    with 4 show ?thesis
      by (simp add: ber_integer_enc_def ber_integer_dec_def ber_read_integer_def wire join_u32_be)
  qed
qed

interpretation ber_integer: wire_codec
  "\<lambda>s v. map_option snd (ber_write_integer s v)" ber_integer_enc "\<lambda>_. True"
  "\<lambda>s. ber_read_integer s (Some old) len" "\<lambda>v. (True, Some (ber_integer_dec v))" for old len
  by unfold_locales (simp_all add: wire)


section \<open>Tags with a length, strings and booleans\<close>

lemma ber_read_sequence_tag_stm [wire]:
  "0 \<le> n \<Longrightarrow> n \<le> 0xFFFF \<Longrightarrow>
     ber_read_sequence_tag (stm pre (0x30 # ber_length_enc n @ rst) sz) len
       = Some ((True, n), stm (pre @ 0x30 # ber_length_enc n) rst sz)"
  by (simp add: ber_read_sequence_tag_def ber_const wire)

lemma ber_write_sequence_tag_emit [wire]:
  "ber_write_sequence_tag s n =
     Option.bind (emit (0x30 # ber_length_enc n) s) (\<lambda>s. Some (ber_skip_sequence_tag n, s))"
  by (simp add: ber_write_sequence_tag_def ber_const wire ber_skip_sequence_tag_def add.commute)

lemma ber_write_octet_string_emit [wire]:
  "ber_write_octet_string s bs (int (length bs))
     = emit (ber_universal_enc BER_TAG_OCTET_STRING False # ber_length_enc (int (length bs)) @ bs) s"
  by (simp add: ber_write_octet_string_def wire)

lemma ber_read_octet_string_stm [wire]:
  "0 \<le> n \<Longrightarrow> n \<le> 0xFFFF \<Longrightarrow>
     ber_read_octet_string (stm pre (ber_universal_enc BER_TAG_OCTET_STRING False # ber_length_enc n @ rst) sz) len
       = Some ((True, n), stm (pre @ ber_universal_enc BER_TAG_OCTET_STRING False # ber_length_enc n) rst sz)"
  by (simp add: ber_read_octet_string_def wire)

definition ber_boolean_enc :: "bool \<Rightarrow> u8 list" where
  "ber_boolean_enc b = [ber_universal_enc BER_TAG_BOOLEAN False, 1, if b then 0xFF else 0]"

lemma ber_write_boolean_emit [wire]: "ber_write_boolean s b = emit (ber_boolean_enc b) s"
  by (simp add: ber_write_boolean_def ber_boolean_enc_def wire)

lemma ber_read_boolean_stm [wire]:
  "ber_read_boolean (stm pre (ber_boolean_enc b @ rst) sz) old len
     = Some ((True, b), stm (pre @ ber_boolean_enc b) rst sz)"
  by (simp add: ber_read_boolean_def ber_boolean_enc_def wire)

interpretation ber_boolean: wire_codec ber_write_boolean ber_boolean_enc "\<lambda>_. True"
  "\<lambda>s. ber_read_boolean s old len" "\<lambda>b. (True, b)" for old len
  by unfold_locales (simp_all add: wire)

definition ber_application_enc :: "u8 \<Rightarrow> int \<Rightarrow> u8 list" where
  "ber_application_enc tag n = (if tag > 30 then [0x7F, tag] else [0x60 OR (0x1F AND tag)]) @ ber_length_enc n"

lemma ber_write_application_tag_emit [wire]:
  "ber_write_application_tag s tag n = emit (ber_application_enc tag n) s"
  by (simp add: ber_write_application_tag_def ber_application_enc_def ber_const wire)

lemma ber_read_application_tag_stm [wire]:
  "0 \<le> n \<Longrightarrow> n \<le> 0xFFFF \<Longrightarrow>
     ber_read_application_tag (stm pre (ber_application_enc tag n @ rst) sz) tag len
       = Some ((True, n), stm (pre @ ber_application_enc tag n) rst sz)"
  by (simp add: ber_read_application_tag_def ber_application_enc_def ber_const wire)

interpretation ber_application: wire_codec "\<lambda>s n. ber_write_application_tag s tag n"
  "ber_application_enc tag" "\<lambda>n. 0 \<le> n \<and> n \<le> 0xFFFF"
  "\<lambda>s. ber_read_application_tag s tag len" "\<lambda>n. (True, n)" for tag len
  by unfold_locales (simp_all add: wire)

lemma ber_write_contextual_tag_emit [wire]:
  "ber_write_contextual_tag s tag n pc =
     Option.bind (emit (((BER_CLASS_CTXT OR BER_PC pc) OR (BER_TAG_MASK AND tag)) # ber_length_enc n) s)
       (\<lambda>s. Some (ber_skip_contextual_tag n, s))"
  by (simp add: ber_write_contextual_tag_def ber_skip_contextual_tag_def wire)

text \<open>Reading a contextual tag that is not there leaves the stream where it was.\<close>

lemma ber_read_contextual_tag_rewinds:
  "ber_read_contextual_tag s tag len pc = Some ((False, len'), s') \<Longrightarrow> s' = s \<and> len' = len"
  by (auto simp: ber_read_contextual_tag_def stream_read_uint8_def stream_rewind_def stream_seek_def
      bind_eq_Some_iff split: if_splits)


section \<open>Properties\<close>

text \<open>
  C28: a length between 0 and 65535 written by \<open>ber_write_length\<close> is read back by
  \<open>ber_read_length\<close>, whatever the variable held before, the reader stops exactly behind the
  encoding, and the count the writer returns is the number of bytes it wrote.
\<close>

theorem ber_length_roundtrip:
  assumes "stream_ok s" and "0 \<le> n" and "n \<le> 0xFFFF" and "ber_write_length s n = Some (k, s')"
  shows "ber_read_length (stream_set_pos s' (stream_get_pos s)) old = Some (n, s')
    \<and> s_p s' = s_p s + k"
proof -
  from assms(4) have w: "map_option snd (ber_write_length s n) = Some s'" and "k = ber_skip_length n"
    by (auto simp: wire bind_eq_Some_iff)
  with assms(1-3) show ?thesis
    using ber_length.read_back [OF _ assms(1) w, of old] ber_length.write_frame(1) [OF _ assms(1) w]
    by simp
qed

theorem ber_length_roundtrip_witness:
  "ber_read_length (stm [] [0x82, 0x01, 0x2C] 3) (- 7) = Some (300, stm [0x82, 0x01, 0x2C] [] 3)"
proof -
  have "ber_write_length (stm [] [0, 0, 0] 3) 300 = Some (3, stm [0x82, 0x01, 0x2C] [] 3)"
    by (simp add: wire ber_length_enc_def ber_skip_length_def emit_stm octet_def)
  from ber_length_roundtrip [OF stream_ok_stm _ _ this, of "- 7"] show ?thesis
    by (simp add: stream_get_pos_def stream_set_pos_start)
qed

text \<open>
  C29: \<open>ber_read_length\<close> supports at most two length octets. On a length indicator that
  announces none or more than two, it consumes only the indicator and leaves the caller's
  variable as it was.
\<close>

theorem ber_length_unsupported_keeps_variable:
  assumes "b AND 0x80 \<noteq> 0" and "b \<noteq> 0x81" and "b \<noteq> 0x82"
  shows "ber_read_length (stm pre (b # rst) sz) old = Some (old, stm (pre @ [b]) rst sz)"
proof -
  have "b - 0x80 \<noteq> 1" and "b - 0x80 \<noteq> 2"
    using assms(2,3) by (auto simp: diff_eq_eq)
  with assms(1) clear_80 [OF assms(1)] show ?thesis
    by (simp add: ber_read_length_def wire Let_def)
qed

theorem ber_length_unsupported_keeps_variable_witness:
  "ber_read_length (stm [] [0x83, 0, 1, 0] 4) 77 = Some (77, stm [0x83] [0, 1, 0] 4)"
  using ber_length_unsupported_keeps_variable [of "0x83" "[]" "[0, 1, 0]" 4 77] by simp

text \<open>
  C30: an INTEGER written by \<open>ber_write_integer\<close> is read back by \<open>ber_read_integer\<close>, which stops
  exactly behind it, for every value below \<open>0xFF8000\<close>. From there on, where the four-octet form
  is used, it comes back with its halves exchanged.
\<close>

theorem ber_integer_roundtrip:
  assumes "stream_ok s" and "ber_write_integer s v = Some (k, s')"
  shows "ber_read_integer (stream_set_pos s' (stream_get_pos s)) (Some old) len
    = Some ((True, Some (if v < 0xFF8000 then v else swap_halves v)), s')"
proof -
  from assms(2) have "map_option snd (ber_write_integer s v) = Some s'" by simp
  from ber_integer.read_back [OF _ assms(1) this, of old len] show ?thesis
    by (simp add: ber_integer_dec_def)
qed

theorem ber_integer_roundtrip_witness:
  "ber_read_integer (stm [] [2, 3, 1, 0, 2] 5) (Some 9) 0 = Some ((True, Some 0x10002), stm [2, 3, 1, 0, 2] [] 5)"
proof -
  have "ber_write_integer (stm [] [0, 0, 0, 0, 0] 5) 0x10002 = Some (4, stm [2, 3, 1, 0, 2] [] 5)"
    by (simp add: wire ber_integer_enc_def ber_universal_enc_def ber_const emit_stm octet_def)
  from ber_integer_roundtrip [OF stream_ok_stm this, of 9 0] show ?thesis
    by (simp add: stream_get_pos_def stream_set_pos_start)
qed

text \<open>
  \<open>ber_write_integer\<close> writes one byte more than it reports, and the size \<open>ber_skip_integer\<close>
  predicts is the size written exactly for the values outside \<open>0xFF80 .. 0xFF7FFF\<close>.
\<close>

theorem ber_integer_size:
  assumes "stream_ok s" and "ber_write_integer s v = Some (k, s')"
  shows "s_p s' - s_p s = k + 1
    \<and> (ber_skip_integer v = s_p s' - s_p s \<longleftrightarrow> v < 0xFF80 \<or> 0xFF8000 \<le> v)"
proof -
  from assms(2) have w: "map_option snd (ber_write_integer s v) = Some s'"
    and k: "k = int (length (ber_integer_enc v)) - 1"
    by (auto simp: wire bind_eq_Some_iff)
  have d: "s_p s' - s_p s = int (length (ber_integer_enc v))"
    using ber_integer.write_frame(1) [OF _ assms(1) w] by simp
  have "ber_skip_integer v = int (length (ber_integer_enc v)) \<longleftrightarrow> v < 0xFF80 \<or> 0xFF8000 \<le> v"
    by (simp add: ber_skip_integer_def ber_skip_length_def ber_integer_enc_def word_le_nat_alt
        word_less_nat_alt)
  with d k show ?thesis by simp
qed

theorem ber_integer_size_witness:
  "\<exists>k s'. ber_write_integer (stream_new 8) 0xFF90 = Some (k, s') \<and> k = 4
     \<and> s_p s' = 5 \<and> ber_skip_integer 0xFF90 = 4"
proof -
  have ok: "stream_ok (stream_new 8)" by (simp add: stream_ok_def stream_new_def)
  obtain s' where w: "ber_write_integer (stream_new 8) 0xFF90 = Some (4, s')"
    by (simp add: wire ber_integer_enc_def stream_new_def emit_def stream_write_def)
  have "s_p s' = 5" using ber_integer_size [OF ok w] by (simp add: stream_new_def)
  with w show ?thesis by (simp add: ber_skip_integer_def ber_skip_length_def)
qed

end
