(* ===== verification/Settings.thy ===== *)
theory Settings
  imports Prelude
begin

text \<open>
  The part of \<^verbatim>\<open>struct rdp_settings\<close> (\<^verbatim>\<open>include/freerdp/settings.h\<close>) that the modelled layers
  read or write. The settings are one shared object in the program; in the model the transport
  owns it, because every layer reaches it through the transport.
\<close>

record rdpSettings =
  set_requested_protocols :: u32
  set_selected_protocol :: u32
  set_encryption_method :: u32
  set_encryption_level :: u32
  set_authentication :: tbool
  set_negotiationFlags :: u32
  set_encryption :: tbool
  set_tls_security :: tbool
  set_nla_security :: tbool
  set_rdp_security :: tbool
  set_tsg :: tbool

text \<open>The settings as \<open>xzalloc\<close> leaves them, before the user interface fills them in.\<close>

definition settings_zero :: rdpSettings where
  "settings_zero = \<lparr>set_requested_protocols = 0, set_selected_protocol = 0, set_encryption_method = 0,
     set_encryption_level = 0, set_authentication = False, set_negotiationFlags = 0,
     set_encryption = False, set_tls_security = False, set_nla_security = False,
     set_rdp_security = False, set_tsg = False\<rparr>"

end
