(* ===== verification/Per.thy ===== *)
theory Per
  imports Wire_Stream "HOL-Library.Signed_Division"
begin

unbundle bit_operations_syntax

text \<open>
  ASN.1 Packed Encoding Rules: \<^verbatim>\<open>libfreerdp-core/per.c\<close>. As in the BER layer, variables that
  a reader may leave unwritten are arguments. The boolean results that callers in the same
  file ignore are ignored here as well.
\<close>

section \<open>Operations\<close>

definition per_read_length :: "STREAM \<Rightarrow> u16 \<Rightarrow> ((tbool \<times> u16) \<times> STREAM) option" where
  "per_read_length s len =
     (if stream_get_left s < 1 then Some ((False, len), s)
      else do {
        (byte, s) \<leftarrow> stream_read_uint8 s;
        (if byte AND 0x80 \<noteq> 0 then
           (if stream_get_left s < 1 then Some ((False, len), s)
            else do {
              let byte = byte AND NOT 0x80;
              let len = push_bit 8 (ucast byte);
              (byte, s) \<leftarrow> stream_read_uint8 s;
              Some ((True, len + ucast byte), s) })
         else Some ((True, ucast byte), s)) })"

definition per_write_length :: "STREAM \<Rightarrow> int \<Rightarrow> STREAM option" where
  "per_write_length s len =
     (if len > 0x7F then stream_write_uint16_be s (word_of_int len OR 0x8000 :: u32)
      else stream_write_uint8 s (word_of_int len :: u32))"

definition per_read_choice :: "STREAM \<Rightarrow> ((tbool \<times> u8) \<times> STREAM) option" where
  "per_read_choice s = do { (choice, s) \<leftarrow> stream_read_uint8 s; Some ((True, choice), s) }"

definition per_write_choice :: "STREAM \<Rightarrow> u8 \<Rightarrow> STREAM option" where
  "per_write_choice s choice = stream_write_uint8 s choice"

definition per_read_selection :: "STREAM \<Rightarrow> ((tbool \<times> u8) \<times> STREAM) option" where
  "per_read_selection s = do { (selection, s) \<leftarrow> stream_read_uint8 s; Some ((True, selection), s) }"

definition per_write_selection :: "STREAM \<Rightarrow> u8 \<Rightarrow> STREAM option" where
  "per_write_selection s selection = stream_write_uint8 s selection"

definition per_read_number_of_sets :: "STREAM \<Rightarrow> ((tbool \<times> u8) \<times> STREAM) option" where
  "per_read_number_of_sets s = do { (number, s) \<leftarrow> stream_read_uint8 s; Some ((True, number), s) }"

definition per_write_number_of_sets :: "STREAM \<Rightarrow> u8 \<Rightarrow> STREAM option" where
  "per_write_number_of_sets s number = stream_write_uint8 s number"

definition per_read_padding :: "STREAM \<Rightarrow> int \<Rightarrow> tbool \<times> STREAM" where
  "per_read_padding s len = (True, stream_seek s len)"

text \<open>The loops that write \<open>len\<close> bytes one by one, for padding and for strings.\<close>

fun per_write_zeros :: "STREAM \<Rightarrow> nat \<Rightarrow> STREAM option" where
  "per_write_zeros s 0 = Some s"
| "per_write_zeros s (Suc n) = do { s \<leftarrow> stream_write_uint8 s (0 :: u8); per_write_zeros s n }"

definition per_write_padding :: "STREAM \<Rightarrow> int \<Rightarrow> STREAM option" where
  "per_write_padding s len = per_write_zeros s (nat len)"

definition per_read_integer :: "STREAM \<Rightarrow> u32 \<Rightarrow> u16 \<Rightarrow> ((tbool \<times> u32) \<times> STREAM) option" where
  "per_read_integer s integer len = do {
     ((_, len), s) \<leftarrow> per_read_length s len;
     (if len = 1 then do { (v, s) \<leftarrow> stream_read_uint8 s; Some ((True, ucast v), s) }
      else if len = 2 then do { (v, s) \<leftarrow> stream_read_uint16_be s; Some ((True, ucast v), s) }
      else Some ((False, integer), s)) }"

definition per_write_integer :: "STREAM \<Rightarrow> u32 \<Rightarrow> STREAM option" where
  "per_write_integer s integer =
     (if integer \<le> 0xFF then do {
        s \<leftarrow> per_write_length s 1;
        stream_write_uint8 s integer }
      else if integer \<le> 0xFFFF then do {
        s \<leftarrow> per_write_length s 2;
        stream_write_uint16_be s integer }
      else do {
        s \<leftarrow> per_write_length s 4;
        stream_write_uint32_be s integer })"

definition per_read_integer16 :: "STREAM \<Rightarrow> u16 \<Rightarrow> ((tbool \<times> u16) \<times> STREAM) option" where
  "per_read_integer16 s min_val = do {
     (integer, s) \<leftarrow> stream_read_uint16_be s;
     (if uint integer + uint min_val > 0xFFFF then Some ((False, integer), s)
      else Some ((True, integer + min_val), s)) }"

definition per_write_integer16 :: "STREAM \<Rightarrow> u16 \<Rightarrow> u16 \<Rightarrow> STREAM option" where
  "per_write_integer16 s integer min_val =
     stream_write_uint16_be s (word_of_int (uint integer - uint min_val) :: u32)"

definition per_read_enumerated :: "STREAM \<Rightarrow> u8 \<Rightarrow> u8 \<Rightarrow> ((tbool \<times> u8) \<times> STREAM) option" where
  "per_read_enumerated s enumerated count =
     (if stream_get_left s < 1 then Some ((False, enumerated), s)
      else do { (enumerated, s) \<leftarrow> stream_read_uint8 s; Some ((True, enumerated), s) })"

definition per_write_enumerated :: "STREAM \<Rightarrow> u8 \<Rightarrow> u8 \<Rightarrow> STREAM option" where
  "per_write_enumerated s enumerated count = stream_write_uint8 s enumerated"

text \<open>The C array \<open>oid[6]\<close> is a six-tuple.\<close>

type_synonym oid6 = "u8 \<times> u8 \<times> u8 \<times> u8 \<times> u8 \<times> u8"

definition per_read_object_identifier :: "STREAM \<Rightarrow> oid6 \<Rightarrow> u16 \<Rightarrow> (tbool \<times> STREAM) option" where
  "per_read_object_identifier s oid len = do {
     ((_, len), s) \<leftarrow> per_read_length s len;
     (if len \<noteq> 5 then Some (False, s)
      else do {
        (t12, s) \<leftarrow> stream_read_uint8 s;
        let a0 = drop_bit 4 t12;
        let a1 = t12 AND 0x0F;
        (a2, s) \<leftarrow> stream_read_uint8 s;
        (a3, s) \<leftarrow> stream_read_uint8 s;
        (a4, s) \<leftarrow> stream_read_uint8 s;
        (a5, s) \<leftarrow> stream_read_uint8 s;
        (case oid of (o0, o1, o2, o3, o4, o5) \<Rightarrow>
          Some (a0 = o0 \<and> a1 = o1 \<and> a2 = o2 \<and> a3 = o3 \<and> a4 = o4 \<and> a5 = o5, s)) }) }"

definition per_write_object_identifier :: "STREAM \<Rightarrow> oid6 \<Rightarrow> STREAM option" where
  "per_write_object_identifier s oid = (case oid of (o0, o1, o2, o3, o4, o5) \<Rightarrow> do {
     let t12 = (ucast (push_bit 4 (ucast o0 :: u32) AND (ucast o1 AND 0x0F)) :: u8);
     s \<leftarrow> stream_write_uint8 s (5 :: u8);
     s \<leftarrow> stream_write_uint8 s t12;
     s \<leftarrow> stream_write_uint8 s o2;
     s \<leftarrow> stream_write_uint8 s o3;
     s \<leftarrow> stream_write_uint8 s o4;
     stream_write_uint8 s o5 })"

fun per_write_bytes :: "STREAM \<Rightarrow> u8 list \<Rightarrow> nat \<Rightarrow> STREAM option" where
  "per_write_bytes s bs 0 = Some s"
| "per_write_bytes s [] (Suc n) = None"
| "per_write_bytes s (b # bs) (Suc n) = do { s \<leftarrow> stream_write_uint8 s b; per_write_bytes s bs n }"

definition per_write_string :: "STREAM \<Rightarrow> u8 list \<Rightarrow> int \<Rightarrow> STREAM option" where
  "per_write_string s str len = per_write_bytes s str (nat len)"

text \<open>\<open>a_oct_str[i] != oct_str[i]\<close> for the first \<open>n\<close> positions behind the cursor of \<open>s\<close>.\<close>

fun per_compare :: "STREAM \<Rightarrow> int \<Rightarrow> u8 list \<Rightarrow> nat \<Rightarrow> tbool option" where
  "per_compare s i str 0 = Some True"
| "per_compare s i [] (Suc n) = None"
| "per_compare s i (b # bs) (Suc n) = do {
     a \<leftarrow> byte_at s i;
     (if a \<noteq> b then Some False else per_compare s (i + 1) bs n) }"

definition per_read_octet_string :: "STREAM \<Rightarrow> u8 list \<Rightarrow> int \<Rightarrow> int \<Rightarrow> u16 \<Rightarrow> (tbool \<times> STREAM) option" where
  "per_read_octet_string s oct_str len min_len mlength = do {
     ((_, mlength), s) \<leftarrow> per_read_length s mlength;
     (if uint mlength + min_len \<noteq> len then Some (False, s)
      else do {
        r \<leftarrow> per_compare s 0 oct_str (nat len);
        Some (r, stream_seek s len) }) }"

definition per_write_octet_string :: "STREAM \<Rightarrow> u8 list \<Rightarrow> int \<Rightarrow> int \<Rightarrow> STREAM option" where
  "per_write_octet_string s oct_str len min_len = do {
     let mlength = (if len - min_len \<ge> 0 then len - min_len else min_len);
     s \<leftarrow> per_write_length s mlength;
     per_write_bytes s oct_str (nat len) }"

text \<open>\<open>for (i = 0; i < length; i += 2)\<close>\<close>

function per_seek_pairs :: "STREAM \<Rightarrow> int \<Rightarrow> int \<Rightarrow> STREAM" where
  "per_seek_pairs s i len = (if i < len then per_seek_pairs (stream_seek s 1) (i + 2) len else s)"
  by pat_completeness auto
termination
  by (relation "measure (\<lambda>(s, i, len). nat (len - i))") auto

definition per_read_numeric_string :: "STREAM \<Rightarrow> int \<Rightarrow> u16 \<Rightarrow> (tbool \<times> STREAM) option" where
  "per_read_numeric_string s min_len mlength = do {
     ((_, mlength), s) \<leftarrow> per_read_length s mlength;
     Some (True, per_seek_pairs s 0 (uint mlength + min_len)) }"

text \<open>\<open>(c - 0x30) % 10\<close> on a promoted byte, stored back into a byte.\<close>

definition per_digit :: "u8 \<Rightarrow> u8" where
  "per_digit c = word_of_int ((uint c - 0x30) smod 10)"

function per_write_digits :: "STREAM \<Rightarrow> u8 list \<Rightarrow> int \<Rightarrow> int \<Rightarrow> STREAM option" where
  "per_write_digits s num_str i len =
     (if i < len then do {
        c1 \<leftarrow> (if 0 \<le> i \<and> i < int (length num_str) then Some (num_str ! nat i) else None);
        c2 \<leftarrow> (if i + 1 < len then
                 (if 0 \<le> i + 1 \<and> i + 1 < int (length num_str) then Some (num_str ! nat (i + 1)) else None)
               else Some 0x30);
        s \<leftarrow> stream_write_uint8 s (ucast (push_bit 4 (ucast (per_digit c1) :: u32) OR ucast (per_digit c2)) :: u8);
        per_write_digits s num_str (i + 2) len }
      else Some s)"
  by pat_completeness auto
termination
  by (relation "measure (\<lambda>(s, num_str, i, len). nat (len - i))") auto

definition per_write_numeric_string :: "STREAM \<Rightarrow> u8 list \<Rightarrow> int \<Rightarrow> int \<Rightarrow> STREAM option" where
  "per_write_numeric_string s num_str len min_len = do {
     let mlength = (if len - min_len \<ge> 0 then len - min_len else min_len);
     s \<leftarrow> per_write_length s mlength;
     per_write_digits s num_str 0 len }"


section \<open>Lengths\<close>

definition per_length_enc :: "int \<Rightarrow> u8 list" where
  "per_length_enc n =
     (if n > 0x7F then [octet (Suc 0) (word_of_int n OR 0x8000 :: u32), octet 0 (word_of_int n :: u32)]
      else [octet 0 (word_of_int n :: u32)])"

text \<open>Only fifteen bits of a length travel.\<close>

definition per_length_dec :: "int \<Rightarrow> u16" where
  "per_length_dec n = word_of_int n AND 0x7FFF"

lemma octet_or_8000: "octet 0 (w OR 0x8000 :: u32) = octet 0 w"
proof -
  have "octet 0 (w OR 2 ^ 15 :: u32) = octet 0 w"
    by (rule bit_word_eqI) (auto simp only: bit_simps)
  then show ?thesis by simp
qed

lemma per_write_length_emit [wire]: "per_write_length s n = emit (per_length_enc n) s"
  by (simp add: per_write_length_def per_length_enc_def wire octet_or_8000)

lemma ucast_word_of_int_u16: "ucast (word_of_int n :: u32) = (word_of_int n :: u16)"
  by (rule bit_word_eqI) (simp add: bit_simps)

lemma per_length_high_bit: "octet (Suc 0) (w OR 0x8000 :: u32) AND 0x80 \<noteq> 0"
proof -
  have "bit (octet (Suc 0) (w OR 2 ^ 15 :: u32)) 7" by (simp add: bit_simps)
  then show ?thesis using and_exp_eq_0_iff_not_bit [of "octet (Suc 0) (w OR 0x8000)" 7] by simp
qed

lemma per_length_join:
  "push_bit 8 (ucast (octet (Suc 0) (w OR 0x8000 :: u32) AND NOT 0x80)) + ucast (octet 0 w)
     = (ucast w :: u16) AND 0x7FFF"
proof -
  let ?h = "ucast (octet (Suc 0) (w OR 2 ^ 15 :: u32) AND NOT (2 ^ 7)) :: u16"
  have "push_bit 8 ?h AND ucast (octet 0 w) = 0"
    by (rule bit_word_eqI) (auto simp: bit_simps)
  then have "push_bit 8 ?h + ucast (octet 0 w) = push_bit 8 ?h OR ucast (octet 0 w)"
    by (rule disjunctive_add_eq_or)
  also have "\<dots> = ucast w AND mask 15"
  proof (rule bit_word_eqI)
    fix n
    assume "n < LENGTH(16)"
    then consider "n < 8" | "8 \<le> n \<and> n < 15" | "n = 15" by force
    then show "bit (push_bit 8 ?h OR ucast (octet 0 w)) n = bit ((ucast w :: u16) AND mask 15) n"
      by cases (auto simp only: bit_simps possible_bit_word; simp)+
  qed
  finally show ?thesis by (simp add: mask_eq_exp_minus_1)
qed

lemma per_read_length_stm:
  assumes "0 \<le> n" and "int (length pre + length (per_length_enc n)) \<le> sz"
  shows "per_read_length (stm pre (per_length_enc n @ rst) sz) old
    = Some ((True, per_length_dec n), stm (pre @ per_length_enc n) rst sz)"
proof (cases "n > 0x7F")
  case True
  have dec: "ucast (word_of_int n :: u32) AND 0x7FFF = per_length_dec n"
    by (simp add: per_length_dec_def ucast_word_of_int_u16)
  have sz: "1 \<le> sz - int (length pre)" "1 \<le> sz - (1 + int (length pre))"
    using assms(2) True by (simp_all add: per_length_enc_def)
  show ?thesis
    using True sz per_length_high_bit [of "word_of_int n"] per_length_join [of "word_of_int n"]
    by (simp add: per_read_length_def per_length_enc_def stream_get_left_def wire Let_def dec)
next
  case False
  then have "octet 0 (word_of_int n :: u32) < 0x80"
    using assms(1) by (simp add: octet_def word_less_def unsigned_ucast_eq uint_word_of_int take_bit_eq_mod)
  then have "octet 0 (word_of_int n :: u32) AND 0x80 = 0" by (simp add: and_80_eq_0)
  moreover have "ucast (octet 0 (word_of_int n :: u32)) = per_length_dec n"
  proof (rule bit_word_eqI)
    fix k
    assume "k < LENGTH(16)"
    have "unat (word_of_int n :: u16) < 2 ^ 7"
      using assms(1) False by (simp add: unat_eq_nat_uint uint_word_of_int take_bit_eq_mod nat_less_iff)
    from bit_below [OF this, of k] have "bit (word_of_int n :: u16) k \<longleftrightarrow> k < 7 \<and> bit n k"
      using \<open>k < LENGTH(16)\<close> by (auto simp: bit_simps)
    moreover have "(0x7FFF :: u16) = mask 15" by (simp add: mask_eq_exp_minus_1)
    moreover have "bit n k \<Longrightarrow> k < 8 \<Longrightarrow> k < 7"
      using calculation(1) \<open>k < LENGTH(16)\<close> by (auto simp: bit_simps)
    ultimately show "bit (ucast (octet 0 (word_of_int n :: u32)) :: u16) k = bit (per_length_dec n) k"
      using \<open>k < LENGTH(16)\<close> by (simp only: per_length_dec_def bit_simps possible_bit_word) auto
  qed
  ultimately show ?thesis
    using False assms(2) by (simp add: per_read_length_def per_length_enc_def stream_get_left_def wire)
qed

interpretation per_length: sized_codec per_write_length per_length_enc "\<lambda>n. 0 \<le> n"
  "\<lambda>s. per_read_length s old" "\<lambda>n. (True, per_length_dec n)" for old
  by unfold_locales (simp_all add: wire per_read_length_stm)


lemma per_length_dec_small: "0 \<le> n \<Longrightarrow> n < 0x8000 \<Longrightarrow> uint (per_length_dec n) = n"
proof -
  assume n: "0 \<le> n" "n < 0x8000"
  have "(0x7FFF :: u16) = mask 15" by (simp add: mask_eq_exp_minus_1)
  then have "per_length_dec n = take_bit 15 (word_of_int n)"
    by (simp only: per_length_dec_def take_bit_eq_mask)
  then have "uint (per_length_dec n) = take_bit 15 (uint (word_of_int n :: u16))"
    by (simp only: unsigned_take_bit_eq)
  with n show ?thesis by (simp add: uint_word_of_int take_bit_eq_mod)
qed

lemma per_length_enc_small [simp]:
  "per_length_enc 1 = [1]" "per_length_enc 2 = [2]" "per_length_enc 4 = [4]"
  by (simp_all add: per_length_enc_def octet_def)

lemma per_read_length_byte:
  assumes "b < 0x80" and "int (length pre) < sz"
  shows "per_read_length (stm pre (b # rst) sz) old = Some ((True, ucast b), stm (pre @ [b]) rst sz)"
  using assms by (simp add: per_read_length_def stream_get_left_def wire and_80_eq_0)

section \<open>Integers and enumerations\<close>

definition per_integer_enc :: "u32 \<Rightarrow> u8 list" where
  "per_integer_enc v =
     (if v \<le> 0xFF then [1, octet 0 v]
      else if v \<le> 0xFFFF then [2, octet (Suc 0) v, octet 0 v]
      else [4, octet 3 v, octet 2 v, octet (Suc 0) v, octet 0 v])"

lemma per_write_integer_emit [wire]: "per_write_integer s v = emit (per_integer_enc v) s"
  by (simp add: per_write_integer_def per_integer_enc_def wire)

lemma ucast_octet_id: "(v :: u32) \<le> 0xFF \<Longrightarrow> ucast (octet 0 v) = v"
  using bit_below [of v 8] by (intro bit_word_eqI) (auto simp: bit_simps word_le_nat_alt)

lemma ucast_ucast_id: "(v :: u32) \<le> 0xFFFF \<Longrightarrow> ucast (ucast v :: u16) = v"
  using bit_below [of v 16] by (intro bit_word_eqI) (auto simp: bit_simps word_le_nat_alt)

lemma per_read_integer_stm:
  assumes "v \<le> 0xFFFF" and "int (length pre + length (per_integer_enc v)) \<le> sz"
  shows "per_read_integer (stm pre (per_integer_enc v @ rst) sz) old len
    = Some ((True, v), stm (pre @ per_integer_enc v) rst sz)"
proof (cases "v \<le> 0xFF")
  case True
  with assms(2) show ?thesis
    by (simp add: per_read_integer_def per_integer_enc_def per_read_length_byte wire ucast_octet_id)
next
  case False
  with assms show ?thesis
    by (simp add: per_read_integer_def per_integer_enc_def per_read_length_byte wire
        join_u16_be ucast_ucast_id)
qed

interpretation per_integer: sized_codec per_write_integer per_integer_enc "\<lambda>v. v \<le> 0xFFFF"
  "\<lambda>s. per_read_integer s old len" "\<lambda>v. (True, v)" for old len
  by unfold_locales (simp_all add: wire per_read_integer_stm)

definition per_integer16_dec :: "u16 \<Rightarrow> u16 \<Rightarrow> tbool \<times> u16" where
  "per_integer16_dec m v = (if m \<le> v then (True, v) else (False, v - m))"

lemma uint_diff_sum:
  "uint (v - m :: u16) + uint m > 0xFFFF \<longleftrightarrow> v < m"
proof -
  have "uint v < 65536" "0 \<le> uint v" "uint m < 65536" "0 \<le> uint m"
    using unsigned_less [of v, where ?'a = int] unsigned_less [of m, where ?'a = int] by simp_all
  note range = this
  have d: "uint (v - m) = (uint v - uint m) mod 65536" by (simp add: uint_word_ariths)
  show ?thesis
  proof (cases "uint v < uint m")
    case True
    have "(uint v - uint m) mod 65536 = (uint v - uint m + 65536) mod 65536" by simp
    also have "\<dots> = uint v - uint m + 65536"
      by (rule mod_pos_pos_trivial) (use range True in linarith)+
    finally show ?thesis using True range d unfolding word_less_def by linarith
  next
    case False
    have "(uint v - uint m) mod 65536 = uint v - uint m"
      by (rule mod_pos_pos_trivial) (use range False in linarith)+
    then show ?thesis using False range d unfolding word_less_def by linarith
  qed
qed

lemma per_write_integer16_emit [wire]:
  "per_write_integer16 s v m = emit [octet (Suc 0) (v - m), octet 0 (v - m)] s"
proof -
  let ?w = "word_of_int (uint v - uint m) :: u32"
  have "ucast ?w = (word_of_int (uint v - uint m) :: u16)" by (rule ucast_word_of_int_u16)
  then have w: "ucast ?w = v - m" by simp
  have "octet 0 (v - m) = octet 0 ?w" "octet (Suc 0) (v - m) = octet (Suc 0) ?w"
    by (auto intro!: bit_word_eqI simp: bit_simps simp flip: w)
  then show ?thesis by (simp add: per_write_integer16_def wire)
qed

lemma per_read_integer16_stm [wire]:
  "per_read_integer16 (stm pre (octet (Suc 0) (v - m) # octet 0 (v - m) # rst) sz) m
     = Some (per_integer16_dec m v, stm (pre @ [octet (Suc 0) (v - m), octet 0 (v - m)]) rst sz)"
  using uint_diff_sum [of v m]
  by (cases "m \<le> v") (auto simp: per_read_integer16_def per_integer16_dec_def wire join_u16_be not_le)

interpretation per_integer16: wire_codec "\<lambda>s v. per_write_integer16 s v m"
  "\<lambda>v. [octet (Suc 0) (v - m), octet 0 (v - m)]" "\<lambda>_. True"
  "\<lambda>s. per_read_integer16 s m" "per_integer16_dec m" for m
  by unfold_locales (simp_all add: wire)

interpretation per_enumerated: sized_codec "\<lambda>s v. per_write_enumerated s v count" "\<lambda>v. [v]" "\<lambda>_. True"
  "\<lambda>s. per_read_enumerated s old count" "\<lambda>v. (True, v)" for old count
  by unfold_locales (simp_all add: per_write_enumerated_def per_read_enumerated_def stream_get_left_def wire)

interpretation per_choice: wire_codec per_write_choice "\<lambda>v. [v]" "\<lambda>_. True" per_read_choice "\<lambda>v. (True, v)"
  by unfold_locales (simp_all add: per_write_choice_def per_read_choice_def wire)

interpretation per_selection: wire_codec per_write_selection "\<lambda>v. [v]" "\<lambda>_. True" per_read_selection
  "\<lambda>v. (True, v)"
  by unfold_locales (simp_all add: per_write_selection_def per_read_selection_def wire)

interpretation per_number_of_sets: wire_codec per_write_number_of_sets "\<lambda>v. [v]" "\<lambda>_. True"
  per_read_number_of_sets "\<lambda>v. (True, v)"
  by unfold_locales (simp_all add: per_write_number_of_sets_def per_read_number_of_sets_def wire)

section \<open>Object identifiers\<close>

definition per_oid_enc :: "oid6 \<Rightarrow> u8 list" where
  "per_oid_enc oid = (case oid of (o0, o1, o2, o3, o4, o5) \<Rightarrow> [5, 0, o2, o3, o4, o5])"

lemma oid_first_octet_zero: "push_bit 4 (ucast (a :: u8) :: u32) AND (ucast (b :: u8) AND 0x0F) = 0"
proof -
  have "(0x0F :: u32) = mask 4" by (simp add: mask_eq_exp_minus_1)
  then have "push_bit 4 (ucast a :: u32) AND (ucast b AND 0x0F) = push_bit 4 (ucast a) AND (ucast b AND mask 4)"
    by simp
  also have "\<dots> = 0" by (rule bit_word_eqI) (auto simp: bit_simps)
  finally show ?thesis .
qed

lemma per_write_object_identifier_emit [wire]:
  "per_write_object_identifier s oid = emit (per_oid_enc oid) s"
  by (simp add: per_write_object_identifier_def per_oid_enc_def oid_first_octet_zero wire
      split: prod.splits)

lemma per_read_object_identifier_stm:
  assumes "int (length pre) < sz"
  shows "per_read_object_identifier (stm pre (per_oid_enc oid @ rst) sz) oid len
    = Some (fst oid = 0 \<and> fst (snd oid) = 0, stm (pre @ per_oid_enc oid) rst sz)"
  using assms
  by (auto simp: per_read_object_identifier_def per_oid_enc_def per_read_length_byte wire Let_def
      split: prod.splits)

interpretation per_oid: wire_writer per_write_object_identifier per_oid_enc "\<lambda>_. True"
  by unfold_locales (simp add: wire)

section \<open>Strings\<close>

lemma per_write_zeros_emit [wire]: "per_write_zeros s n = emit (replicate n 0) s"
  by (induction n arbitrary: s) (simp_all add: wire)

lemma per_write_bytes_emit [wire]: "per_write_bytes s bs (length bs) = emit bs s"
  by (induction bs arbitrary: s) (simp_all add: wire)

lemma per_compare_equal:
  "per_compare (stm pre (as @ bs @ rst) sz) (int (length as)) bs (length bs) = Some True"
proof (induction bs arbitrary: as)
  case (Cons b bs)
  have "byte_at (stm pre (as @ b # bs @ rst) sz) (int (length as)) = Some b"
    by (simp add: byte_at_stm nth_append nat_add_distrib)
  moreover have "per_compare (stm pre (as @ b # bs @ rst) sz) (int (length as) + 1) bs (length bs) = Some True"
    using Cons.IH [of "as @ [b]"] by (simp add: add.commute)
  ultimately show ?case by simp
qed simp

definition per_octet_string_enc :: "u8 list \<Rightarrow> int \<Rightarrow> u8 list" where
  "per_octet_string_enc bs m = per_length_enc (int (length bs) - m) @ bs"

lemma per_write_octet_string_emit [wire]:
  "m \<le> int (length bs) \<Longrightarrow>
     per_write_octet_string s bs (int (length bs)) m = emit (per_octet_string_enc bs m) s"
  by (simp add: per_write_octet_string_def per_octet_string_enc_def wire)

lemma per_read_octet_string_stm:
  assumes "m \<le> int (length bs)" and "int (length bs) - m < 0x8000"
    and "int (length pre + length (per_octet_string_enc bs m)) \<le> sz"
  shows "per_read_octet_string (stm pre (per_octet_string_enc bs m @ rst) sz) bs (int (length bs)) m old
    = Some (True, stm (pre @ per_octet_string_enc bs m) rst sz)"
proof -
  have "per_compare (stm (pre @ per_length_enc (int (length bs) - m)) (bs @ rst) sz) 0 bs (length bs) = Some True"
    using per_compare_equal [of _ "[]"] by simp
  then show ?thesis
    using assms
    by (simp add: per_read_octet_string_def per_octet_string_enc_def per_read_length_stm
        per_length_dec_small stream_seek_stm)
qed

text \<open>Numeric strings: two digits per octet, padded with \<open>'0'\<close>.\<close>

fun per_digits_enc :: "u8 list \<Rightarrow> u8 list" where
  "per_digits_enc [] = []"
| "per_digits_enc [c] = [ucast (push_bit 4 (ucast (per_digit c) :: u32) OR ucast (per_digit 0x30))]"
| "per_digits_enc (c # d # cs)
     = ucast (push_bit 4 (ucast (per_digit c) :: u32) OR ucast (per_digit d)) # per_digits_enc cs"

declare per_write_digits.simps [simp del] per_seek_pairs.simps [simp del]

lemma length_per_digits_enc: "length (per_digits_enc cs) = (length cs + 1) div 2"
  by (induction cs rule: per_digits_enc.induct) simp_all

lemma per_write_digits_emit:
  "per_write_digits s (as @ cs) (int (length as)) (int (length as + length cs)) = emit (per_digits_enc cs) s"
proof (induction cs arbitrary: s as rule: per_digits_enc.induct)
  case 1
  then show ?case by (simp add: per_write_digits.simps)
next
  case (2 c)
  then show ?case
    by (subst per_write_digits.simps) (simp add: nth_append wire per_write_digits.simps)
next
  case (3 c d cs)
  have "per_write_digits s (as @ c # d # cs) (int (length as) + 2) (int (length as) + (int (length cs) + 2))
      = emit (per_digits_enc cs) s" for s
    using 3 [of s "as @ [c, d]"] by (simp add: ac_simps)
  moreover have "nat (int (length as) + 1) = Suc (length as)" by simp
  ultimately show ?case
    by (subst per_write_digits.simps) (simp add: nth_append wire ac_simps)
qed

lemma per_seek_pairs_eq: "per_seek_pairs s i n = (if i < n then stream_seek s ((n - i + 1) div 2) else s)"
proof (induction s i n rule: per_seek_pairs.induct)
  case (1 s i n)
  show ?case
  proof (cases "i < n")
    case True
    have "(n - i + 1) div 2 = 1 + (n - (i + 2) + 1) div 2" by simp
    with 1 [OF True] True show ?thesis
      by (subst per_seek_pairs.simps) (auto simp: stream_seek_def)
  qed (simp add: per_seek_pairs.simps)
qed


lemma per_write_numeric_string_emit [wire]:
  "m \<le> int (length cs) \<Longrightarrow>
     per_write_numeric_string s cs (int (length cs)) m
       = emit (per_length_enc (int (length cs) - m) @ per_digits_enc cs) s"
  using per_write_digits_emit [of _ "[]" cs] by (simp add: per_write_numeric_string_def wire)

section \<open>Properties\<close>

text \<open>
  C31: a PER length written by \<open>per_write_length\<close> is read back by \<open>per_read_length\<close> reduced to its
  low fifteen bits; every length below \<open>0x8000\<close> comes back as it was.
\<close>

theorem per_length_roundtrip:
  assumes "stream_ok s" and "0 \<le> n" and "per_write_length s n = Some s'" and "s_p s' \<le> s_size s'"
  shows "\<exists>v. per_read_length (stream_set_pos s' (stream_get_pos s)) old = Some ((True, v), s')
    \<and> v = word_of_int n AND 0x7FFF \<and> (n < 0x8000 \<longrightarrow> uint v = n)"
  using per_length.read_back_sized [OF assms(2,1,3,4), of old] per_length_dec_small [OF assms(2)]
  by (simp add: per_length_dec_def)

theorem per_length_roundtrip_witness:
  "\<exists>v. per_read_length (stm [] [0x81, 0x2C] 2) 0 = Some ((True, v), stm [0x81, 0x2C] [] 2) \<and> uint v = 300"
proof -
  have "per_write_length (stm [] [0, 0] 2) 300 = Some (stm [0x81, 0x2C] [] 2)"
    by (simp add: wire per_length_enc_def emit_stm octet_def)
  from per_length_roundtrip [OF stream_ok_stm _ this, of 0] show ?thesis
    by (simp add: stream_get_pos_def stream_set_pos_start)
qed

text \<open>
  C32: \<open>per_read_integer\<close> reads back every INTEGER of at most sixteen bits that
  \<open>per_write_integer\<close> wrote and stops behind it. Larger values are written with four octets,
  which the reader refuses: it returns false, keeps the variable and has consumed the length.
\<close>

theorem per_integer_roundtrip:
  assumes "stream_ok s" and "per_write_integer s v = Some s'" and "s_p s' \<le> s_size s'"
  shows "per_read_integer (stream_set_pos s' (stream_get_pos s)) old len
    = (if v \<le> 0xFFFF then Some ((True, v), s')
       else Some ((False, old), stream_set_pos s' (stream_get_pos s + 1)))"
proof (cases "v \<le> 0xFFFF")
  case True
  with per_integer.read_back_sized [OF True assms, of old len] show ?thesis by simp
next
  case False
  then have "\<not> v \<le> 0xFF" by (simp add: word_le_nat_alt)
  with False have enc: "per_integer_enc v = 4 # [octet 3 v, octet 2 v, octet (Suc 0) v, octet 0 v]"
    by (simp add: per_integer_enc_def)
  from assms(1) obtain pre rst sz where s: "s = stm pre rst sz" by (rule stream_ok_cases)
  with assms(2) have s': "s' = stm (pre @ per_integer_enc v) (drop (length (per_integer_enc v)) rst) sz"
    by (auto simp: wire emit_stm split: if_splits)
  have "stream_set_pos s' (stream_get_pos s + 1)
      = stm (pre @ [4]) ([octet 3 v, octet 2 v, octet (Suc 0) v, octet 0 v] @ drop 5 rst) sz"
    by (simp add: s s' enc stream_get_pos_def stream_set_pos_def stm_def numeral_eq_Suc)
  moreover have "stream_set_pos s' (stream_get_pos s)
      = stm pre (4 # [octet 3 v, octet 2 v, octet (Suc 0) v, octet 0 v] @ drop 5 rst) sz"
    by (simp add: s s' enc stream_get_pos_def stream_set_pos_def stm_def numeral_eq_Suc)
  moreover have "int (length pre) < sz" using assms(3) s' enc by simp
  ultimately show ?thesis
    using False by (simp add: per_read_integer_def per_read_length_byte)
qed

theorem per_integer_roundtrip_witness:
  "per_read_integer (stm [] [2, 0x12, 0x34] 3) 9 0 = Some ((True, 0x1234), stm [2, 0x12, 0x34] [] 3)"
proof -
  have "per_write_integer (stm [] [0, 0, 0] 3) 0x1234 = Some (stm [2, 0x12, 0x34] [] 3)"
    by (simp add: wire per_integer_enc_def emit_stm octet_def)
  from per_integer_roundtrip [OF stream_ok_stm this, of 9 0] show ?thesis
    by (simp add: stream_get_pos_def stream_set_pos_start)
qed

text \<open>
  \<open>per_read_integer16\<close> with the same lower bound recovers what \<open>per_write_integer16\<close> wrote
  exactly when the value is not below the bound; otherwise it reports failure.
\<close>

theorem per_integer16_roundtrip:
  assumes "stream_ok s" and "per_write_integer16 s v m = Some s'"
  shows "per_read_integer16 (stream_set_pos s' (stream_get_pos s)) m
    = Some (if m \<le> v then (True, v) else (False, v - m), s')"
  using per_integer16.read_back [OF _ assms] by (simp add: per_integer16_dec_def)

theorem per_integer16_roundtrip_witness:
  "per_read_integer16 (stm [] [0, 6] 2) 1001 = Some ((True, 1007), stm [0, 6] [] 2)"
proof -
  have "per_write_integer16 (stm [] [0, 0] 2) 1007 1001 = Some (stm [0, 6] [] 2)"
    by (simp add: wire emit_stm octet_def)
  from per_integer16_roundtrip [OF stream_ok_stm this] show ?thesis
    by (simp add: stream_get_pos_def stream_set_pos_start)
qed

text \<open>
  C33: \<open>per_write_object_identifier\<close> loses the first two tuples of the identifier (it combines
  them with a bitwise AND, which is always zero): reading the identifier back succeeds exactly
  when both are zero, as they are for the T.124 identifier in use.
\<close>

theorem per_oid_roundtrip_iff_zero:
  assumes "stream_ok s" and "per_write_object_identifier s oid = Some s'" and "s_p s' \<le> s_size s'"
  shows "per_read_object_identifier (stream_set_pos s' (stream_get_pos s)) oid len
    = Some (fst oid = 0 \<and> fst (snd oid) = 0, s')"
proof -
  obtain pre rst sz where s: "s = stm pre (take (length (per_oid_enc oid)) rst @ drop (length (per_oid_enc oid)) rst) sz"
    and s': "s' = stm (pre @ per_oid_enc oid) (drop (length (per_oid_enc oid)) rst) sz"
    using per_oid.write_stm [OF _ assms(1,2)] by auto
  have "length (per_oid_enc oid) = 6" by (simp add: per_oid_enc_def split: prod.splits)
  with assms(3) s' have "int (length pre) < sz" by simp
  then show ?thesis
    by (simp add: s s' stream_get_pos_def stream_set_pos_stm per_read_object_identifier_stm)
qed

theorem per_oid_roundtrip_iff_zero_witness:
  "per_read_object_identifier (stm [] [5, 0, 20, 124, 0, 1] 6) (0, 0, 20, 124, 0, 1) 0
     = Some (True, stm [5, 0, 20, 124, 0, 1] [] 6)"
proof -
  have "per_write_object_identifier (stm [] (replicate 6 0) 6) (0, 0, 20, 124, 0, 1)
      = Some (stm [5, 0, 20, 124, 0, 1] [] 6)"
    by (simp add: wire per_oid_enc_def emit_stm numeral_eq_Suc)
  from per_oid_roundtrip_iff_zero [OF stream_ok_stm this, of 0] show ?thesis
    by (simp add: stream_get_pos_def stream_set_pos_start)
qed

text \<open>
  An OCTET STRING written with minimum length \<open>m\<close> is accepted by \<open>per_read_octet_string\<close>
  when the same string with the same \<open>m\<close> is expected, and the reader stops behind it.
\<close>

theorem per_octet_string_roundtrip:
  assumes "stream_ok s" and "m \<le> int (length bs)" and "int (length bs) - m < 0x8000"
    and "per_write_octet_string s bs (int (length bs)) m = Some s'" and "s_p s' \<le> s_size s'"
  shows "per_read_octet_string (stream_set_pos s' (stream_get_pos s)) bs (int (length bs)) m old
    = Some (True, s')"
proof -
  from assms(1) obtain pre rst sz where "s = stm pre rst sz" by (rule stream_ok_cases)
  with assms(2-5) show ?thesis
    by (auto simp: wire emit_stm stream_get_pos_def stream_set_pos_stm per_read_octet_string_stm
        split: if_splits)
qed

theorem per_octet_string_roundtrip_witness:
  "per_read_octet_string (stm [] [0, 68, 117, 99, 97] 5) [68, 117, 99, 97] 4 4 0
     = Some (True, stm [0, 68, 117, 99, 97] [] 5)"
proof -
  have w: "per_write_octet_string (stm [] (replicate 5 0) 5) [68, 117, 99, 97]
      (int (length [68, 117, 99, 97 :: u8])) 4 = Some (stm [0, 68, 117, 99, 97] [] 5)"
    using per_write_octet_string_emit [of 4 "[68, 117, 99, 97]"]
    by (simp add: per_octet_string_enc_def per_length_enc_def emit_stm)
  from per_octet_string_roundtrip [OF stream_ok_stm _ _ w, of 0] show ?thesis
    by (simp add: stream_get_pos_def stream_set_pos_start)
qed

text \<open>
  A NumericString written with minimum length \<open>m\<close>, two digits to an octet, is skipped to
  exactly its end by \<open>per_read_numeric_string\<close> with the same \<open>m\<close>, for odd lengths too.
\<close>

theorem per_numeric_string_skipped:
  assumes "stream_ok s" and "0 \<le> m" and "m \<le> int (length cs)" and "int (length cs) - m < 0x8000"
    and "per_write_numeric_string s cs (int (length cs)) m = Some s'" and "s_p s' \<le> s_size s'"
  shows "per_read_numeric_string (stream_set_pos s' (stream_get_pos s)) m old = Some (True, s')"
proof -
  let ?d = "per_digits_enc cs"
  let ?l = "per_length_enc (int (length cs) - m)"
  from assms(1) obtain pre rst sz where s: "s = stm pre rst sz" by (rule stream_ok_cases)
  have s': "s' = stm (pre @ ?l @ ?d) (drop (length (?l @ ?d)) rst) sz"
    using assms(3,5) by (auto simp: s wire emit_stm split: if_splits)
  have "stream_set_pos s' (stream_get_pos s) = stm pre (?l @ ?d @ drop (length (?l @ ?d)) rst) sz"
    by (simp add: s s' stream_get_pos_def stream_set_pos_def stm_def)
  moreover have "per_seek_pairs (stm (pre @ ?l) (?d @ r) sz) 0 (int (length cs)) = stm (pre @ ?l @ ?d) r sz" for r
  proof (cases "cs = []")
    case False
    have "(int (length cs) + 1) div 2 = int (length ?d)"
      by (simp add: length_per_digits_enc zdiv_int)
    with False show ?thesis by (simp add: per_seek_pairs_eq stream_seek_stm)
  qed (simp add: per_seek_pairs_eq)
  ultimately show ?thesis
    using assms(2-4,6) s'
    by (simp add: per_read_numeric_string_def per_read_length_stm per_length_dec_small)
qed

theorem per_numeric_string_skipped_witness:
  "per_read_numeric_string (stm [] [2, 0x12, 0x30, 0xFF] 4) 1 0 = Some (True, stm [2, 0x12, 0x30] [0xFF] 4)"
proof -
  have w: "per_write_numeric_string (stm [] [0, 0, 0, 0xFF] 4) [0x31, 0x32, 0x33] (int (length [0x31, 0x32, 0x33 :: u8])) 1
      = Some (stm [2, 0x12, 0x30] [0xFF] 4)"
    using per_write_numeric_string_emit [of 1 "[0x31, 0x32, 0x33]"]
    by (simp add: emit_stm per_digit_def signed_modulo_int_def signed_divide_int_def)
  from per_numeric_string_skipped [OF stream_ok_stm _ _ _ w, of 0] show ?thesis
    by (simp add: stream_get_pos_def stream_set_pos_start)
qed

end
