(* ===== verification/Input_Events.thy ===== *)
theory Input_Events
  imports Wire_Stream
begin

unbundle bit_operations_syntax

text \<open>
  Keyboard and mouse events on the slow path: \<^verbatim>\<open>libfreerdp-core/input.c\<close>. The callbacks of
  \<^verbatim>\<open>rdp_input\<close> are represented by the list of events they were called with, in order.
\<close>

section \<open>Constants and events\<close>

definition KBD_FLAGS_EXTENDED :: u16 where "KBD_FLAGS_EXTENDED = 0x0100"
definition KBD_FLAGS_DOWN :: u16 where "KBD_FLAGS_DOWN = 0x4000"
definition KBD_FLAGS_RELEASE :: u16 where "KBD_FLAGS_RELEASE = 0x8000"

definition INPUT_EVENT_SYNC :: u16 where "INPUT_EVENT_SYNC = 0x0000"
definition INPUT_EVENT_SCANCODE :: u16 where "INPUT_EVENT_SCANCODE = 0x0004"
definition INPUT_EVENT_UNICODE :: u16 where "INPUT_EVENT_UNICODE = 0x0005"
definition INPUT_EVENT_MOUSE :: u16 where "INPUT_EVENT_MOUSE = 0x8001"
definition INPUT_EVENT_MOUSEX :: u16 where "INPUT_EVENT_MOUSEX = 0x8002"

lemmas kbd_flag_defs = KBD_FLAGS_EXTENDED_def KBD_FLAGS_DOWN_def KBD_FLAGS_RELEASE_def
lemmas input_event_defs = INPUT_EVENT_SYNC_def INPUT_EVENT_SCANCODE_def INPUT_EVENT_UNICODE_def
  INPUT_EVENT_MOUSE_def INPUT_EVENT_MOUSEX_def

datatype input_event =
    SynchronizeEvent u32
  | KeyboardEvent u16 u16
  | UnicodeKeyboardEvent u16 u16
  | MouseEvent u16 u16 u16
  | ExtendedMouseEvent u16 u16 u16

section \<open>Writing\<close>

definition rdp_write_client_input_pdu_header :: "STREAM \<Rightarrow> u16 \<Rightarrow> STREAM option" where
  "rdp_write_client_input_pdu_header s number = do {
     s \<leftarrow> stream_write_uint16 s (1 :: u16);
     stream_write_uint16 s (0 :: u16) }"

definition rdp_write_input_event_header :: "STREAM \<Rightarrow> u32 \<Rightarrow> u16 \<Rightarrow> STREAM option" where
  "rdp_write_input_event_header s time type = do {
     s \<leftarrow> stream_write_uint32 s time;
     stream_write_uint16 s type }"

definition input_write_synchronize_event :: "STREAM \<Rightarrow> u32 \<Rightarrow> STREAM option" where
  "input_write_synchronize_event s flags = do {
     s \<leftarrow> stream_write_uint16 s (0 :: u16);
     stream_write_uint32 s flags }"

definition input_write_keyboard_event :: "STREAM \<Rightarrow> u16 \<Rightarrow> u16 \<Rightarrow> STREAM option" where
  "input_write_keyboard_event s flags code = do {
     s \<leftarrow> stream_write_uint16 s flags;
     s \<leftarrow> stream_write_uint16 s code;
     stream_write_uint16 s (0 :: u16) }"

definition input_write_unicode_keyboard_event :: "STREAM \<Rightarrow> u16 \<Rightarrow> u16 \<Rightarrow> STREAM option" where
  "input_write_unicode_keyboard_event s flags code = do {
     s \<leftarrow> stream_write_uint16 s flags;
     s \<leftarrow> stream_write_uint16 s code;
     stream_write_uint16 s (0 :: u16) }"

text \<open>The coordinates are signed; negative ones are replaced by 0.\<close>

definition max0 :: "u16 \<Rightarrow> u16" where
  "max0 x = (if sint x < 0 then 0 else x)"

definition input_write_mouse_event :: "STREAM \<Rightarrow> u16 \<Rightarrow> u16 \<Rightarrow> u16 \<Rightarrow> STREAM option" where
  "input_write_mouse_event s flags x y = do {
     s \<leftarrow> stream_write_uint16 s flags;
     s \<leftarrow> stream_write_uint16 s (max0 x);
     stream_write_uint16 s (max0 y) }"

definition input_write_extended_mouse_event :: "STREAM \<Rightarrow> u16 \<Rightarrow> u16 \<Rightarrow> u16 \<Rightarrow> STREAM option" where
  "input_write_extended_mouse_event s flags x y = do {
     s \<leftarrow> stream_write_uint16 s flags;
     s \<leftarrow> stream_write_uint16 s (max0 x);
     stream_write_uint16 s (max0 y) }"

section \<open>Receiving\<close>

type_synonym recv_result = "((tbool \<times> input_event list) \<times> STREAM) option"

definition input_recv_sync_event :: "STREAM \<Rightarrow> recv_result" where
  "input_recv_sync_event s =
     (if stream_get_left s < 6 then Some ((False, []), s)
      else do {
        let s = stream_seek s 2;
        (toggleFlags, s) \<leftarrow> stream_read_uint32 s;
        Some ((True, [SynchronizeEvent toggleFlags]), s) })"

definition input_recv_keyboard_event :: "STREAM \<Rightarrow> recv_result" where
  "input_recv_keyboard_event s =
     (if stream_get_left s < 6 then Some ((False, []), s)
      else do {
        (keyboardFlags, s) \<leftarrow> stream_read_uint16 s;
        (keyCode, s) \<leftarrow> stream_read_uint16 s;
        let s = stream_seek s 2;
        Some ((True, [KeyboardEvent keyboardFlags keyCode]), s) })"

definition input_recv_unicode_keyboard_event :: "STREAM \<Rightarrow> recv_result" where
  "input_recv_unicode_keyboard_event s =
     (if stream_get_left s < 6 then Some ((False, []), s)
      else do {
        (keyboardFlags, s) \<leftarrow> stream_read_uint16 s;
        (unicodeCode, s) \<leftarrow> stream_read_uint16 s;
        let s = stream_seek s 2;
        let keyboardFlags = (if keyboardFlags AND KBD_FLAGS_RELEASE = 0
                             then keyboardFlags OR KBD_FLAGS_DOWN else keyboardFlags);
        Some ((True, [UnicodeKeyboardEvent keyboardFlags unicodeCode]), s) })"

definition input_recv_mouse_event :: "STREAM \<Rightarrow> recv_result" where
  "input_recv_mouse_event s =
     (if stream_get_left s < 6 then Some ((False, []), s)
      else do {
        (pointerFlags, s) \<leftarrow> stream_read_uint16 s;
        (xPos, s) \<leftarrow> stream_read_uint16 s;
        (yPos, s) \<leftarrow> stream_read_uint16 s;
        Some ((True, [MouseEvent pointerFlags xPos yPos]), s) })"

definition input_recv_extended_mouse_event :: "STREAM \<Rightarrow> recv_result" where
  "input_recv_extended_mouse_event s =
     (if stream_get_left s < 6 then Some ((False, []), s)
      else do {
        (pointerFlags, s) \<leftarrow> stream_read_uint16 s;
        (xPos, s) \<leftarrow> stream_read_uint16 s;
        (yPos, s) \<leftarrow> stream_read_uint16 s;
        Some ((True, [ExtendedMouseEvent pointerFlags xPos yPos]), s) })"

definition input_recv_event :: "STREAM \<Rightarrow> recv_result" where
  "input_recv_event s =
     (if stream_get_left s < 4 then Some ((False, []), s)
      else do {
        let s = stream_seek s 4;
        (messageType, s) \<leftarrow> stream_read_uint16 s;
        (if messageType = INPUT_EVENT_SYNC then input_recv_sync_event s
         else if messageType = INPUT_EVENT_SCANCODE then input_recv_keyboard_event s
         else if messageType = INPUT_EVENT_UNICODE then input_recv_unicode_keyboard_event s
         else if messageType = INPUT_EVENT_MOUSE then input_recv_mouse_event s
         else if messageType = INPUT_EVENT_MOUSEX then input_recv_extended_mouse_event s
         else Some ((True, []), stream_seek s 6)) })"

text \<open>The loop over \<open>n\<close> events stops at the first one that fails.\<close>

fun recv_loop :: "(STREAM \<Rightarrow> recv_result) \<Rightarrow> nat \<Rightarrow> STREAM \<Rightarrow> recv_result" where
  "recv_loop f 0 s = Some ((True, []), s)"
| "recv_loop f (Suc n) s = do {
     ((ok, es), s) \<leftarrow> f s;
     (if \<not> ok then Some ((False, es), s)
      else do {
        ((ok, es'), s) \<leftarrow> recv_loop f n s;
        Some ((ok, es @ es'), s) }) }"

definition input_recv :: "STREAM \<Rightarrow> recv_result" where
  "input_recv s =
     (if stream_get_left s < 4 then Some ((False, []), s)
      else do {
        (numberEvents, s) \<leftarrow> stream_read_uint16 s;
        let s = stream_seek s 2;
        (if stream_get_left s < 6 * uint numberEvents then Some ((False, []), s)
         else recv_loop input_recv_event (unat numberEvents) s) })"

section \<open>What arrives\<close>

definition input_write_body :: "STREAM \<Rightarrow> input_event \<Rightarrow> STREAM option" where
  "input_write_body s e = (case e of
     SynchronizeEvent f \<Rightarrow> input_write_synchronize_event s f
   | KeyboardEvent f c \<Rightarrow> input_write_keyboard_event s f c
   | UnicodeKeyboardEvent f c \<Rightarrow> input_write_unicode_keyboard_event s f c
   | MouseEvent f x y \<Rightarrow> input_write_mouse_event s f x y
   | ExtendedMouseEvent f x y \<Rightarrow> input_write_extended_mouse_event s f x y)"

definition input_message_type :: "input_event \<Rightarrow> u16" where
  "input_message_type e = (case e of
     SynchronizeEvent _ \<Rightarrow> INPUT_EVENT_SYNC
   | KeyboardEvent _ _ \<Rightarrow> INPUT_EVENT_SCANCODE
   | UnicodeKeyboardEvent _ _ \<Rightarrow> INPUT_EVENT_UNICODE
   | MouseEvent _ _ _ \<Rightarrow> INPUT_EVENT_MOUSE
   | ExtendedMouseEvent _ _ _ \<Rightarrow> INPUT_EVENT_MOUSEX)"

text \<open>The event the receiver reports: coordinates clipped at 0, and a Unicode key without
  the release flag counted as pressed.\<close>

definition input_received :: "input_event \<Rightarrow> input_event" where
  "input_received e = (case e of
     UnicodeKeyboardEvent f c \<Rightarrow>
       UnicodeKeyboardEvent (if f AND KBD_FLAGS_RELEASE = 0 then f OR KBD_FLAGS_DOWN else f) c
   | MouseEvent f x y \<Rightarrow> MouseEvent f (max0 x) (max0 y)
   | ExtendedMouseEvent f x y \<Rightarrow> ExtendedMouseEvent f (max0 x) (max0 y)
   | _ \<Rightarrow> e)"

definition input_pdu_write :: "STREAM \<Rightarrow> input_event \<Rightarrow> STREAM option" where
  "input_pdu_write s e = do {
     s \<leftarrow> rdp_write_client_input_pdu_header s 1;
     s \<leftarrow> rdp_write_input_event_header s 0 (input_message_type e);
     input_write_body s e }"

definition le16 :: "u16 \<Rightarrow> u8 list" where "le16 v = [octet 0 v, octet (Suc 0) v]"
definition le32 :: "u32 \<Rightarrow> u8 list" where "le32 v = [octet 0 v, octet (Suc 0) v, octet 2 v, octet 3 v]"

definition input_body_enc :: "input_event \<Rightarrow> u8 list" where
  "input_body_enc e = (case e of
     SynchronizeEvent f \<Rightarrow> 0 # 0 # le32 f
   | KeyboardEvent f c \<Rightarrow> le16 f @ le16 c @ [0, 0]
   | UnicodeKeyboardEvent f c \<Rightarrow> le16 f @ le16 c @ [0, 0]
   | MouseEvent f x y \<Rightarrow> le16 f @ le16 (max0 x) @ le16 (max0 y)
   | ExtendedMouseEvent f x y \<Rightarrow> le16 f @ le16 (max0 x) @ le16 (max0 y))"

definition input_pdu_enc :: "input_event \<Rightarrow> u8 list" where
  "input_pdu_enc e = [1, 0, 0, 0, 0, 0, 0, 0] @ le16 (input_message_type e) @ input_body_enc e"

lemma length_input_body_enc [simp]: "length (input_body_enc e) = 6"
  by (simp add: input_body_enc_def le16_def le32_def split: input_event.split)

lemma length_input_pdu_enc [simp]: "length (input_pdu_enc e) = 16"
  by (simp add: input_pdu_enc_def le16_def)

lemma input_pdu_write_emit [wire]: "input_pdu_write s e = emit (input_pdu_enc e) s"
  by (cases e)
    (simp_all add: input_pdu_write_def input_pdu_enc_def input_write_body_def input_body_enc_def
      rdp_write_client_input_pdu_header_def rdp_write_input_event_header_def
      input_write_synchronize_event_def input_write_keyboard_event_def
      input_write_unicode_keyboard_event_def input_write_mouse_event_def
      input_write_extended_mouse_event_def le16_def le32_def wire octet_def)

lemmas input_recv_defs = input_recv_sync_event_def input_recv_keyboard_event_def
  input_recv_unicode_keyboard_event_def input_recv_mouse_event_def input_recv_extended_mouse_event_def

lemma input_events_bounded:
  assumes "inside s"
  shows "safe_from s (input_recv_sync_event s)" and "safe_from s (input_recv_keyboard_event s)"
    and "safe_from s (input_recv_unicode_keyboard_event s)" and "safe_from s (input_recv_mouse_event s)"
    and "safe_from s (input_recv_extended_mouse_event s)"
  unfolding input_recv_defs Let_def
  using assms by (auto intro!: safe_intro advances_seek inside_seek)

lemma input_recv_event_stm:
  assumes "int (length pre + 12) \<le> sz"
  shows "input_recv_event (stm pre ([a, b, c, d] @ le16 (input_message_type e) @ input_body_enc e @ rst) sz)
    = Some ((True, [input_received e]), stm (pre @ [a, b, c, d] @ le16 (input_message_type e) @ input_body_enc e) rst sz)"
  using assms
  by (cases e)
    (simp_all add: input_recv_event_def stream_get_left_def stream_seek_stm wire input_message_type_def
      input_body_enc_def le16_def le32_def join_u16 join_u32 input_event_defs input_recv_defs
      input_received_def Let_def)

lemma input_recv_stm:
  assumes "int (length pre + 16) \<le> sz"
  shows "input_recv (stm pre (input_pdu_enc e @ rst) sz)
    = Some ((True, [input_received e]), stm (pre @ input_pdu_enc e) rst sz)"
proof -
  let ?h = "[1, 0, 0, 0] :: u8 list"
  let ?e = "[0, 0, 0, 0] @ le16 (input_message_type e) @ input_body_enc e"
  have enc: "input_pdu_enc e = ?h @ ?e" by (simp add: input_pdu_enc_def)
  have ev: "input_recv_event (stm (pre @ ?h) (?e @ rst) sz)
      = Some ((True, [input_received e]), stm (pre @ ?h @ ?e) rst sz)"
    using input_recv_event_stm [of "pre @ ?h" sz 0 0 0 0 e rst] assms by simp
  have "recv_loop input_recv_event (Suc 0) (stm (pre @ ?h) (?e @ rst) sz)
      = Some ((True, [input_received e]), stm (pre @ ?h @ ?e) rst sz)"
    using ev by simp
  moreover have "input_recv (stm pre (?h @ ?e @ rst) sz) = recv_loop input_recv_event (Suc 0) (stm (pre @ ?h) (?e @ rst) sz)"
    using assms by (simp add: input_recv_def stream_get_left_def stream_seek_stm wire)
  ultimately show ?thesis by (simp add: enc)
qed

interpretation input_pdu: sized_codec input_pdu_write input_pdu_enc "\<lambda>_. True" input_recv
  "\<lambda>e. (True, [input_received e])"
  by unfold_locales (simp_all add: wire input_recv_stm)

section \<open>Properties\<close>



text \<open>
  C24: \<open>input_recv_event\<close> asks for four more bytes and then reads six. On received data that fill
  their block exactly it therefore reads outside the block when four or five bytes are left, and
  only then.
\<close>

theorem input_recv_event_overread:
  assumes "inside s" and "s_size s = int (length (s_data s))"
  shows "input_recv_event s = None \<longleftrightarrow> stream_get_left s = 4 \<or> stream_get_left s = 5"
proof (cases "stream_get_left s < 6")
  case True
  then show ?thesis
    using assms
    by (auto simp: input_recv_event_def stream_read_uint16_def byte_at_def stream_get_left_def
        stream_seek_def inside_def Let_def)
next
  case False
  obtain v where "stream_read_uint16 (stream_seek s 4) = Some (v, stream_seek s 6)"
    using read_uint16_inside [OF inside_seek [OF assms(1), of 4]] False by auto
  moreover have "safe_from (stream_seek s 6) (input_recv_sync_event (stream_seek s 6))"
    "safe_from (stream_seek s 6) (input_recv_keyboard_event (stream_seek s 6))"
    "safe_from (stream_seek s 6) (input_recv_unicode_keyboard_event (stream_seek s 6))"
    "safe_from (stream_seek s 6) (input_recv_mouse_event (stream_seek s 6))"
    "safe_from (stream_seek s 6) (input_recv_extended_mouse_event (stream_seek s 6))"
    using input_events_bounded [OF inside_seek [OF assms(1), of 6]] False by auto
  ultimately show ?thesis
    using False by (auto simp: input_recv_event_def safe_from_def)
qed

theorem input_recv_event_overread_witness:
  "input_recv_event (stm [] [0, 0, 0, 0, 4] 5) = None"
  using input_recv_event_overread [of "stm [] [0, 0, 0, 0, 4] 5"]
  by (simp add: inside_def stream_get_left_def)

end
