(* ===== verification/Fastpath.thy ===== *)
theory Fastpath
  imports Per Input_Events
begin

unbundle bit_operations_syntax

text \<open>
  Fast-path packets: the headers of \<^verbatim>\<open>libfreerdp-core/fastpath.c\<close> and the input events a
  server receives (\<open>fastpath_recv_inputs\<close>). The callbacks of \<^verbatim>\<open>rdp_input\<close> are the events listed.
\<close>

section \<open>Headers\<close>

record rdpFastPath =
  encryptionFlags :: u8
  numberEvents :: u8

definition fastpath_header_length :: "STREAM \<Rightarrow> (u16 \<times> STREAM) option" where
  "fastpath_header_length s = do {
     let s = stream_seek s 1;
     (length1, s) \<leftarrow> stream_read_uint8 s;
     let s = stream_rewind s 2;
     Some (if length1 AND 0x80 \<noteq> 0 then 3 else 2, s) }"

definition fastpath_set_header :: "rdpFastPath option \<Rightarrow> u8 \<Rightarrow> rdpFastPath option" where
  "fastpath_set_header fp header = map_option (\<lambda>f. f\<lparr>
     encryptionFlags := drop_bit 6 (header AND 0xC0),
     numberEvents := drop_bit 2 (header AND 0x3C)\<rparr>) fp"

text \<open>\<open>len\<close> is what the uninitialised local variable holds.\<close>

definition fastpath_read_header ::
  "rdpFastPath option \<Rightarrow> STREAM \<Rightarrow> u16 \<Rightarrow> ((u16 \<times> rdpFastPath option) \<times> STREAM) option" where
  "fastpath_read_header fp s len = do {
     (header, s) \<leftarrow> stream_read_uint8 s;
     let fp = fastpath_set_header fp header;
     ((_, len), s) \<leftarrow> per_read_length s len;
     Some ((len, fp), s) }"

definition fastpath_read_update_header :: "STREAM \<Rightarrow> ((u8 \<times> u8 \<times> u8) \<times> STREAM) option" where
  "fastpath_read_update_header s = do {
     (updateHeader, s) \<leftarrow> stream_read_uint8 s;
     Some ((updateHeader AND 0x0F, drop_bit 4 updateHeader AND 0x03, drop_bit 6 updateHeader AND 0x03), s) }"

definition fastpath_write_update_header :: "STREAM \<Rightarrow> u8 \<Rightarrow> u8 \<Rightarrow> u8 \<Rightarrow> STREAM option" where
  "fastpath_write_update_header s updateCode fragmentation compression = do {
     let updateHeader = (0 :: u8);
     let updateHeader = updateHeader OR (updateCode AND 0x0F);
     let updateHeader = updateHeader OR push_bit 4 (fragmentation AND 0x03);
     let updateHeader = updateHeader OR push_bit 6 (compression AND 0x03);
     stream_write_uint8 s updateHeader }"

definition fastpath_read_header_rdp ::
  "rdpFastPath option \<Rightarrow> STREAM \<Rightarrow> ((u16 \<times> rdpFastPath option) \<times> STREAM) option" where
  "fastpath_read_header_rdp fp s = do {
     (header, s) \<leftarrow> stream_read_uint8 s;
     let fp = fastpath_set_header fp header;
     (byte, s) \<leftarrow> stream_read_uint8 s;
     (if byte AND 0x80 \<noteq> 0 then do {
        let len = (ucast (byte AND 0x7F) :: u16);
        (byte, s) \<leftarrow> stream_read_uint8 s;
        let len = push_bit 8 len OR ucast byte;
        Some ((len - 3, fp), s) }
      else Some ((ucast byte - 2, fp), s)) }"

section \<open>Input events\<close>

definition FASTPATH_INPUT_KBDFLAGS_RELEASE :: u8 where "FASTPATH_INPUT_KBDFLAGS_RELEASE = 0x01"
definition FASTPATH_INPUT_KBDFLAGS_EXTENDED :: u8 where "FASTPATH_INPUT_KBDFLAGS_EXTENDED = 0x02"

definition FASTPATH_INPUT_EVENT_SCANCODE :: u8 where "FASTPATH_INPUT_EVENT_SCANCODE = 0x0"
definition FASTPATH_INPUT_EVENT_MOUSE :: u8 where "FASTPATH_INPUT_EVENT_MOUSE = 0x1"
definition FASTPATH_INPUT_EVENT_MOUSEX :: u8 where "FASTPATH_INPUT_EVENT_MOUSEX = 0x2"
definition FASTPATH_INPUT_EVENT_SYNC :: u8 where "FASTPATH_INPUT_EVENT_SYNC = 0x3"
definition FASTPATH_INPUT_EVENT_UNICODE :: u8 where "FASTPATH_INPUT_EVENT_UNICODE = 0x4"

lemmas fastpath_input_defs = FASTPATH_INPUT_KBDFLAGS_RELEASE_def FASTPATH_INPUT_KBDFLAGS_EXTENDED_def
  FASTPATH_INPUT_EVENT_SCANCODE_def FASTPATH_INPUT_EVENT_MOUSE_def FASTPATH_INPUT_EVENT_MOUSEX_def
  FASTPATH_INPUT_EVENT_SYNC_def FASTPATH_INPUT_EVENT_UNICODE_def

definition fastpath_read_input_event_header :: "STREAM \<Rightarrow> ((u8 \<times> u8) option \<times> STREAM) option" where
  "fastpath_read_input_event_header s =
     (if stream_get_left s < 1 then Some (None, s)
      else do {
        (eventHeader, s) \<leftarrow> stream_read_uint8 s;
        Some (Some (eventHeader AND 0x1F, drop_bit 5 eventHeader), s) })"

definition fastpath_recv_input_event_scancode :: "STREAM \<Rightarrow> u8 \<Rightarrow> recv_result" where
  "fastpath_recv_input_event_scancode s eventFlags =
     (if stream_get_left s < 1 then Some ((False, []), s)
      else do {
        (code, s) \<leftarrow> stream_read_uint8 s;
        let flags = (0 :: u16);
        let flags = flags OR (if eventFlags AND FASTPATH_INPUT_KBDFLAGS_RELEASE \<noteq> 0
                              then KBD_FLAGS_RELEASE else KBD_FLAGS_DOWN);
        let flags = (if eventFlags AND FASTPATH_INPUT_KBDFLAGS_EXTENDED \<noteq> 0
                     then flags OR KBD_FLAGS_EXTENDED else flags);
        Some ((True, [KeyboardEvent flags (ucast code)]), s) })"

definition fastpath_recv_input_event_mouse :: "STREAM \<Rightarrow> u8 \<Rightarrow> recv_result" where
  "fastpath_recv_input_event_mouse s eventFlags =
     (if stream_get_left s < 6 then Some ((False, []), s)
      else do {
        (pointerFlags, s) \<leftarrow> stream_read_uint16 s;
        (xPos, s) \<leftarrow> stream_read_uint16 s;
        (yPos, s) \<leftarrow> stream_read_uint16 s;
        Some ((True, [MouseEvent pointerFlags xPos yPos]), s) })"

definition fastpath_recv_input_event_mousex :: "STREAM \<Rightarrow> u8 \<Rightarrow> recv_result" where
  "fastpath_recv_input_event_mousex s eventFlags =
     (if stream_get_left s < 6 then Some ((False, []), s)
      else do {
        (pointerFlags, s) \<leftarrow> stream_read_uint16 s;
        (xPos, s) \<leftarrow> stream_read_uint16 s;
        (yPos, s) \<leftarrow> stream_read_uint16 s;
        Some ((True, [ExtendedMouseEvent pointerFlags xPos yPos]), s) })"

definition fastpath_recv_input_event_sync :: "STREAM \<Rightarrow> u8 \<Rightarrow> recv_result" where
  "fastpath_recv_input_event_sync s eventFlags =
     Some ((True, [SynchronizeEvent (ucast eventFlags)]), s)"

definition fastpath_recv_input_event_unicode :: "STREAM \<Rightarrow> u8 \<Rightarrow> recv_result" where
  "fastpath_recv_input_event_unicode s eventFlags =
     (if stream_get_left s < 2 then Some ((False, []), s)
      else do {
        (unicodeCode, s) \<leftarrow> stream_read_uint16 s;
        let flags = (0 :: u16);
        let flags = flags OR (if eventFlags AND FASTPATH_INPUT_KBDFLAGS_RELEASE \<noteq> 0
                              then KBD_FLAGS_RELEASE else KBD_FLAGS_DOWN);
        Some ((True, [UnicodeKeyboardEvent flags unicodeCode]), s) })"

definition fastpath_recv_input_event :: "STREAM \<Rightarrow> recv_result" where
  "fastpath_recv_input_event s = do {
     (hdr, s) \<leftarrow> fastpath_read_input_event_header s;
     (case hdr of
        None \<Rightarrow> Some ((False, []), s)
      | Some (eventFlags, eventCode) \<Rightarrow>
          (if eventCode = FASTPATH_INPUT_EVENT_SCANCODE then fastpath_recv_input_event_scancode s eventFlags
           else if eventCode = FASTPATH_INPUT_EVENT_MOUSE then fastpath_recv_input_event_mouse s eventFlags
           else if eventCode = FASTPATH_INPUT_EVENT_MOUSEX then fastpath_recv_input_event_mousex s eventFlags
           else if eventCode = FASTPATH_INPUT_EVENT_SYNC then fastpath_recv_input_event_sync s eventFlags
           else if eventCode = FASTPATH_INPUT_EVENT_UNICODE then fastpath_recv_input_event_unicode s eventFlags
           else Some ((True, []), s))) }"

definition fastpath_recv_inputs ::
  "rdpFastPath \<Rightarrow> STREAM \<Rightarrow> ((tbool \<times> input_event list \<times> rdpFastPath) \<times> STREAM) option" where
  "fastpath_recv_inputs fp s =
     (if numberEvents fp = 0 \<and> stream_get_left s < 1 then Some ((False, [], fp), s)
      else do {
        (n, s) \<leftarrow> (if numberEvents fp = 0 then stream_read_uint8 s else Some (numberEvents fp, s));
        let fp = fp\<lparr>numberEvents := n\<rparr>;
        ((ok, es), s) \<leftarrow> recv_loop fastpath_recv_input_event (unat n) s;
        Some ((ok, es, fp), s) })"

section \<open>The parsers stay inside the stream\<close>

lemmas fastpath_event_defs = fastpath_recv_input_event_scancode_def fastpath_recv_input_event_mouse_def
  fastpath_recv_input_event_mousex_def fastpath_recv_input_event_sync_def
  fastpath_recv_input_event_unicode_def

lemma fastpath_events_bounded:
  assumes "inside s"
  shows "safe_from s (fastpath_recv_input_event_scancode s fl)"
    and "safe_from s (fastpath_recv_input_event_mouse s fl)"
    and "safe_from s (fastpath_recv_input_event_mousex s fl)"
    and "safe_from s (fastpath_recv_input_event_sync s fl)"
    and "safe_from s (fastpath_recv_input_event_unicode s fl)"
  unfolding fastpath_event_defs Let_def
  using assms by (auto intro!: safe_intro advances_seek inside_seek)

interpretation fp_hdr: bounded_reader fastpath_read_input_event_header
  by unfold_locales (auto simp: fastpath_read_input_event_header_def intro!: safe_intro advances_seek)

interpretation fp_event: bounded_reader fastpath_recv_input_event
proof
  fix s
  assume "inside s"
  then show "safe_from s (fastpath_recv_input_event s)"
    unfolding fastpath_recv_input_event_def
    by (rule fp_hdr.then_bounded) (auto split: option.split intro!: safe_if fastpath_events_bounded safe_return)
qed

lemma recv_loop_bounded:
  assumes "\<And>s. inside s \<Longrightarrow> safe_from s (f s)"
  shows "inside s \<Longrightarrow> safe_from s (recv_loop f n s)"
proof (induction n arbitrary: s)
  case 0
  then show ?case by (auto intro: safe_intro)
next
  case (Suc n)
  show ?case unfolding recv_loop.simps
    by (rule safe_bind [OF assms [OF Suc.prems]])
      (auto intro!: safe_if safe_return safe_bind [OF Suc.IH])
qed

interpretation fp_inputs: bounded_reader "fastpath_recv_inputs fp" for fp
proof
  fix s
  assume s: "inside s"
  have loop: "safe_from t (Option.bind (recv_loop fastpath_recv_input_event n t)
      (\<lambda>((ok, es), s). Some ((ok, es, fp'), s)))" if "inside t" for t n and fp' :: rdpFastPath
    by (rule safe_bind [OF recv_loop_bounded [OF fp_event.bounded that]]) (auto intro!: safe_return)
  have "safe_from s (if numberEvents fp = 0 then stream_read_uint8 s else Some (numberEvents fp, s))"
    if "\<not> (numberEvents fp = 0 \<and> stream_get_left s < 1)"
    using that s read_uint8_inside [of s] advances_seek [of s 1]
    by (auto simp: safe_from_def)
  then show "safe_from s (fastpath_recv_inputs fp s)"
    unfolding fastpath_recv_inputs_def Let_def
    by (intro safe_if safe_bind) (use s in \<open>auto intro!: loop safe_return\<close>)
qed

lemma fastpath_events_at_most_one:
  "fastpath_recv_input_event_scancode s fl = Some ((ok, es), s') \<Longrightarrow> length es \<le> 1"
  "fastpath_recv_input_event_mouse s fl = Some ((ok, es), s') \<Longrightarrow> length es \<le> 1"
  "fastpath_recv_input_event_mousex s fl = Some ((ok, es), s') \<Longrightarrow> length es \<le> 1"
  "fastpath_recv_input_event_sync s fl = Some ((ok, es), s') \<Longrightarrow> length es \<le> 1"
  "fastpath_recv_input_event_unicode s fl = Some ((ok, es), s') \<Longrightarrow> length es \<le> 1"
  unfolding fastpath_event_defs Let_def
  by (auto simp: bind_eq_Some_iff split: if_split_asm)

lemma fastpath_event_at_most_one:
  assumes "fastpath_recv_input_event s = Some ((ok, es), s')"
  shows "length es \<le> 1"
proof -
  from assms obtain hdr t where "fastpath_read_input_event_header s = Some (hdr, t)"
    by (auto simp: fastpath_recv_input_event_def bind_eq_Some_iff)
  with assms show ?thesis
    by (cases hdr) (auto simp: fastpath_recv_input_event_def split: if_split_asm
        dest!: fastpath_events_at_most_one)
qed

lemma recv_loop_length:
  assumes "\<And>s ok es s'. f s = Some ((ok, es), s') \<Longrightarrow> length es \<le> 1"
  shows "recv_loop f n s = Some ((ok, es), s') \<Longrightarrow> length es \<le> n"
proof (induction n arbitrary: s ok es)
  case (Suc n)
  from Suc.prems obtain ok1 es1 s1 where 1: "f s = Some ((ok1, es1), s1)"
    by (auto simp: bind_eq_Some_iff)
  with assms have "length es1 \<le> 1" by blast
  with Suc.prems 1 show ?case
    by (auto simp: bind_eq_Some_iff split: if_splits dest!: Suc.IH)
qed simp

lemma fastpath_inputs_count:
  assumes "fastpath_recv_inputs fp s = Some ((ok, es, fp'), s')"
  shows "length es < 256"
proof -
  have "es = [] \<or> (\<exists>n :: u8. \<exists>t. recv_loop fastpath_recv_input_event (unat n) t = Some ((ok, es), s'))"
    using assms by (auto simp: fastpath_recv_inputs_def bind_eq_Some_iff split: if_splits)
  then show ?thesis
  proof
    assume "\<exists>n :: u8. \<exists>t. recv_loop fastpath_recv_input_event (unat n) t = Some ((ok, es), s')"
    then obtain n :: u8 and t where "recv_loop fastpath_recv_input_event (unat n) t = Some ((ok, es), s')"
      by blast
    from recv_loop_length [OF _ this] have "length es \<le> unat n"
      using fastpath_event_at_most_one by blast
    also have "\<dots> < 256" by (rule unat_u8_less)
    finally show ?thesis .
  qed simp
qed

section \<open>Properties\<close>

text \<open>
  C22: whatever bytes a client sends, \<open>fastpath_recv_inputs\<close> returns, reads nothing outside the
  received data, moves the cursor forward only, and reports at most 255 events.
\<close>

theorem fastpath_inputs_safe:
  assumes "inside s"
  shows "\<exists>ok es fp' s'. fastpath_recv_inputs fp s = Some ((ok, es, fp'), s') \<and> advances s s'
    \<and> length es \<le> 255"
proof -
  from fp_inputs.bounded [OF assms, of fp] obtain ok es fp' s' where
    r: "fastpath_recv_inputs fp s = Some ((ok, es, fp'), s')" and "advances s s'"
    by (auto simp: safe_from_def)
  moreover have "length es \<le> 255"
    using fastpath_inputs_count [OF r] by simp
  ultimately show ?thesis by blast
qed

theorem fastpath_inputs_safe_witness:
  "\<exists>ok es fp' s'. fastpath_recv_inputs \<lparr>encryptionFlags = 0, numberEvents = 2\<rparr> (stm [] [0x01, 0x1E, 0x20] 3)
    = Some ((ok, es, fp'), s') \<and> advances (stm [] [0x01, 0x1E, 0x20] 3) s' \<and> length es \<le> 255"
  using fastpath_inputs_safe [of "stm [] [0x01, 0x1E, 0x20] 3"] by (simp add: inside_def)

end
