(* ===== verification/Tpkt_Tpdu.thy ===== *)
theory Tpkt_Tpdu
  imports Wire_Stream
begin

text \<open>
  RFC 1006 packets (\<^verbatim>\<open>libfreerdp-core/tpkt.c\<close>) and X.224 data units
  (\<^verbatim>\<open>libfreerdp-core/tpdu.c\<close>), the framing below the MCS layer and the security negotiation.
\<close>

section \<open>Operations\<close>

definition TPKT_HEADER_LENGTH :: int where "TPKT_HEADER_LENGTH = 4"

definition tpkt_verify_header :: "STREAM \<Rightarrow> tbool option" where
  "tpkt_verify_header s = do {
     version \<leftarrow> stream_peek_uint8 s;
     (if version = 3 then Some True else Some False) }"

definition tpkt_read_header :: "STREAM \<Rightarrow> (u16 \<times> STREAM) option" where
  "tpkt_read_header s = do {
     version \<leftarrow> stream_peek_uint8 s;
     (if version = 3 then do {
        let s = stream_seek s 2;
        stream_read_uint16_be s }
      else Some (0, s)) }"

definition tpkt_write_header :: "STREAM \<Rightarrow> u16 \<Rightarrow> STREAM option" where
  "tpkt_write_header s len = do {
     s \<leftarrow> stream_write_uint8 s (3 :: u8);
     s \<leftarrow> stream_write_uint8 s (0 :: u8);
     stream_write_uint16_be s len }"

definition X224_TPDU_CONNECTION_REQUEST :: u8 where "X224_TPDU_CONNECTION_REQUEST = 0xE0"
definition X224_TPDU_CONNECTION_CONFIRM :: u8 where "X224_TPDU_CONNECTION_CONFIRM = 0xD0"
definition X224_TPDU_DISCONNECT_REQUEST :: u8 where "X224_TPDU_DISCONNECT_REQUEST = 0x80"
definition X224_TPDU_DATA :: u8 where "X224_TPDU_DATA = 0xF0"

definition TPDU_DATA_HEADER_LENGTH :: int where "TPDU_DATA_HEADER_LENGTH = 3"
definition TPDU_CONNECTION_REQUEST_HEADER_LENGTH :: int where
  "TPDU_CONNECTION_REQUEST_HEADER_LENGTH = 7"
definition TPDU_CONNECTION_CONFIRM_HEADER_LENGTH :: int where
  "TPDU_CONNECTION_CONFIRM_HEADER_LENGTH = 7"
definition TPDU_DATA_LENGTH :: int where
  "TPDU_DATA_LENGTH = TPKT_HEADER_LENGTH + TPDU_DATA_HEADER_LENGTH"
definition TPDU_CONNECTION_REQUEST_LENGTH :: int where
  "TPDU_CONNECTION_REQUEST_LENGTH = TPKT_HEADER_LENGTH + TPDU_CONNECTION_REQUEST_HEADER_LENGTH"
definition TPDU_CONNECTION_CONFIRM_LENGTH :: int where
  "TPDU_CONNECTION_CONFIRM_LENGTH = TPKT_HEADER_LENGTH + TPDU_CONNECTION_CONFIRM_HEADER_LENGTH"

lemmas tpdu_length_defs = TPDU_DATA_LENGTH_def TPDU_CONNECTION_REQUEST_LENGTH_def
  TPDU_CONNECTION_CONFIRM_LENGTH_def TPDU_DATA_HEADER_LENGTH_def
  TPDU_CONNECTION_REQUEST_HEADER_LENGTH_def TPDU_CONNECTION_CONFIRM_HEADER_LENGTH_def
  TPKT_HEADER_LENGTH_def

lemmas x224_const = X224_TPDU_CONNECTION_REQUEST_def X224_TPDU_CONNECTION_CONFIRM_def
  X224_TPDU_DISCONNECT_REQUEST_def X224_TPDU_DATA_def

definition tpdu_read_header :: "STREAM \<Rightarrow> ((u8 \<times> u8) \<times> STREAM) option" where
  "tpdu_read_header s = do {
     (li, s) \<leftarrow> stream_read_uint8 s;
     (code, s) \<leftarrow> stream_read_uint8 s;
     (if code = X224_TPDU_DATA then Some ((li, code), stream_seek s 1)
      else Some ((li, code), stream_seek s 5)) }"

definition tpdu_write_header :: "STREAM \<Rightarrow> u16 \<Rightarrow> u8 \<Rightarrow> STREAM option" where
  "tpdu_write_header s len code = do {
     s \<leftarrow> stream_write_uint8 s len;
     s \<leftarrow> stream_write_uint8 s code;
     (if code = X224_TPDU_DATA then stream_write_uint8 s (0x80 :: u8)
      else do {
        s \<leftarrow> stream_write_uint16 s (0 :: u16);
        s \<leftarrow> stream_write_uint16 s (0 :: u16);
        stream_write_uint8 s (0 :: u8) }) }"

definition tpdu_read_connection_request :: "STREAM \<Rightarrow> (u8 \<times> STREAM) option" where
  "tpdu_read_connection_request s = do {
     ((li, code), s) \<leftarrow> tpdu_read_header s;
     (if code \<noteq> X224_TPDU_CONNECTION_REQUEST then Some (0, s) else Some (li, s)) }"

definition tpdu_write_connection_request :: "STREAM \<Rightarrow> u16 \<Rightarrow> STREAM option" where
  "tpdu_write_connection_request s len = tpdu_write_header s len X224_TPDU_CONNECTION_REQUEST"

definition tpdu_read_connection_confirm :: "STREAM \<Rightarrow> (u8 \<times> STREAM) option" where
  "tpdu_read_connection_confirm s = do {
     ((li, code), s) \<leftarrow> tpdu_read_header s;
     (if code \<noteq> X224_TPDU_CONNECTION_CONFIRM then Some (0, s) else Some (li, s)) }"

definition tpdu_write_connection_confirm :: "STREAM \<Rightarrow> u16 \<Rightarrow> STREAM option" where
  "tpdu_write_connection_confirm s len = tpdu_write_header s len X224_TPDU_CONNECTION_CONFIRM"

definition tpdu_write_disconnect_request :: "STREAM \<Rightarrow> u16 \<Rightarrow> STREAM option" where
  "tpdu_write_disconnect_request s len = tpdu_write_header s len X224_TPDU_DISCONNECT_REQUEST"

definition tpdu_write_data :: "STREAM \<Rightarrow> STREAM option" where
  "tpdu_write_data s = tpdu_write_header s 2 X224_TPDU_DATA"

definition tpdu_read_data :: "STREAM \<Rightarrow> (u16 \<times> STREAM) option" where
  "tpdu_read_data s = do {
     ((li, code), s) \<leftarrow> tpdu_read_header s;
     (if code \<noteq> X224_TPDU_DATA then Some (0, s) else Some (ucast li, s)) }"

section \<open>Encodings\<close>

lemma tpkt_write_header_emit [wire]:
  "tpkt_write_header s len = emit [3, 0, octet (Suc 0) len, octet 0 len] s"
  by (simp add: tpkt_write_header_def wire)

lemma tpkt_read_header_stm [wire]:
  "tpkt_read_header (stm pre (3 # r # a # b # rst) sz)
     = Some (push_bit 8 (ucast a) + ucast b, stm (pre @ [3, r, a, b]) rst sz)"
  by (simp add: tpkt_read_header_def wire stream_seek_stm)

lemma tpkt_read_header_other [wire]:
  "v \<noteq> 3 \<Longrightarrow> tpkt_read_header (stm pre (v # rst) sz) = Some (0, stm pre (v # rst) sz)"
  by (simp add: tpkt_read_header_def wire)

interpretation tpkt: wire_codec tpkt_write_header "\<lambda>n. [3, 0, octet (Suc 0) n, octet 0 n]" "\<lambda>_. True"
  tpkt_read_header id
  by unfold_locales (simp_all add: wire join_u16_be)

definition tpdu_header_enc :: "u16 \<Rightarrow> u8 \<Rightarrow> u8 list" where
  "tpdu_header_enc n code = octet 0 n # code # (if code = X224_TPDU_DATA then [0x80] else [0, 0, 0, 0, 0])"

lemma tpdu_write_header_emit [wire]:
  "tpdu_write_header s n code = emit (tpdu_header_enc n code) s"
  by (simp add: tpdu_write_header_def tpdu_header_enc_def wire)

lemma tpdu_read_header_stm [wire]:
  "tpdu_read_header (stm pre (tpdu_header_enc n code @ rst) sz)
     = Some ((octet 0 n, code), stm (pre @ tpdu_header_enc n code) rst sz)"
  by (simp add: tpdu_read_header_def tpdu_header_enc_def wire stream_seek_stm)

interpretation tpdu: wire_codec "\<lambda>s (n, code). tpdu_write_header s n code"
  "\<lambda>(n, code). tpdu_header_enc n code" "\<lambda>_. True" tpdu_read_header "\<lambda>(n, code). (octet 0 n, code)"
  by unfold_locales (auto simp: wire)

text \<open>A data packet: both headers in sequence.\<close>

interpretation tpkt_tpdu: wire_codec_pair tpkt_write_header
  "\<lambda>n. [3, 0, octet (Suc 0) n, octet 0 n]" "\<lambda>_. True" tpkt_read_header id
  "\<lambda>s (n, code). tpdu_write_header s n code" "\<lambda>(n, code). tpdu_header_enc n code" "\<lambda>_. True"
  tpdu_read_header "\<lambda>(n, code). (octet 0 n, code)"
  by unfold_locales

section \<open>Properties\<close>

text \<open>
  C34: a packet made of a TPKT header for length \<open>n\<close> and an X.224 header with code \<open>code\<close> is read
  back by the TPKT reader as \<open>n\<close>, and of the readers of the three kinds of data units exactly the
  one for \<open>code\<close> returns the length indicator (the low byte of \<open>li\<close>, at most 255); the others
  return 0. All of them stop behind the same byte.
\<close>

theorem tpdu_readers_select:
  assumes "tpkt_write_header (stm pre rst sz) n = Some s1" and "tpdu_write_header s1 li code = Some s2"
  shows "\<exists>t. tpkt_read_header (stream_set_pos s2 (int (length pre))) = Some (n, t)
    \<and> tpdu_read_connection_request t = Some (if code = X224_TPDU_CONNECTION_REQUEST then octet 0 li else 0, s2)
    \<and> tpdu_read_connection_confirm t = Some (if code = X224_TPDU_CONNECTION_CONFIRM then octet 0 li else 0, s2)
    \<and> tpdu_read_data t = Some (if code = X224_TPDU_DATA then ucast (octet 0 li) else 0, s2)"
proof -
  let ?h = "[3, 0, octet (Suc 0) n, octet 0 n]" and ?u = "tpdu_header_enc li code"
  from assms obtain rst' where s2: "s2 = stm (pre @ ?h @ ?u) rst' sz"
    by (auto simp: wire emit_stm split: if_splits)
  have "stream_set_pos s2 (int (length pre)) = stm pre ((?h @ ?u) @ rst') sz"
    unfolding s2 by (rule stream_set_pos_stm) simp
  then have "tpkt_read_header (stream_set_pos s2 (int (length pre))) = Some (n, stm (pre @ ?h) (?u @ rst') sz)"
    by (simp add: wire join_u16_be)
  then show ?thesis
    by (simp add: s2 tpdu_read_connection_request_def tpdu_read_connection_confirm_def
        tpdu_read_data_def tpdu_read_header_stm)
qed

theorem tpdu_readers_select_witness:
  "\<exists>t. tpkt_read_header (stm [] [3, 0, 0, 19, 14, 0xD0, 0, 0, 0, 0, 0] 11) = Some (19, t)
    \<and> tpdu_read_connection_confirm t = Some (14, stm [3, 0, 0, 19, 14, 0xD0, 0, 0, 0, 0, 0] [] 11)
    \<and> tpdu_read_data t = Some (0, stm [3, 0, 0, 19, 14, 0xD0, 0, 0, 0, 0, 0] [] 11)"
proof -
  have 1: "tpkt_write_header (stm [] [0, 0, 0, 0, 0, 0, 0, 0, 0, 0, 0] 11) 19
      = Some (stm [3, 0, 0, 19] [0, 0, 0, 0, 0, 0, 0] 11)"
    by (simp add: wire emit_stm octet_def)
  have 2: "tpdu_write_header (stm [3, 0, 0, 19] [0, 0, 0, 0, 0, 0, 0] 11) 14 0xD0
      = Some (stm [3, 0, 0, 19, 14, 0xD0, 0, 0, 0, 0, 0] [] 11)"
    by (simp add: wire emit_stm tpdu_header_enc_def x224_const octet_def)
  show ?thesis
    using tpdu_readers_select [OF 1 2] by (auto simp: stream_set_pos_start x224_const octet_def)
qed

end
