(* ===== verification/Transport.thy ===== *)
theory Transport
  imports Settings Fastpath Tpkt_Tpdu
begin

unbundle bit_operations_syntax

text \<open>
  The transport layer: \<^verbatim>\<open>libfreerdp-core/transport.c\<close> with the socket and TLS wrappers it calls
  (\<^verbatim>\<open>tcp.c\<close>, \<^verbatim>\<open>tls.c\<close>, the entry points of \<^verbatim>\<open>tsg.c\<close>). The operating system, OpenSSL, the
  CredSSP exchange and the RPC-over-HTTP gateway are outside: \<open>NET\<close> holds the outcomes of the
  calls into them as scripts, consumed call by call, and every theorem ranges over all scripts.
  An exhausted script is a peer that has gone away. \<^term>\<open>None\<close> is an invalid memory access.
\<close>

section \<open>The environment\<close>

datatype recv_event = Recv_data "u8 list" | Recv_again | Recv_error
datatype send_event = Send_ok nat | Send_again | Send_error
datatype conn_event = Conn_unresolved | Conn_refused | Conn_ok int

record NET =
  net_recv :: "recv_event list"
  net_send :: "send_event list"
  net_conn :: "conn_event list"
  net_tls :: "tbool list"
  net_credssp :: "int list"
  net_tsg :: "tbool list"
  net_skip :: "tbool list"
  net_rpch :: "int list"
  net_fcntl :: "tbool list"
  net_sent :: "u8 list"
  net_rpc_sent :: "u8 list list"

text \<open>
  \<open>recv\<close> and \<open>SSL_read\<close>: the number of bytes or a negative value, whether a failure means
  "try again", and the bytes stored. A chunk longer than the buffer stays for the next call.
\<close>

definition os_recv :: "NET \<Rightarrow> int \<Rightarrow> (int \<times> bool \<times> u8 list) \<times> NET" where
  "os_recv n len = (case net_recv n of
     [] \<Rightarrow> ((0, False, []), n)
   | Recv_again # es \<Rightarrow> ((-1, True, []), n\<lparr>net_recv := es\<rparr>)
   | Recv_error # es \<Rightarrow> ((-1, False, []), n\<lparr>net_recv := es\<rparr>)
   | Recv_data bs # es \<Rightarrow>
       ((int (length (take (nat len) bs)), False, take (nat len) bs),
        n\<lparr>net_recv := (if drop (nat len) bs = [] then es else Recv_data (drop (nat len) bs) # es)\<rparr>))"

text \<open>\<open>send\<close> and \<open>SSL_write\<close>: the peer takes a prefix of the data.\<close>

definition os_send :: "NET \<Rightarrow> u8 list \<Rightarrow> (int \<times> bool) \<times> NET" where
  "os_send n bs = (case net_send n of
     [] \<Rightarrow> ((-1, False), n)
   | Send_again # es \<Rightarrow> ((-1, True), n\<lparr>net_send := es\<rparr>)
   | Send_error # es \<Rightarrow> ((-1, False), n\<lparr>net_send := es\<rparr>)
   | Send_ok k # es \<Rightarrow> ((int (length (take k bs)), False),
       n\<lparr>net_send := es, net_sent := net_sent n @ take k bs\<rparr>))"

section \<open>Sockets\<close>

record rdpTcp =
  tcp_sockfd :: int

definition tcp_new :: rdpTcp where
  "tcp_new = \<lparr>tcp_sockfd = -1\<rparr>"

definition tcp_connect :: "rdpTcp \<Rightarrow> NET \<Rightarrow> (tbool \<times> rdpTcp) \<times> NET" where
  "tcp_connect tcp n = (case net_conn n of
     [] \<Rightarrow> ((False, tcp), n)
   | Conn_unresolved # es \<Rightarrow> ((False, tcp), n\<lparr>net_conn := es\<rparr>)
   | Conn_refused # es \<Rightarrow> ((False, tcp\<lparr>tcp_sockfd := -1\<rparr>), n\<lparr>net_conn := es\<rparr>)
   | Conn_ok fd # es \<Rightarrow>
       (if fd = -1 then ((False, tcp\<lparr>tcp_sockfd := -1\<rparr>), n\<lparr>net_conn := es\<rparr>)
        else ((True, tcp\<lparr>tcp_sockfd := fd\<rparr>), n\<lparr>net_conn := es\<rparr>)))"

definition tcp_read :: "NET \<Rightarrow> int \<Rightarrow> (int \<times> u8 list) \<times> NET" where
  "tcp_read n len =
     (let ((status, again, bs), n) = os_recv n len
      in if status = 0 then ((-1, bs), n)
         else if status < 0 then (if again then ((0, bs), n) else ((-1, bs), n))
         else ((status, bs), n))"

definition tcp_write :: "NET \<Rightarrow> u8 list \<Rightarrow> int \<times> NET" where
  "tcp_write n bs =
     (let ((status, again), n) = os_send n bs
      in (if status < 0 then (if again then 0 else status) else status, n))"

definition tcp_disconnect :: "rdpTcp \<Rightarrow> rdpTcp" where
  "tcp_disconnect tcp = (if tcp_sockfd tcp \<noteq> -1 then tcp\<lparr>tcp_sockfd := -1\<rparr> else tcp)"

text \<open>Only whether the flags of the socket could be read is visible to the caller.\<close>

definition tcp_set_blocking_mode :: "NET \<Rightarrow> tbool \<times> NET" where
  "tcp_set_blocking_mode n =
     (case net_fcntl n of [] \<Rightarrow> (False, n) | b # es \<Rightarrow> (b, n\<lparr>net_fcntl := es\<rparr>))"

section \<open>TLS\<close>

record rdpTls =
  tls_sockfd :: int
  read_extra :: "STREAM option"

definition tls_new :: rdpTls where
  "tls_new = \<lparr>tls_sockfd = 0, read_extra = None\<rparr>"

definition tls_connect :: "NET \<Rightarrow> tbool \<times> NET" where
  "tls_connect n = (case net_tls n of [] \<Rightarrow> (False, n) | b # es \<Rightarrow> (b, n\<lparr>net_tls := es\<rparr>))"

function tls_read :: "rdpTls option \<Rightarrow> NET \<Rightarrow> int \<Rightarrow> ((int \<times> u8 list) \<times> rdpTls option \<times> NET) option" where
  "tls_read tls n len = (case tls of
     None \<Rightarrow> Some ((-1, []), None, n)
   | Some r \<Rightarrow>
       (if len < 1 then Some ((0, []), tls, n)
        else case read_extra r of
          Some x \<Rightarrow>
            (let left = stream_get_left x
             in if len < left then do {
                  bs \<leftarrow> block_read (s_data x) (s_p x) len;
                  Some ((len, bs), Some (r\<lparr>read_extra := Some (x\<lparr>s_p := s_p x + len\<rparr>)\<rparr>), n) }
                else do {
                  bs \<leftarrow> block_read (s_data x) (s_p x) left;
                  ((status, bs2), tls, n) \<leftarrow> tls_read (Some (r\<lparr>read_extra := None\<rparr>)) n (len - left);
                  (if status < 0 then Some ((-1, bs @ bs2), tls, n)
                   else Some ((left + status, bs @ bs2), tls, n)) })
        | None \<Rightarrow>
            (let ((status, again, bs), n) = os_recv n len
             in if status > 0 then Some ((status, bs), tls, n)
                else if status = 0 then Some ((-1, bs), tls, n)
                else if again then Some ((0, bs), tls, n)
                else Some ((-1, bs), tls, n))))"
  by pat_completeness auto
termination
  by (relation "measure (\<lambda>(tls, _, _). case tls of None \<Rightarrow> 0 | Some r \<Rightarrow>
        (case read_extra r of None \<Rightarrow> 0 | Some _ \<Rightarrow> 1))") auto

declare tls_read.simps [simp del]

definition tls_return :: "rdpTls \<Rightarrow> u8 list \<Rightarrow> int \<Rightarrow> (int \<times> rdpTls) option" where
  "tls_return tls d len =
     (if len < 1 then Some (0, tls)
      else do {
        bs \<leftarrow> block_read d 0 len;
        (case read_extra tls of
           None \<Rightarrow> do {
             let x = stream_new len;
             Some (0, tls\<lparr>read_extra := Some (x\<lparr>s_data := overwrite (s_data x) 0 bs\<rparr>)\<rparr>) }
         | Some x \<Rightarrow> do {
             old \<leftarrow> block_read (s_data x) 0 (s_size x);
             Some (0, tls\<lparr>read_extra := Some (x\<lparr>s_size := s_size x + len, s_data := old @ bs\<rparr>)\<rparr>) }) })"

definition tls_write :: "NET \<Rightarrow> u8 list \<Rightarrow> int \<times> NET" where
  "tls_write n bs =
     (let ((status, again), n) = os_send n bs
      in if status > 0 then (status, n)
         else if status = 0 then (-1, n)
         else if again then (0, n)
         else (-1, n))"

section \<open>The gateway\<close>

record rdpTsg =
  channelContext :: "u8 list"

definition rpch_write_call :: "NET \<Rightarrow> u8 list \<Rightarrow> int \<times> NET" where
  "rpch_write_call n pkg = (case net_rpch n of
     [] \<Rightarrow> (-1, n)
   | st # es \<Rightarrow> (st, n\<lparr>net_rpch := es, net_rpc_sent := net_rpc_sent n @ [pkg]\<rparr>))"

definition tsg_write :: "rdpTsg \<Rightarrow> NET \<Rightarrow> u8 list \<Rightarrow> (int \<times> NET) option" where
  "tsg_write tsg n bs = do {
     let len = (word_of_nat (length bs) :: u32);
     let s = stream_new 12;
     s \<leftarrow> stream_write_uint32_be s (len + 4);
     s \<leftarrow> stream_write_uint32_be s (0x01 :: u32);
     s \<leftarrow> stream_write_uint32_be s len;
     let pkg = replicate 4 0 @ take 16 (channelContext tsg) @ s_data s @ bs
                 @ [0x01, 0x00, 0x08, 0x00, 0x00, 0x00, 0x00, 0x00];
     let (status, n) = rpch_write_call n pkg;
     (if status \<le> 0 then Some (-1, n) else Some (int (length bs), n)) }"

text \<open>
  \<open>tsg_skip_pdu\<close> reads a twenty-byte header; whether the packet is one to skip is decided by the
  gateway's state, a script here. For a packet that is not skipped it leaves the cursor behind the
  24-byte header.
\<close>

definition tsg_skip_pdu_call :: "NET \<Rightarrow> STREAM \<Rightarrow> (tbool \<times> STREAM) \<times> NET" where
  "tsg_skip_pdu_call n s = (case net_skip n of
     [] \<Rightarrow> ((False, stream_seek s 24), n)
   | b # es \<Rightarrow> ((b, stream_seek s (if b then 20 else 24)), n\<lparr>net_skip := es\<rparr>))"

section \<open>State\<close>

datatype TRANSPORT_LAYER = TRANSPORT_LAYER_TCP | TRANSPORT_LAYER_TLS | TRANSPORT_LAYER_TSG
  | TRANSPORT_LAYER_CLOSED

text \<open>\<open>tcp_out\<close> is null, the same object as \<open>tcp_in\<close>, or a second connection.\<close>

datatype tcp_ref = Tcp_null | Tcp_same | Tcp_own rdpTcp

text \<open>\<open>credssp\<close> is freed after the authentication but the pointer is kept.\<close>

datatype credssp_ref = Credssp_null | Credssp_live | Credssp_freed

record rdpTransport =
  t_recv_stream :: STREAM
  t_send_stream :: STREAM
  t_layer :: TRANSPORT_LAYER
  t_tcp_in :: rdpTcp
  t_tcp_out :: tcp_ref
  t_tls_in :: "rdpTls option"
  t_tls_out :: "rdpTls option"
  t_settings :: rdpSettings
  t_credssp :: credssp_ref
  t_tsg :: "rdpTsg option"
  t_recv_buffer :: STREAM
  t_blocking :: tbool
  t_level :: int
  t_proc_buffer :: STREAM
  t_net :: NET

definition BUFFER_SIZE :: int where "BUFFER_SIZE = 16384 * 2"

definition transport_new :: "rdpSettings \<Rightarrow> NET \<Rightarrow> rdpTransport" where
  "transport_new settings n =
     \<lparr>t_recv_stream = stream_new BUFFER_SIZE, t_send_stream = stream_new BUFFER_SIZE,
      t_layer = TRANSPORT_LAYER_TCP, t_tcp_in = tcp_new, t_tcp_out = Tcp_null,
      t_tls_in = None, t_tls_out = None, t_settings = settings, t_credssp = Credssp_null,
      t_tsg = None, t_recv_buffer = stream_new BUFFER_SIZE, t_blocking = True, t_level = 0,
      t_proc_buffer = stream_new BUFFER_SIZE, t_net = n\<rparr>"

definition transport_recv_stream_init :: "rdpTransport \<Rightarrow> int \<Rightarrow> (STREAM \<times> rdpTransport) option" where
  "transport_recv_stream_init t sz = do {
     s \<leftarrow> stream_check_size (t_recv_stream t) sz;
     let s = stream_set_pos s 0;
     Some (s, t\<lparr>t_recv_stream := s\<rparr>) }"

definition transport_send_stream_init :: "rdpTransport \<Rightarrow> int \<Rightarrow> (STREAM \<times> rdpTransport) option" where
  "transport_send_stream_init t sz = do {
     s \<leftarrow> stream_check_size (t_send_stream t) sz;
     let s = stream_set_pos s 0;
     Some (s, t\<lparr>t_send_stream := s\<rparr>) }"

section \<open>Connecting\<close>

definition transport_tls_connect :: "rdpTransport \<Rightarrow> tbool \<times> rdpTransport" where
  "transport_tls_connect t = (let (b, n) = tls_connect (t_net t) in (b, t\<lparr>t_net := n\<rparr>))"

definition transport_tsg_connect :: "rdpTransport \<Rightarrow> (tbool \<times> rdpTransport) option" where
  "transport_tsg_connect t = do {
     let t = t\<lparr>t_tsg := Some \<lparr>channelContext = replicate 16 0\<rparr>\<rparr>;
     let tls = (case t_tls_in t of None \<Rightarrow> tls_new | Some r \<Rightarrow> r);
     let t = t\<lparr>t_tls_in := Some (tls\<lparr>tls_sockfd := tcp_sockfd (t_tcp_in t)\<rparr>)\<rparr>;
     fd \<leftarrow> (case t_tcp_out t of Tcp_null \<Rightarrow> None | Tcp_same \<Rightarrow> Some (tcp_sockfd (t_tcp_in t))
            | Tcp_own r \<Rightarrow> Some (tcp_sockfd r));
     let tls = (case t_tls_out t of None \<Rightarrow> tls_new | Some r \<Rightarrow> r);
     let t = t\<lparr>t_tls_out := Some (tls\<lparr>tls_sockfd := fd\<rparr>)\<rparr>;
     let (b, t) = transport_tls_connect t;
     (if \<not> b then Some (False, t)
      else do {
        let (b, t) = transport_tls_connect t;
        (if \<not> b then Some (False, t)
         else (case net_tsg (t_net t) of
             [] \<Rightarrow> Some (False, t)
           | b # es \<Rightarrow> Some (b, t\<lparr>t_net := (t_net t)\<lparr>net_tsg := es\<rparr>\<rparr>))) }) }"

definition transport_connect :: "rdpTransport \<Rightarrow> (tbool \<times> rdpTransport) option" where
  "transport_connect t =
     (if set_tsg (t_settings t) then do {
        let t = t\<lparr>t_layer := TRANSPORT_LAYER_TSG, t_tcp_out := Tcp_own tcp_new\<rparr>;
        let ((b, tcp), n) = tcp_connect (t_tcp_in t) (t_net t);
        let t = t\<lparr>t_tcp_in := tcp, t_net := n\<rparr>;
        (if b then do {
           let ((b, tcp), n) = tcp_connect tcp_new (t_net t);
           let t = t\<lparr>t_tcp_out := Tcp_own tcp, t_net := n\<rparr>;
           (if b then transport_tsg_connect t else Some (False, t)) }
         else Some (False, t)) }
      else do {
        let t = t\<lparr>t_tcp_out := Tcp_same\<rparr>;
        let ((b, tcp), n) = tcp_connect (t_tcp_in t) (t_net t);
        Some (b, t\<lparr>t_tcp_in := tcp, t_net := n\<rparr>) })"

definition transport_attach :: "rdpTransport \<Rightarrow> int \<Rightarrow> rdpTransport" where
  "transport_attach t fd = t\<lparr>t_tcp_in := (t_tcp_in t)\<lparr>tcp_sockfd := fd\<rparr>\<rparr>"

definition transport_disconnect :: "rdpTransport \<Rightarrow> (tbool \<times> rdpTransport) option" where
  "transport_disconnect t =
     (if t_layer t = TRANSPORT_LAYER_TLS \<and> t_tls_in t = None then None
      else Some (True, t\<lparr>t_tcp_in := tcp_disconnect (t_tcp_in t)\<rparr>))"

definition transport_connect_rdp :: "rdpTransport \<Rightarrow> tbool" where
  "transport_connect_rdp t = True"

definition transport_connect_tls :: "rdpTransport \<Rightarrow> tbool \<times> rdpTransport" where
  "transport_connect_tls t =
     (let tls = (case t_tls_in t of None \<Rightarrow> tls_new | Some r \<Rightarrow> r);
          t = t\<lparr>t_layer := TRANSPORT_LAYER_TLS,
               t_tls_in := Some (tls\<lparr>tls_sockfd := tcp_sockfd (t_tcp_in t)\<rparr>)\<rparr>
      in transport_tls_connect t)"

definition transport_connect_nla :: "rdpTransport \<Rightarrow> (tbool \<times> rdpTransport) option" where
  "transport_connect_nla t = do {
     let tls = (case t_tls_in t of None \<Rightarrow> tls_new | Some r \<Rightarrow> r);
     let t = t\<lparr>t_layer := TRANSPORT_LAYER_TLS,
               t_tls_in := Some (tls\<lparr>tls_sockfd := tcp_sockfd (t_tcp_in t)\<rparr>)\<rparr>;
     let (b, t) = transport_tls_connect t;
     (if \<not> b then Some (False, t)
      else if \<not> set_authentication (t_settings t) then Some (True, t)
      else do {
        let t = (if t_credssp t = Credssp_null then t\<lparr>t_credssp := Credssp_live\<rparr> else t);
        (if t_credssp t = Credssp_freed then None
         else (case net_credssp (t_net t) of
             [] \<Rightarrow> Some (False, t\<lparr>t_credssp := Credssp_freed\<rparr>)
           | st # es \<Rightarrow> Some (\<not> st < 0,
               t\<lparr>t_credssp := Credssp_freed, t_net := (t_net t)\<lparr>net_credssp := es\<rparr>\<rparr>))) }) }"

definition tls_accept :: "NET \<Rightarrow> tbool \<times> NET" where
  "tls_accept n = (case net_tls n of [] \<Rightarrow> (False, n) | b # es \<Rightarrow> (b, n\<lparr>net_tls := es\<rparr>))"

definition transport_accept_rdp :: "rdpTransport \<Rightarrow> tbool" where
  "transport_accept_rdp t = True"

definition transport_accept_tls :: "rdpTransport \<Rightarrow> tbool \<times> rdpTransport" where
  "transport_accept_tls t =
     (let tls = (case t_tls_in t of None \<Rightarrow> tls_new | Some r \<Rightarrow> r);
          t = t\<lparr>t_layer := TRANSPORT_LAYER_TLS,
               t_tls_in := Some (tls\<lparr>tls_sockfd := tcp_sockfd (t_tcp_in t)\<rparr>)\<rparr>;
          (b, n) = tls_accept (t_net t)
      in (b, t\<lparr>t_net := n\<rparr>))"

text \<open>After the handshake the result is true whether authentication is asked for or not.\<close>

definition transport_accept_nla :: "rdpTransport \<Rightarrow> tbool \<times> rdpTransport" where
  "transport_accept_nla t =
     (let (b, t) = transport_accept_tls t
      in if \<not> b then (False, t)
         else if \<not> set_authentication (t_settings t) then (True, t)
         else (True, t))"

section \<open>Reading\<close>

text \<open>Storing received bytes at an offset of a stream's block.\<close>

definition stream_store :: "STREAM \<Rightarrow> int \<Rightarrow> u8 list \<Rightarrow> STREAM option" where
  "stream_store s i bs =
     (if bs = [] then Some s
      else if 0 \<le> i \<and> i + int (length bs) \<le> int (length (s_data s))
      then Some (s\<lparr>s_data := overwrite (s_data s) (nat i) bs\<rparr>) else None)"

text \<open>One call of the layer's read function. A closed layer reports the initial status \<open>-1\<close>.\<close>

definition transport_layer_read :: "rdpTransport \<Rightarrow> int \<Rightarrow> ((int \<times> u8 list) \<times> rdpTransport) option" where
  "transport_layer_read t len = (case t_layer t of
     TRANSPORT_LAYER_TCP \<Rightarrow>
       (let (r, n) = tcp_read (t_net t) len in Some (r, t\<lparr>t_net := n\<rparr>))
   | TRANSPORT_LAYER_CLOSED \<Rightarrow> Some ((-1, []), t)
   | _ \<Rightarrow> do {
       (r, tls, n) \<leftarrow> tls_read (t_tls_in t) (t_net t) len;
       Some (r, t\<lparr>t_tls_in := tls, t_net := n\<rparr>) })"

text \<open>Waiting for input dereferences the outgoing connection.\<close>

definition transport_wait :: "rdpTransport \<Rightarrow> unit option" where
  "transport_wait t = (case t_layer t of
     TRANSPORT_LAYER_TCP \<Rightarrow> (if t_tcp_out t = Tcp_null then None else Some ())
   | TRANSPORT_LAYER_CLOSED \<Rightarrow> Some ()
   | _ \<Rightarrow> (if t_tls_out t = None then None else Some ()))"

partial_function (option) transport_read_loop ::
  "rdpTransport \<Rightarrow> STREAM \<Rightarrow> int \<Rightarrow> int \<Rightarrow> int \<Rightarrow> (int \<times> STREAM \<times> rdpTransport) option" where
  "transport_read_loop t s off bytes rd =
     (if rd < bytes then
        Option.bind (transport_layer_read t (bytes - rd)) (\<lambda>((status, bs), t).
        Option.bind (stream_store s (off + rd) bs) (\<lambda>s.
          if \<not> t_blocking t then Some (status, s, t)
          else if status < 0 then Some (status, s, t)
          else Option.bind (if status = 0 then transport_wait t else Some ()) (\<lambda>_.
            transport_read_loop t s off bytes (rd + status))))
      else Some (rd, s, t))"

text \<open>\<open>data\<close> points into the stream \<open>s\<close>, at offset \<open>off\<close> of its block.\<close>

definition transport_read_layer ::
  "rdpTransport \<Rightarrow> STREAM \<Rightarrow> int \<Rightarrow> int \<Rightarrow> (int \<times> STREAM \<times> rdpTransport) option" where
  "transport_read_layer t s off bytes = transport_read_loop t s off bytes 0"

definition data_at :: "STREAM \<Rightarrow> int \<Rightarrow> int option" where
  "data_at s i = (if 0 \<le> i \<and> i < int (length (s_data s)) then Some (uint (s_data s ! nat i)) else None)"

definition transport_pdu_bytes :: "rdpTransport \<Rightarrow> STREAM \<Rightarrow> int option" where
  "transport_pdu_bytes t s =
     (if t_layer t = TRANSPORT_LAYER_TSG then do {
        d8 \<leftarrow> data_at s 8;
        d9 \<leftarrow> data_at s 9;
        Some (d8 OR push_bit 8 d9) }
      else do {
        d0 \<leftarrow> data_at s 0;
        (if d0 = 0x03 then do {
           d2 \<leftarrow> data_at s 2;
           d3 \<leftarrow> data_at s 3;
           Some (push_bit 8 d2 OR d3) }
         else do {
           d1 \<leftarrow> data_at s 1;
           (if d0 = 0x30 then
              (if d1 AND 0x80 \<noteq> 0 then
                 (if d1 AND NOT 0x80 = 1 then do { d2 \<leftarrow> data_at s 2; Some (d2 + 3) }
                  else if d1 AND NOT 0x80 = 2 then do {
                    d2 \<leftarrow> data_at s 2;
                    d3 \<leftarrow> data_at s 3;
                    Some ((push_bit 8 d2 OR d3) + 4) }
                  else Some 0)
               else Some (d1 + 2))
            else if d1 AND 0x80 \<noteq> 0 then do {
              d2 \<leftarrow> data_at s 2;
              Some (push_bit 8 (d1 AND 0x7F) OR d2) }
            else Some d1) }) })"

partial_function (option) transport_read ::
  "rdpTransport \<Rightarrow> STREAM \<Rightarrow> (int \<times> STREAM \<times> rdpTransport) option" where
  "transport_read t s =
     (let stream_bytes = stream_get_length s;
          header_bytes = (if t_layer t = TRANSPORT_LAYER_TSG then 10 else 4)
      in Option.bind
        (if stream_bytes < header_bytes
         then transport_read_layer t s stream_bytes (header_bytes - stream_bytes)
         else Some (0, s, t)) (\<lambda>(st1, s, t).
        if st1 < 0 then Some (st1, s, t)
        else if st1 + stream_bytes < header_bytes then Some (st1, s, t)
        else
          (let stream_bytes = stream_bytes + st1
           in Option.bind (transport_pdu_bytes t s) (\<lambda>pdu_bytes.
              Option.bind (transport_read_layer t s stream_bytes (pdu_bytes - stream_bytes))
              (\<lambda>(st2, s, t).
                if st2 < 0 then Some (st2, s, t)
                else if t_blocking t \<and> t_layer t = TRANSPORT_LAYER_TSG \<and> stream_bytes + st2 \<ge> pdu_bytes
                then
                  (let ((skip, s), n) = tsg_skip_pdu_call (t_net t) (stream_set_pos s 0);
                       t = t\<lparr>t_net := n\<rparr>
                   in if skip then transport_read t (stream_set_pos s 0)
                      else Some (st1 + st2, s, t))
                else Some (st1 + st2, s, t))))))"

definition transport_read_nonblocking :: "rdpTransport \<Rightarrow> (int \<times> rdpTransport) option" where
  "transport_read_nonblocking t = do {
     s \<leftarrow> stream_check_size (t_recv_buffer t) (32 * 1024);
     (status, s, t) \<leftarrow> transport_read t s;
     (if status \<le> 0 then Some (status, t\<lparr>t_recv_buffer := s\<rparr>)
      else Some (status, t\<lparr>t_recv_buffer := stream_seek s status\<rparr>)) }"

section \<open>Writing\<close>

definition transport_layer_write :: "rdpTransport \<Rightarrow> u8 list \<Rightarrow> int \<Rightarrow> (int \<times> rdpTransport) option" where
  "transport_layer_write t bs status = (case t_layer t of
     TRANSPORT_LAYER_TLS \<Rightarrow>
       (if t_tls_in t = None then None
        else let (st, n) = tls_write (t_net t) bs in Some (st, t\<lparr>t_net := n\<rparr>))
   | TRANSPORT_LAYER_TCP \<Rightarrow>
       (let (st, n) = tcp_write (t_net t) bs in Some (st, t\<lparr>t_net := n\<rparr>))
   | TRANSPORT_LAYER_TSG \<Rightarrow> (case t_tsg t of
         None \<Rightarrow> None
       | Some tsg \<Rightarrow> do {
           (st, n) \<leftarrow> tsg_write tsg (t_net t) bs;
           Some (st, t\<lparr>t_net := n\<rparr>) })
   | TRANSPORT_LAYER_CLOSED \<Rightarrow> Some (status, t))"

partial_function (option) transport_write_loop ::
  "rdpTransport \<Rightarrow> STREAM \<Rightarrow> int \<Rightarrow> int \<Rightarrow> (int \<times> STREAM \<times> rdpTransport) option" where
  "transport_write_loop t s len status =
     (if len > 0 then
        Option.bind (block_read (s_data s) (s_p s) len) (\<lambda>bs.
        Option.bind (transport_layer_write t bs status) (\<lambda>(status, t).
          if status < 0 then Some (status, s, t)
          else transport_write_loop t (stream_seek s status) (len - status) status))
      else Some (status, s, t))"

definition transport_write :: "rdpTransport \<Rightarrow> STREAM \<Rightarrow> (int \<times> STREAM \<times> rdpTransport) option" where
  "transport_write t s = do {
     let len = stream_get_length s;
     let s = stream_set_pos s 0;
     (status, s, t) \<leftarrow> transport_write_loop t s len (-1);
     (if status < 0 then Some (status, s, t\<lparr>t_layer := TRANSPORT_LAYER_CLOSED\<rparr>)
      else Some (status, s, t)) }"

section \<open>Dispatching received data\<close>

definition transport_out_sockfd :: "rdpTransport \<Rightarrow> int option" where
  "transport_out_sockfd t = (case t_tcp_out t of
     Tcp_null \<Rightarrow> None | Tcp_same \<Rightarrow> Some (tcp_sockfd (t_tcp_in t)) | Tcp_own r \<Rightarrow> Some (tcp_sockfd r))"

text \<open>The descriptors appended to the caller's array.\<close>

definition transport_get_fds :: "rdpTransport \<Rightarrow> int list option" where
  "transport_get_fds t = do {
     fd \<leftarrow> transport_out_sockfd t;
     (if t_tcp_out t = Tcp_same then Some [fd] else Some [fd, tcp_sockfd (t_tcp_in t)]) }"

definition get_rdp_pdu_length :: "STREAM \<Rightarrow> int option" where
  "get_rdp_pdu_length s = do {
     d0 \<leftarrow> data_at s 0;
     (if d0 = 0x03 then do {
        d2 \<leftarrow> data_at s 2;
        d3 \<leftarrow> data_at s 3;
        Some (push_bit 8 d2 OR d3) }
      else do {
        d1 \<leftarrow> data_at s 1;
        (if d1 AND 0x80 \<noteq> 0 then do {
           d2 \<leftarrow> data_at s 2;
           Some (push_bit 8 (d1 AND 0x7F) OR d2) }
         else Some d1) }) }"

text \<open>
  The receive callback is a parameter; \<open>x\<close> is the state behind \<open>recv_extra\<close>. It is handed the
  stream it shall process and the transport, and may change both.
\<close>

type_synonym 'x recv_callback =
  "rdpTransport \<Rightarrow> 'x \<Rightarrow> STREAM \<Rightarrow> (tbool \<times> STREAM \<times> rdpTransport \<times> 'x) option"

definition do_callback ::
  "'x recv_callback \<Rightarrow> rdpTransport \<Rightarrow> 'x \<Rightarrow> STREAM \<Rightarrow> (int \<times> STREAM \<times> rdpTransport \<times> 'x) option" where
  "do_callback cb t x s = do {
     let t = t\<lparr>t_level := t_level t + 1\<rparr>;
     (b, s, t, x) \<leftarrow> cb t x s;
     Some (if b then 0 else -1, s, t\<lparr>t_level := t_level t - 1\<rparr>, x) }"

text \<open>The loop over the RDP packets collected in \<open>proc_buffer\<close>.\<close>

partial_function (option) transport_tsg_loop ::
  "'x recv_callback \<Rightarrow> rdpTransport \<Rightarrow> 'x \<Rightarrow> STREAM \<Rightarrow> (int \<times> STREAM \<times> rdpTransport \<times> 'x) option" where
  "transport_tsg_loop cb t x s =
     (let pos = stream_get_pos s
      in if pos > 3 then
           Option.bind (get_rdp_pdu_length s) (\<lambda>rdp_pdu_length.
             if pos \<ge> rdp_pdu_length then
               (let s = stream_set_pos (stream_seal (stream_set_pos s rdp_pdu_length)) 0
                in Option.bind (do_callback cb t x s) (\<lambda>(st, s, t, x).
                     if st \<noteq> 0 then Some (-1, s, t, x)
                     else
                       (let s = stream_set_pos s 0;
                            extra_bytes = pos - rdp_pdu_length
                        in Option.bind (block_read (s_data s) rdp_pdu_length extra_bytes) (\<lambda>bs.
                           Option.bind (stream_write s bs extra_bytes) (\<lambda>s.
                             transport_tsg_loop cb t x s)))))
             else Some (0, s, t, x))
         else Some (0, s, t, x))"

definition transport_check_fds_tsg ::
  "'x recv_callback \<Rightarrow> rdpTransport \<Rightarrow> 'x \<Rightarrow> STREAM \<Rightarrow> (int \<times> rdpTransport \<times> 'x) option" where
  "transport_check_fds_tsg cb t x buf = do {
     let ((skip, buf), n) = tsg_skip_pdu_call (t_net t) (stream_set_pos buf 0);
     let t = t\<lparr>t_net := n\<rparr>;
     (if skip then Some (0, t\<lparr>t_recv_buffer := stream_set_pos buf 0\<rparr>, x)
      else do {
        let buf = stream_seek (stream_set_pos buf 0) 2;
        (ptype, buf) \<leftarrow> stream_read_uint8 buf;
        (pfc_flags, buf) \<leftarrow> stream_read_uint8 buf;
        let buf = stream_seek buf 4;
        (frag_length, buf) \<leftarrow> stream_read_uint16 buf;
        (auth_length, buf) \<leftarrow> stream_read_uint16 buf;
        (call_id, buf) \<leftarrow> stream_read_uint32 buf;
        (alloc_hint, buf) \<leftarrow> stream_read_uint32 buf;
        auth_pad_length \<leftarrow> data_at buf (uint frag_length - uint auth_length - 6);
        let len = uint (word_of_int (uint frag_length - uint auth_length - 24 - 8 - auth_pad_length) :: u16);
        let t = t\<lparr>t_recv_buffer := buf\<rparr>;
        bs \<leftarrow> block_read (s_data buf) 24 len;
        s \<leftarrow> stream_write (t_proc_buffer t) bs len;
        (st, s, t, x) \<leftarrow> transport_tsg_loop cb t x s;
        let t = t\<lparr>t_proc_buffer := s\<rparr>;
        (if st \<noteq> 0 then Some (-1, t, x)
         else Some (0, t\<lparr>t_recv_buffer := stream_set_pos (t_recv_buffer t) 0\<rparr>, x)) }) }"

text \<open>
  The length in the header of the packet in the buffer; \<open>junk\<close> is the uninitialised length
  variable of \<open>fastpath_read_header\<close>.
\<close>

definition transport_packet_length :: "u16 \<Rightarrow> bool \<Rightarrow> STREAM \<Rightarrow> (u16 \<times> STREAM) option" where
  "transport_packet_length junk tsg buf =
     (if tsg then do {
        (len, buf) \<leftarrow> stream_read_uint16 (stream_set_pos buf 8);
        Some (len, stream_set_pos buf 0) }
      else do {
        let buf = stream_set_pos buf 0;
        v \<leftarrow> tpkt_verify_header buf;
        (if v then tpkt_read_header buf
         else do {
           ((len, _), buf) \<leftarrow> fastpath_read_header None buf junk;
           Some (len, buf) }) })"

definition transport_check_fds ::
  "u16 \<Rightarrow> 'x recv_callback \<Rightarrow> rdpTransport \<Rightarrow> 'x \<Rightarrow> (int \<times> rdpTransport \<times> 'x) option" where
  "transport_check_fds junk cb t x =
     (if t_level t \<noteq> 0 then Some (-1, t, x)
      else do {
        (status, t) \<leftarrow> transport_read_nonblocking t;
        (if status < 0 then Some (status, t, x)
         else do {
           let buf = t_recv_buffer t;
           let pos = stream_get_pos buf;
           let tsg = (t_layer t = TRANSPORT_LAYER_TSG);
           (if \<not> pos > 0 \<or> pos \<le> (if tsg then 10 else 4) then Some (0, t, x)
            else do {
              (len, buf) \<leftarrow> transport_packet_length junk tsg buf;
              let len = uint len;
              (if len = 0 then Some (-1, t\<lparr>t_recv_buffer := buf\<rparr>, x)
               else if pos < len then Some (0, t\<lparr>t_recv_buffer := stream_set_pos buf pos\<rparr>, x)
               else if tsg then transport_check_fds_tsg cb t x buf
               else do {
                 let buf = stream_set_pos (stream_seal (stream_set_pos buf len)) 0;
                 (st, buf, t, x) \<leftarrow> do_callback cb (t\<lparr>t_recv_buffer := buf\<rparr>) x buf;
                 (if st \<noteq> 0 then Some (-1, t\<lparr>t_recv_buffer := buf\<rparr>, x)
                  else Some (0, t\<lparr>t_recv_buffer := stream_set_pos buf 0\<rparr>, x)) }) }) }) })"

definition transport_set_blocking_mode :: "rdpTransport \<Rightarrow> tbool \<Rightarrow> (tbool \<times> rdpTransport) option" where
  "transport_set_blocking_mode t blocking = do {
     let t = t\<lparr>t_blocking := blocking\<rparr>;
     let t = (if set_tsg (t_settings t) then t\<lparr>t_net := snd (tcp_set_blocking_mode (t_net t))\<rparr> else t);
     _ \<leftarrow> transport_out_sockfd t;
     let (b, n) = tcp_set_blocking_mode (t_net t);
     Some (b, t\<lparr>t_net := n\<rparr>) }"

section \<open>Sending\<close>

text \<open>
  One call of a plain layer (TCP or TLS) either fails without sending or sends the prefix whose
  length it reports; a call that does not fail uses up an event of the script.
\<close>

definition plain_out :: "rdpTransport \<Rightarrow> bool" where
  "plain_out t \<longleftrightarrow> t_layer t = TRANSPORT_LAYER_TCP \<or> t_layer t = TRANSPORT_LAYER_TLS \<and> t_tls_in t \<noteq> None"

lemma plain_out_net [simp]: "plain_out (t\<lparr>t_net := n\<rparr>) = plain_out t"
  by (simp add: plain_out_def)

lemma layer_write_plain:
  assumes "plain_out t"
  shows "\<exists>k n. transport_layer_write t bs st = Some (k, t\<lparr>t_net := n\<rparr>)
    \<and> (k < 0 \<and> net_sent n = net_sent (t_net t)
       \<or> 0 \<le> k \<and> k \<le> int (length bs) \<and> net_sent n = net_sent (t_net t) @ take (nat k) bs
         \<and> length (net_send n) < length (net_send (t_net t)))
    \<and> net_recv n = net_recv (t_net t)"
proof (cases "net_send (t_net t)")
  case Nil
  then show ?thesis using assms
    by (intro exI [of _ "-1"] exI [of _ "t_net t"])
      (auto simp: transport_layer_write_def plain_out_def tcp_write_def tls_write_def os_send_def)
next
  case (Cons e es)
  show ?thesis
  proof (cases e)
    case (Send_ok j)
    let ?l = "int (length (take j bs))"
    let ?k = "if t_layer t = TRANSPORT_LAYER_TLS \<and> ?l = 0 then -1 else ?l"
    let ?n = "(t_net t)\<lparr>net_send := es, net_sent := net_sent (t_net t) @ take j bs\<rparr>"
    have "transport_layer_write t bs st = Some (?k, t\<lparr>t_net := ?n\<rparr>)"
      using assms Cons Send_ok
      by (auto simp: transport_layer_write_def plain_out_def tcp_write_def tls_write_def os_send_def Let_def)
    then show ?thesis using Cons by (intro exI [of _ ?k] exI [of _ ?n]) (auto simp: min_def)
  next
    case Send_again
    then show ?thesis using assms Cons
      by (intro exI [of _ 0] exI [of _ "(t_net t)\<lparr>net_send := es\<rparr>"])
        (auto simp: transport_layer_write_def plain_out_def tcp_write_def tls_write_def os_send_def)
  next
    case Send_error
    then show ?thesis using assms Cons
      by (intro exI [of _ "-1"] exI [of _ "(t_net t)\<lparr>net_send := es\<rparr>"])
        (auto simp: transport_layer_write_def plain_out_def tcp_write_def tls_write_def os_send_def)
  qed
qed

lemma transport_write_loop_sends:
  assumes "plain_out t" and "0 \<le> len" and "0 \<le> s_p s" and "s_p s + len \<le> int (length (s_data s))"
  shows "\<exists>st' s' n k. transport_write_loop t s len st = Some (st', s', t\<lparr>t_net := n\<rparr>) \<and> k \<le> nat len
    \<and> net_sent n = net_sent (t_net t) @ take k (drop (nat (s_p s)) (s_data s))
    \<and> (if len = 0 then st' = st else st' < 0 \<or> k = nat len) \<and> s_data s' = s_data s
    \<and> net_recv n = net_recv (t_net t) \<and> s_size s' = s_size s \<and> s_p s \<le> s_p s'"
  using assms
proof (induction "length (net_send (t_net t))" arbitrary: t s len st rule: less_induct)
  case less
  show ?case
  proof (cases "len = 0")
    case True
    then show ?thesis
      by (subst transport_write_loop.simps) (auto intro!: exI [of _ "t_net t"])
  next
    case False
    let ?bs = "take (nat len) (drop (nat (s_p s)) (s_data s))"
    have br: "block_read (s_data s) (s_p s) len = Some ?bs"
      using less.prems False by (simp add: block_read_def)
    have l: "int (length ?bs) = len" using less.prems by auto
    obtain k n where w: "transport_layer_write t ?bs st = Some (k, t\<lparr>t_net := n\<rparr>)"
      and c: "k < 0 \<and> net_sent n = net_sent (t_net t)
       \<or> 0 \<le> k \<and> k \<le> int (length ?bs) \<and> net_sent n = net_sent (t_net t) @ take (nat k) ?bs
         \<and> length (net_send n) < length (net_send (t_net t))"
      and nr: "net_recv n = net_recv (t_net t)"
      using layer_write_plain [OF less.prems(1), of ?bs st] by blast
    from c show ?thesis
    proof
      assume "k < 0 \<and> net_sent n = net_sent (t_net t)"
      then show ?thesis using False less.prems(2)
        by (subst transport_write_loop.simps) (auto simp: br w nr intro!: exI [of _ n] exI [of _ 0])
    next
      assume k: "0 \<le> k \<and> k \<le> int (length ?bs) \<and> net_sent n = net_sent (t_net t) @ take (nat k) ?bs
         \<and> length (net_send n) < length (net_send (t_net t))"
      let ?t = "t\<lparr>t_net := n\<rparr>" and ?s = "stream_seek s k"
      have kl: "k \<le> len" and k0: "0 \<le> k" using k l by simp_all
      have "\<exists>st' s' n' j. transport_write_loop ?t ?s (len - k) k = Some (st', s', ?t\<lparr>t_net := n'\<rparr>)
        \<and> j \<le> nat (len - k) \<and> net_sent n' = net_sent (t_net ?t) @ take j (drop (nat (s_p ?s)) (s_data ?s))
        \<and> (if len - k = 0 then st' = k else st' < 0 \<or> j = nat (len - k)) \<and> s_data s' = s_data ?s
        \<and> net_recv n' = net_recv (t_net ?t) \<and> s_size s' = s_size ?s \<and> s_p ?s \<le> s_p s'"
        by (rule less.hyps) (use k kl less.prems in \<open>auto simp: stream_seek_def\<close>)
      then obtain st' s' n' j where h: "transport_write_loop ?t ?s (len - k) k = Some (st', s', ?t\<lparr>t_net := n'\<rparr>)"
        "j \<le> nat (len - k)" "net_sent n' = net_sent (t_net ?t) @ take j (drop (nat (s_p ?s)) (s_data ?s))"
        "if len - k = 0 then st' = k else st' < 0 \<or> j = nat (len - k)" "s_data s' = s_data ?s"
        "net_recv n' = net_recv (t_net ?t)" "s_size s' = s_size ?s" "s_p ?s \<le> s_p s'"
        by blast
      then have r: "transport_write_loop ?t ?s (len - k) k = Some (st', s', t\<lparr>t_net := n'\<rparr>)"
        and j: "j \<le> nat (len - k)" "net_sent n' = net_sent n @ take j (drop (nat (s_p ?s)) (s_data s))"
          "if len - k = 0 then st' = k else st' < 0 \<or> j = nat (len - k)" "s_data s' = s_data s"
          "net_recv n' = net_recv (t_net t)" "s_size s' = s_size s" "s_p s \<le> s_p s'"
        using nr k0 by simp_all
      have split: "take (nat k) ?bs @ take j (drop (nat (s_p ?s)) (s_data s))
          = take (nat k + j) (drop (nat (s_p s)) (s_data s))"
        using k kl less.prems(3)
        by (simp add: take_add stream_seek_def nat_add_distrib add.commute [of "nat (s_p s)" "nat k"])
      have 1: "transport_write_loop t s len st = Some (st', s', t\<lparr>t_net := n'\<rparr>)"
        using False less.prems(2) k r by (subst transport_write_loop.simps) (simp add: br w)
      have 2: "nat k + j \<le> nat len" and 3: "st' < 0 \<or> nat k + j = nat len"
        using j(1,3) k0 kl by (auto split: if_splits)
      have 4: "net_sent n' = net_sent (t_net t) @ take (nat k + j) (drop (nat (s_p s)) (s_data s))"
        using j(2) k split by (simp only: append_assoc)
      show ?thesis
        by (intro exI [of _ st'] exI [of _ s'] exI [of _ n'] exI [of _ "nat k + j"])
          (simp only: 1 2 3 4 j(4-7) False if_False simp_thms)
    qed
  qed
qed

section \<open>Receiving\<close>

text \<open>The bytes a script delivers before it fails or ends.\<close>

fun recv_bytes :: "recv_event list \<Rightarrow> u8 list" where
  "recv_bytes [] = []"
| "recv_bytes (Recv_data bs # es) = bs @ recv_bytes es"
| "recv_bytes (Recv_again # es) = recv_bytes es"
| "recv_bytes (Recv_error # es) = []"

definition steady :: "recv_event list \<Rightarrow> bool" where
  "steady es \<longleftrightarrow> Recv_error \<notin> set es \<and> Recv_data [] \<notin> set es"

fun recv_weight :: "recv_event list \<Rightarrow> nat" where
  "recv_weight [] = 0"
| "recv_weight (Recv_data bs # es) = Suc (length bs + recv_weight es)"
| "recv_weight (Recv_again # es) = Suc (recv_weight es)"
| "recv_weight (Recv_error # es) = Suc (recv_weight es)"

lemma steady_simps [simp]:
  "steady []" "\<not> steady (Recv_error # es)" "steady (Recv_again # es) = steady es"
  "steady (Recv_data bs # es) \<longleftrightarrow> bs \<noteq> [] \<and> steady es"
  by (auto simp: steady_def)

abbreviation input_of :: "rdpTransport \<Rightarrow> u8 list" where
  "input_of t \<equiv> recv_bytes (net_recv (t_net t))"

text \<open>A connection that is up, over plain TCP or TLS, and a blocking transport on it.\<close>

definition linked :: "rdpTransport \<Rightarrow> bool" where
  "linked t \<longleftrightarrow> steady (net_recv (t_net t)) \<and>
     (t_layer t = TRANSPORT_LAYER_TCP
      \<or> t_layer t = TRANSPORT_LAYER_TLS \<and> (\<exists>r. t_tls_in t = Some r \<and> read_extra r = None))"

definition ready :: "rdpTransport \<Rightarrow> bool" where
  "ready t \<longleftrightarrow> t_blocking t \<and> linked t \<and>
     (if t_layer t = TRANSPORT_LAYER_TCP then t_tcp_out t \<noteq> Tcp_null else t_tls_out t \<noteq> None)"

lemma linked_net: "linked t \<Longrightarrow> steady (net_recv n) \<Longrightarrow> linked (t\<lparr>t_net := n\<rparr>)"
  by (auto simp: linked_def)

lemma ready_net: "ready t \<Longrightarrow> steady (net_recv n) \<Longrightarrow> ready (t\<lparr>t_net := n\<rparr>)"
  by (auto simp: ready_def linked_net)

lemma linked_not_tsg: "linked t \<Longrightarrow> t_layer t \<noteq> TRANSPORT_LAYER_TSG"
  by (auto simp: linked_def)

lemma os_recv_steady:
  assumes "steady (net_recv n)" and "net_recv n \<noteq> []" and "0 < len"
  shows "\<exists>bs es. os_recv n len = ((if bs = [] then -1 else int (length bs), bs = [], bs), n\<lparr>net_recv := es\<rparr>)
    \<and> length bs \<le> nat len \<and> recv_bytes (net_recv n) = bs @ recv_bytes es \<and> steady es
    \<and> recv_weight es < recv_weight (net_recv n)"
proof (cases "net_recv n")
  case (Cons e es)
  show ?thesis
  proof (cases e)
    case (Recv_data ds)
    let ?es = "if drop (nat len) ds = [] then es else Recv_data (drop (nat len) ds) # es"
    have "ds \<noteq> []" using assms(1) Cons Recv_data by simp
    then have "take (nat len) ds \<noteq> []" using assms(3) by simp
    moreover have "ds = take (nat len) ds @ drop (nat len) ds" by simp
    ultimately show ?thesis using assms Cons Recv_data
      by (intro exI [of _ "take (nat len) ds"] exI [of _ ?es])
        (auto simp: os_recv_def split: if_splits)
  next
    case Recv_again
    then show ?thesis using assms Cons
      by (intro exI [of _ "[]"] exI [of _ es]) (auto simp: os_recv_def)
  next
    case Recv_error
    then show ?thesis using assms Cons by simp
  qed
qed (use assms in simp)

lemma layer_read_linked:
  assumes "linked t" and "net_recv (t_net t) \<noteq> []" and "0 < len"
  shows "\<exists>bs n. transport_layer_read t len = Some ((int (length bs), bs), t\<lparr>t_net := n\<rparr>)
    \<and> length bs \<le> nat len \<and> input_of t = bs @ recv_bytes (net_recv n) \<and> steady (net_recv n)
    \<and> recv_weight (net_recv n) < recv_weight (net_recv (t_net t))"
proof -
  from assms(1) have st: "steady (net_recv (t_net t))" by (simp add: linked_def)
  obtain bs es where o: "os_recv (t_net t) len
      = ((if bs = [] then -1 else int (length bs), bs = [], bs), (t_net t)\<lparr>net_recv := es\<rparr>)"
    and h: "length bs \<le> nat len" "input_of t = bs @ recv_bytes es" "steady es"
      "recv_weight es < recv_weight (net_recv (t_net t))"
    using os_recv_steady [OF st assms(2,3)] by blast
  let ?n = "(t_net t)\<lparr>net_recv := es\<rparr>"
  have "transport_layer_read t len = Some ((int (length bs), bs), t\<lparr>t_net := ?n\<rparr>)"
    using assms(1,3) o
    by (cases t) (auto simp: linked_def transport_layer_read_def tcp_read_def tls_read.simps Let_def)
  with h show ?thesis by (intro exI [of _ bs] exI [of _ ?n]) simp
qed

lemma input_events: "input_of t \<noteq> [] \<Longrightarrow> net_recv (t_net t) \<noteq> []"
  by auto

lemma layer_read_ready:
  assumes "ready t" and "input_of t \<noteq> []" and "0 < len"
  shows "\<exists>bs n. transport_layer_read t len = Some ((int (length bs), bs), t\<lparr>t_net := n\<rparr>)
    \<and> length bs \<le> nat len \<and> input_of t = bs @ recv_bytes (net_recv n) \<and> steady (net_recv n)
    \<and> recv_weight (net_recv n) < recv_weight (net_recv (t_net t))"
  using assms layer_read_linked input_events by (simp add: ready_def)

lemma overwrite_overwrite:
  assumes "i + length bs + length cs \<le> length d"
  shows "overwrite (overwrite d i bs) (i + length bs) cs = overwrite d i (bs @ cs)"
proof -
  from assms have "min (length d) i = i" by simp
  then show ?thesis by (simp add: overwrite_def add_ac)
qed

lemma read_loop_ready:
  assumes "ready t" and "0 \<le> rd" and "rd \<le> bytes" and "bytes - rd \<le> int (length (input_of t))"
    and "0 \<le> off" and "off + bytes \<le> int (length (s_data s))"
  shows "\<exists>n. transport_read_loop t s off bytes rd
      = Some (bytes, s\<lparr>s_data := overwrite (s_data s) (nat (off + rd)) (take (nat (bytes - rd)) (input_of t))\<rparr>,
              t\<lparr>t_net := n\<rparr>)
    \<and> recv_bytes (net_recv n) = drop (nat (bytes - rd)) (input_of t) \<and> steady (net_recv n)"
  using assms
proof (induction "recv_weight (net_recv (t_net t))" arbitrary: t s rd rule: less_induct)
  case less
  show ?case
  proof (cases "rd < bytes")
    case False
    with less.prems have "rd = bytes" by simp
    moreover have "steady (net_recv (t_net t))" using less.prems(1) by (simp add: ready_def linked_def)
    ultimately show ?thesis
      by (subst transport_read_loop.simps) (auto simp: overwrite_def intro!: exI [of _ "t_net t"])
  next
    case True
    with less.prems(4) have ne: "input_of t \<noteq> []" by auto
    obtain bs n where r: "transport_layer_read t (bytes - rd) = Some ((int (length bs), bs), t\<lparr>t_net := n\<rparr>)"
      and h: "length bs \<le> nat (bytes - rd)" "input_of t = bs @ recv_bytes (net_recv n)"
        "steady (net_recv n)" "recv_weight (net_recv n) < recv_weight (net_recv (t_net t))"
      using layer_read_ready [OF less.prems(1) ne, of "bytes - rd"] True by auto
    let ?t = "t\<lparr>t_net := n\<rparr>" and ?rd = "rd + int (length bs)"
    let ?s = "s\<lparr>s_data := overwrite (s_data s) (nat (off + rd)) bs\<rparr>"
    have rdy: "ready ?t" using less.prems(1) h(3) by (rule ready_net)
    have le: "?rd \<le> bytes" using h(1) True by auto
    have st: "stream_store s (off + rd) bs = Some ?s"
      using less.prems le by (auto simp: stream_store_def overwrite_def)
    have len: "length (s_data ?s) = length (s_data s)"
      using less.prems le by (simp add: length_overwrite)
    have w: "transport_wait ?t = Some ()" using rdy by (auto simp: ready_def linked_def transport_wait_def)
    have step: "transport_read_loop t s off bytes rd = transport_read_loop ?t ?s off bytes ?rd"
      using True rdy w by (subst transport_read_loop.simps) (simp add: r st ready_def)
    obtain n' where IH: "transport_read_loop ?t ?s off bytes ?rd
        = Some (bytes, ?s\<lparr>s_data := overwrite (s_data ?s) (nat (off + ?rd)) (take (nat (bytes - ?rd)) (input_of ?t))\<rparr>,
                ?t\<lparr>t_net := n'\<rparr>)"
      and IH2: "recv_bytes (net_recv n') = drop (nat (bytes - ?rd)) (input_of ?t)" "steady (net_recv n')"
      using less.hyps [of ?t ?rd ?s] h(2,4) rdy le less.prems(2,4,5,6) len by auto
    have k: "nat (bytes - rd) = length bs + nat (bytes - ?rd)" using le by simp
    have t1: "take (nat (bytes - rd)) (input_of t) = bs @ take (nat (bytes - ?rd)) (input_of ?t)"
      and t2: "drop (nat (bytes - rd)) (input_of t) = drop (nat (bytes - ?rd)) (input_of ?t)"
      unfolding k h(2) by simp_all
    have "overwrite (s_data ?s) (nat (off + ?rd)) (take (nat (bytes - ?rd)) (input_of ?t))
        = overwrite (s_data s) (nat (off + rd)) (take (nat (bytes - rd)) (input_of t))"
      unfolding t1
      using overwrite_overwrite [of "nat (off + rd)" bs "take (nat (bytes - ?rd)) (input_of ?t)" "s_data s"]
        less.prems le by (simp add: nat_add_distrib add.assoc)
    then show ?thesis
      using IH IH2 step t2 by (intro exI [of _ n']) simp
  qed
qed

text \<open>The length a packet announces in its first four bytes.\<close>

fun announced :: "u8 list \<Rightarrow> int" where
  "announced (d0 # d1 # d2 # d3 # _) =
     (if d0 = 0x03 then 256 * uint d2 + uint d3
      else if d0 = 0x30 then
        (if d1 < 0x80 then uint d1 + 2
         else if d1 = 0x81 then uint d2 + 3
         else if d1 = 0x82 then 256 * uint d2 + uint d3 + 4 else 0)
      else if d1 < 0x80 then uint d1 else 256 * (uint d1 - 128) + uint d2)"
| "announced _ = 0"

lemma transport_pdu_bytes_announced:
  assumes "t_layer t \<noteq> TRANSPORT_LAYER_TSG" and "s_data s = d0 # d1 # d2 # d3 # rest"
  shows "transport_pdu_bytes t s = Some (announced (s_data s))"
proof -
  have d: "data_at s 0 = Some (uint d0)" "data_at s 1 = Some (uint d1)" "data_at s 2 = Some (uint d2)"
    "data_at s 3 = Some (uint d3)"
    using assms(2) by (simp_all add: data_at_def)
  have e: "uint d0 = 3 \<longleftrightarrow> d0 = 3" "uint d0 = 0x30 \<longleftrightarrow> d0 = 0x30"
    "uint d1 - 128 = 1 \<longleftrightarrow> d1 = 0x81" "uint d1 - 128 = 2 \<longleftrightarrow> d1 = 0x82"
    by (auto simp: word_uint_eq_iff)
  show ?thesis
    using assms byte_top_bit [of d1] byte_clear_top [of d1] byte_low7 [of d1]
    by (auto simp: transport_pdu_bytes_def d int_join_byte e)
qed

lemma read_loop_overflow:
  assumes "ready t" and "0 \<le> rd" and "rd \<le> bytes" and "bytes - rd \<le> int (length (input_of t))"
    and "0 \<le> off" and "off + rd \<le> int (length (s_data s))" and "int (length (s_data s)) < off + bytes"
  shows "transport_read_loop t s off bytes rd = None"
  using assms
proof (induction "recv_weight (net_recv (t_net t))" arbitrary: t s rd rule: less_induct)
  case less
  have lt: "rd < bytes" using less.prems(6,7) by simp
  with less.prems(4) have ne: "input_of t \<noteq> []" by auto
  obtain bs n where r: "transport_layer_read t (bytes - rd) = Some ((int (length bs), bs), t\<lparr>t_net := n\<rparr>)"
    and h: "length bs \<le> nat (bytes - rd)" "input_of t = bs @ recv_bytes (net_recv n)"
      "steady (net_recv n)" "recv_weight (net_recv n) < recv_weight (net_recv (t_net t))"
    using layer_read_ready [OF less.prems(1) ne, of "bytes - rd"] lt by auto
  let ?t = "t\<lparr>t_net := n\<rparr>" and ?rd = "rd + int (length bs)"
  let ?s = "s\<lparr>s_data := overwrite (s_data s) (nat (off + rd)) bs\<rparr>"
  have rdy: "ready ?t" using less.prems(1) h(3) by (rule ready_net)
  have le: "?rd \<le> bytes" using h(1) lt by auto
  have w: "transport_wait ?t = Some ()" using rdy by (auto simp: ready_def linked_def transport_wait_def)
  show ?case
  proof (cases "off + ?rd \<le> int (length (s_data s))")
    case False
    then have "stream_store s (off + rd) bs = None"
      using less.prems(6) by (auto simp: stream_store_def)
    then show ?thesis using lt by (subst transport_read_loop.simps) (simp add: r)
  next
    case True
    then have st: "stream_store s (off + rd) bs = Some ?s"
      using less.prems(2,5) by (auto simp: stream_store_def overwrite_def)
    have len: "length (s_data ?s) = length (s_data s)"
      using True less.prems(2,5) by (simp add: length_overwrite)
    have "transport_read_loop t s off bytes rd = transport_read_loop ?t ?s off bytes ?rd"
      using lt rdy w by (subst transport_read_loop.simps) (simp add: r st ready_def)
    also have "\<dots> = None"
      using less.hyps [of ?t ?rd ?s] h(2,4) rdy le less.prems(2,4,5,7) len True by simp
    finally show ?thesis .
  qed
qed

lemma four_bytes: "4 \<le> length xs \<Longrightarrow> \<exists>a b c d r. xs = a # b # c # d # r"
  by (auto simp: numeral_eq_Suc Suc_le_length_iff)

text \<open>After the first phase of \<open>transport_read\<close> the four header bytes are in the buffer.\<close>

lemma transport_read_header:
  assumes "ready t" and "s_p s = 0" and "4 \<le> length (input_of t)" and "4 \<le> length (s_data s)"
  obtains n s1 where "transport_read_layer t s 0 4 = Some (4, s1, t\<lparr>t_net := n\<rparr>)"
    and "s1 = s\<lparr>s_data := overwrite (s_data s) 0 (take 4 (input_of t))\<rparr>"
    and "recv_bytes (net_recv n) = drop 4 (input_of t)" and "ready (t\<lparr>t_net := n\<rparr>)"
    and "transport_pdu_bytes (t\<lparr>t_net := n\<rparr>) s1 = Some (announced (input_of t))"
proof -
  let ?s = "s\<lparr>s_data := overwrite (s_data s) 0 (take 4 (input_of t))\<rparr>"
  obtain n where r: "transport_read_layer t s 0 4 = Some (4, ?s, t\<lparr>t_net := n\<rparr>)"
    and n: "recv_bytes (net_recv n) = drop 4 (input_of t)" "steady (net_recv n)"
    using read_loop_ready [OF assms(1), of 0 4 0 s] assms(3,4)
    by (auto simp: transport_read_layer_def)
  have ntsg: "t_layer (t\<lparr>t_net := n\<rparr>) \<noteq> TRANSPORT_LAYER_TSG" using assms(1) by (auto simp: ready_def dest: linked_not_tsg)
  obtain a b c d rest where e: "input_of t = a # b # c # d # rest"
    using four_bytes [OF assms(3)] by blast
  have d: "s_data ?s = a # b # c # d # drop 4 (s_data s)" by (simp add: e overwrite_def numeral_eq_Suc)
  have "transport_pdu_bytes (t\<lparr>t_net := n\<rparr>) ?s = Some (announced (s_data ?s))"
    using ntsg d by (rule transport_pdu_bytes_announced)
  also have "announced (s_data ?s) = announced (input_of t)" 
    by (rule trans [OF arg_cong [OF d]]) (simp add: e)
  finally show ?thesis using that [OF r refl n(1) ready_net [OF assms(1) n(2)]] by blast
qed

lemma transport_read_pdu:
  assumes "ready t" and "s_p s = 0" and "4 \<le> length (input_of t)"
    and "L = announced (input_of t)" and "4 \<le> L" and "L \<le> int (length (input_of t))"
    and "L \<le> int (length (s_data s))"
  shows "\<exists>n. transport_read t s
      = Some (L, s\<lparr>s_data := overwrite (s_data s) 0 (take (nat L) (input_of t))\<rparr>, t\<lparr>t_net := n\<rparr>)
    \<and> recv_bytes (net_recv n) = drop (nat L) (input_of t) \<and> steady (net_recv n)"
proof -
  let ?i = "input_of t"
  have l4: "4 \<le> length (s_data s)" using assms(5,7) by simp
  obtain n s1 where r1: "transport_read_layer t s 0 4 = Some (4, s1, t\<lparr>t_net := n\<rparr>)"
    and s1: "s1 = s\<lparr>s_data := overwrite (s_data s) 0 (take 4 ?i)\<rparr>"
    and n: "recv_bytes (net_recv n) = drop 4 ?i" and rdy: "ready (t\<lparr>t_net := n\<rparr>)"
    and p: "transport_pdu_bytes (t\<lparr>t_net := n\<rparr>) s1 = Some (announced ?i)"
    by (rule transport_read_header [OF assms(1,2,3) l4])
  have "length (s_data s1) = length (s_data s)" using l4 assms(3) by (simp add: s1)
  then obtain n2 where r2: "transport_read_layer (t\<lparr>t_net := n\<rparr>) s1 4 (L - 4)
      = Some (L - 4, s1\<lparr>s_data := overwrite (s_data s1) 4 (take (nat (L - 4)) (drop 4 ?i))\<rparr>, t\<lparr>t_net := n2\<rparr>)"
    and n2: "recv_bytes (net_recv n2) = drop (nat (L - 4)) (drop 4 ?i)" "steady (net_recv n2)"
    using read_loop_ready [OF rdy, of 0 "L - 4" 4 s1] assms(5,6,7) n
    by (auto simp: transport_read_layer_def)
  have ntsg: "t_layer t \<noteq> TRANSPORT_LAYER_TSG" using assms(1) by (auto simp: ready_def dest: linked_not_tsg)
  have k: "nat L = 4 + nat (L - 4)" using assms(5) by simp
  have "overwrite (s_data s1) 4 (take (nat (L - 4)) (drop 4 ?i)) = overwrite (s_data s) 0 (take (nat L) ?i)"
  proof -
    have "length (take 4 ?i) = 4" and "length (take (nat (L - 4)) (drop 4 ?i)) = nat (L - 4)"
      using assms(3,5,6) by auto
    then show ?thesis
      using overwrite_overwrite [of 0 "take 4 ?i" "take (nat (L - 4)) (drop 4 ?i)" "s_data s"] assms(5,7)
      unfolding k take_add by (simp add: s1)
  qed
  moreover have "transport_read t s
      = Some (L, s1\<lparr>s_data := overwrite (s_data s1) 4 (take (nat (L - 4)) (drop 4 ?i))\<rparr>, t\<lparr>t_net := n2\<rparr>)"
    using r2 p assms(5) unfolding assms(4) [symmetric]
    by (subst transport_read.simps) (simp add: stream_get_length_def assms(2) ntsg r1)
  ultimately show ?thesis using n2 k by (intro exI [of _ n2]) (simp add: s1 add.commute)
qed

lemma transport_read_beyond:
  assumes "ready t" and "s_p s = 0" and "4 \<le> length (s_data s)"
    and "announced (input_of t) \<le> int (length (input_of t))"
    and "int (length (s_data s)) < announced (input_of t)"
  shows "transport_read t s = None"
proof -
  let ?i = "input_of t"
  have i4: "4 \<le> length ?i" using assms(3-5) by simp
  obtain n s1 where r1: "transport_read_layer t s 0 4 = Some (4, s1, t\<lparr>t_net := n\<rparr>)"
    and s1: "s1 = s\<lparr>s_data := overwrite (s_data s) 0 (take 4 ?i)\<rparr>"
    and n: "recv_bytes (net_recv n) = drop 4 ?i" and rdy: "ready (t\<lparr>t_net := n\<rparr>)"
    and p: "transport_pdu_bytes (t\<lparr>t_net := n\<rparr>) s1 = Some (announced ?i)"
    by (rule transport_read_header [OF assms(1,2) i4 assms(3)])
  have "length (s_data s1) = length (s_data s)" using assms(3) i4 by (simp add: s1)
  then have "transport_read_layer (t\<lparr>t_net := n\<rparr>) s1 4 (announced ?i - 4) = None"
    unfolding transport_read_layer_def
    by (intro read_loop_overflow [OF rdy]) (use assms(3-5) n i4 in auto)
  moreover have ntsg: "t_layer t \<noteq> TRANSPORT_LAYER_TSG" using assms(1) by (auto simp: ready_def dest: linked_not_tsg)
  ultimately show ?thesis
    using p by (subst transport_read.simps) (simp add: stream_get_length_def assms(2) ntsg r1)
qed

end
