(* ===== verification/Transport_Framing.thy ===== *)
theory Transport_Framing
  imports Transport
begin

unbundle bit_operations_syntax

text \<open>
  Framing on top of the transport: the non-blocking receiver \<open>transport_check_fds\<close> cuts the
  incoming byte stream into the packets their headers announce, however the network splits or
  joins the bytes, and hands them to the callback in order.
\<close>

section \<open>One non-blocking read\<close>

lemma announced_cong:
  assumes "take 4 xs = take 4 ys" and "4 \<le> length xs"
  shows "announced xs = announced ys"
proof -
  from assms have "4 \<le> length ys" by (metis length_take min.absorb_iff2)
  with assms obtain a b c d r r' where "xs = a # b # c # d # r" "ys = a # b # c # d # r'"
    using four_bytes [of xs] four_bytes [of ys] by (auto simp: numeral_eq_Suc)
  then show ?thesis by simp
qed

lemma read_once:
  assumes "linked t" and "\<not> t_blocking t" and "input_of t \<noteq> []" and "0 < bytes" and "0 \<le> off"
    and "off + bytes \<le> int (length (s_data s))"
  shows "\<exists>bs n. transport_read_layer t s off bytes
      = Some (int (length bs), s\<lparr>s_data := overwrite (s_data s) (nat off) bs\<rparr>, t\<lparr>t_net := n\<rparr>)
    \<and> length bs \<le> nat bytes \<and> input_of t = bs @ recv_bytes (net_recv n) \<and> steady (net_recv n)
    \<and> recv_weight (net_recv n) < recv_weight (net_recv (t_net t))"
proof -
  obtain bs n where r: "transport_layer_read t bytes = Some ((int (length bs), bs), t\<lparr>t_net := n\<rparr>)"
    and h: "length bs \<le> nat bytes" "input_of t = bs @ recv_bytes (net_recv n)"
      "steady (net_recv n)" "recv_weight (net_recv n) < recv_weight (net_recv (t_net t))"
    using layer_read_linked [OF assms(1) input_events [OF assms(3)] assms(4)] by blast
  have "stream_store s off bs = Some (s\<lparr>s_data := overwrite (s_data s) (nat off) bs\<rparr>)"
    using assms(4-6) h(1) by (auto simp: stream_store_def overwrite_def)
  then have "transport_read_layer t s off bytes
      = Some (int (length bs), s\<lparr>s_data := overwrite (s_data s) (nat off) bs\<rparr>, t\<lparr>t_net := n\<rparr>)"
    unfolding transport_read_layer_def
    using assms(2,4) r by (subst transport_read_loop.simps) simp
  with h show ?thesis by blast
qed

lemma pdu_bytes_of_prefix:
  assumes "linked t" and "4 \<le> length pre" and "take (length pre) (s_data s) = pre"
  shows "transport_pdu_bytes t s = Some (announced pre)"
proof -
  have "4 \<le> length (s_data s)" using assms(2,3) by (metis length_take min.bounded_iff)
  then obtain a b c d r where e: "s_data s = a # b # c # d # r" using four_bytes by blast
  have "transport_pdu_bytes t s = Some (announced (s_data s))"
    using linked_not_tsg [OF assms(1)] e by (rule transport_pdu_bytes_announced)
  also have "announced (s_data s) = announced pre"
  proof (rule announced_cong)
    have "take 4 (take (length pre) (s_data s)) = take 4 (s_data s)"
      using assms(2) by (simp add: min_def)
    then show "take 4 (s_data s) = take 4 pre" by (simp only: assms(3))
  qed fact
  finally show ?thesis .
qed

text \<open>
  A non-blocking \<open>transport_read\<close> in the middle of a packet: \<open>pre\<close> is what the buffer already
  holds of it. Some prefix of the input, never reaching beyond the packet, is added.
\<close>

definition progress :: "rdpTransport \<Rightarrow> STREAM \<Rightarrow> u8 list \<Rightarrow> int \<Rightarrow> bool" where
  "progress t s pre L \<longleftrightarrow> (\<exists>bs n. transport_read t s
      = Some (int (length bs), s\<lparr>s_data := overwrite (s_data s) (length pre) bs\<rparr>, t\<lparr>t_net := n\<rparr>)
    \<and> int (length pre + length bs) \<le> L \<and> input_of t = bs @ recv_bytes (net_recv n)
    \<and> steady (net_recv n) \<and> recv_weight (net_recv n) < recv_weight (net_recv (t_net t)))"

lemma transport_read_body:
  assumes "linked t" and "\<not> t_blocking t" and "s_p s = int (length pre)"
    and "take (length pre) (s_data s) = pre" and "L = announced (pre @ input_of t)"
    and "4 \<le> length pre" and "int (length pre) < L" and "L \<le> int (length pre + length (input_of t))"
    and "L \<le> int (length (s_data s))"
  shows "progress t s pre L"
proof -
  have L: "announced pre = L"
    unfolding assms(5) by (rule announced_cong) (use assms(6) in simp_all)
  have "input_of t \<noteq> []" using assms(7,8) by auto
  then obtain bs n where r: "transport_read_layer t s (int (length pre)) (L - int (length pre))
      = Some (int (length bs), s\<lparr>s_data := overwrite (s_data s) (length pre) bs\<rparr>, t\<lparr>t_net := n\<rparr>)"
    and h: "length bs \<le> nat (L - int (length pre))" "input_of t = bs @ recv_bytes (net_recv n)"
      "steady (net_recv n)" "recv_weight (net_recv n) < recv_weight (net_recv (t_net t))"
    using read_once [OF assms(1,2), of "L - int (length pre)" "int (length pre)" s] assms(7,9) by auto
  have "transport_read t s
      = Some (int (length bs), s\<lparr>s_data := overwrite (s_data s) (length pre) bs\<rparr>, t\<lparr>t_net := n\<rparr>)"
    using assms(6) linked_not_tsg [OF assms(1)] r
    by (subst transport_read.simps)
      (simp add: stream_get_length_def assms(3) pdu_bytes_of_prefix [OF assms(1,6,4)] L)
  with h assms(7) show ?thesis unfolding progress_def by (auto intro!: exI [of _ bs] exI [of _ n])
qed

lemma take_overwrite: "i \<le> length d \<Longrightarrow> take (i + length bs) (overwrite d i bs) = take i d @ bs"
  by (simp add: overwrite_def)

lemma transport_read_step:
  assumes "linked t" and "\<not> t_blocking t" and "s_p s = int (length pre)"
    and "take (length pre) (s_data s) = pre" and "L = announced (pre @ input_of t)"
    and "4 < L" and "int (length pre) < L" and "L \<le> int (length pre + length (input_of t))"
    and "L \<le> int (length (s_data s))"
  shows "progress t s pre L"
proof (cases "4 \<le> length pre")
  case True
  show ?thesis by (rule transport_read_body [OF assms(1-5) True assms(7-9)])
next
  case False
  let ?p = "int (length pre)"
  have "input_of t \<noteq> []" using assms(7,8) by auto
  then obtain b1 n1 where r1: "transport_read_layer t s ?p (4 - ?p)
      = Some (int (length b1), s\<lparr>s_data := overwrite (s_data s) (length pre) b1\<rparr>, t\<lparr>t_net := n1\<rparr>)"
    and h1: "length b1 \<le> nat (4 - ?p)" "input_of t = b1 @ recv_bytes (net_recv n1)"
      "steady (net_recv n1)" "recv_weight (net_recv n1) < recv_weight (net_recv (t_net t))"
    using read_once [OF assms(1,2), of "4 - ?p" ?p s] False assms(6,9) by auto
  let ?s1 = "s\<lparr>s_data := overwrite (s_data s) (length pre) b1\<rparr>" and ?t1 = "t\<lparr>t_net := n1\<rparr>"
  show ?thesis
  proof (cases "length pre + length b1 < 4")
    case True
    then have "transport_read t s = Some (int (length b1), ?s1, ?t1)"
      using False linked_not_tsg [OF assms(1)] r1
      by (subst transport_read.simps) (simp add: stream_get_length_def assms(3))
    with h1 True assms(6) show ?thesis
      unfolding progress_def by (auto intro!: exI [of _ b1] exI [of _ n1])
  next
    case False4: False
    have l4: "length pre + length b1 = 4" using False4 h1(1) False by auto
    then have l4i: "int (length pre) + int (length b1) = 4" by simp
    have pl: "length pre \<le> length (s_data s)" using assms(7,9) by simp
    have len1: "length (s_data ?s1) = length (s_data s)" using l4 assms(6,9) by simp
    have lk1: "linked ?t1" using assms(1) h1(3) by (rule linked_net)
    have tk: "take (length (pre @ b1)) (s_data ?s1) = pre @ b1"
      using take_overwrite [OF pl, of b1] assms(4) by simp
    have L: "announced (pre @ b1) = L"
      unfolding assms(5) h1(2) by (rule announced_cong) (use l4 in simp_all)
    have i1: "recv_bytes (net_recv n1) \<noteq> []" using assms(6,8) h1(2) l4 by auto
    obtain b2 n2 where r2: "transport_read_layer ?t1 ?s1 4 (L - 4)
        = Some (int (length b2), ?s1\<lparr>s_data := overwrite (s_data ?s1) 4 b2\<rparr>, ?t1\<lparr>t_net := n2\<rparr>)"
      and h2: "length b2 \<le> nat (L - 4)" "recv_bytes (net_recv n1) = b2 @ recv_bytes (net_recv n2)"
        "steady (net_recv n2)" "recv_weight (net_recv n2) < recv_weight (net_recv n1)"
      using read_once [OF lk1, of "L - 4" 4 ?s1] assms(2,6,9) i1 len1 by auto
    have ow: "overwrite (s_data ?s1) 4 b2 = overwrite (s_data s) (length pre) (b1 @ b2)"
      using overwrite_overwrite [of "length pre" b1 b2 "s_data s"] l4 h2(1) assms(6,9) by auto
    have pb: "transport_pdu_bytes ?t1 ?s1 = Some L"
      using pdu_bytes_of_prefix [OF lk1 _ tk] l4 L by simp
    have "transport_read t s = Some (int (length b1) + int (length b2), ?s1\<lparr>s_data := overwrite (s_data ?s1) 4 b2\<rparr>, t\<lparr>t_net := n2\<rparr>)"
      using False l4 linked_not_tsg [OF assms(1)] r1 r2 pb
      by (subst transport_read.simps) (simp add: stream_get_length_def assms(3) l4i)
    with h1 h2 l4 ow assms(6) show ?thesis
      unfolding progress_def by (auto intro!: exI [of _ "b1 @ b2"] exI [of _ n2])
  qed
qed

section \<open>One call of the receiver\<close>

lemma uint_join_be: "uint (push_bit 8 (ucast a) + ucast b :: u16) = 256 * uint (a :: u8) + uint (b :: u8)"
proof -
  have a: "0 \<le> uint a" "uint a < 256" and b: "0 \<le> uint b" "uint b < 256"
    using uint_byte_less by auto
  have "uint (push_bit 8 (ucast a) :: u16) = 256 * uint a"
    using a by (simp add: push_bit_eq_mult uint_word_arith_bintrs unsigned_ucast_eq take_bit_eq_mod)
  moreover have "uint (ucast b :: u16) = uint b"
    using b by (simp add: unsigned_ucast_eq take_bit_eq_mod)
  ultimately show ?thesis
    using a b by (simp add: uint_word_arith_bintrs take_bit_eq_mod)
qed

lemma uint_ucast_u16: "uint (ucast (b :: u8) :: u16) = uint b"
  using uint_byte_less [of b] by (simp add: unsigned_ucast_eq take_bit_eq_mod)

lemma header_read:
  assumes "s_data b = d0 # d1 # d2 # d3 # r" and "2 < s_size b" and "d0 \<noteq> 0x30"
  shows "\<exists>w b'. transport_packet_length junk False b = Some (w, b')
    \<and> uint w = announced (s_data b) \<and> s_data b' = s_data b \<and> s_size b' = s_size b"
proof -
  have e: "stream_set_pos b 0 = stm [] (d0 # d1 # d2 # d3 # r) (s_size b)"
    using assms(1) by (cases b) (simp add: stm_def stream_set_pos_def)
  have top: "d1 AND 0x80 \<noteq> 0 \<Longrightarrow> \<not> d1 < 0x80"
    using and_80_eq_0 [of d1] by simp
  have clr: "d1 AND 0x80 \<noteq> 0 \<Longrightarrow> uint (d1 AND NOT 0x80) = uint d1 - 128"
  proof -
    assume a: "d1 AND 0x80 \<noteq> 0"
    then have "uint (0x80 :: u8) \<le> uint d1" using top by (simp add: word_less_def)
    then have "uint (d1 - 0x80) = uint d1 - uint (0x80 :: u8)" using uint_sub_lem [of "0x80" d1] by blast
    then show ?thesis using clear_80 [OF a] by simp
  qed
  show ?thesis
  proof (cases "d0 = 3")
    case True
    then show ?thesis
      unfolding transport_packet_length_def e Let_def assms(1)
      by (simp add: tpkt_verify_header_def wire uint_join_be)
  next
    case False
    then show ?thesis
      unfolding transport_packet_length_def e Let_def assms(1)
      using assms(2,3) top clr and_80_eq_0 [of d1]
      by (auto simp: tpkt_verify_header_def fastpath_read_header_def per_read_length_def wire
          stream_get_left_def uint_join_be uint_ucast_u16)
  qed
qed

definition polling :: "rdpTransport \<Rightarrow> bool" where
  "polling t \<longleftrightarrow> linked t \<and> \<not> t_blocking t \<and> t_level t = 0"

definition holds :: "STREAM \<Rightarrow> u8 list \<Rightarrow> bool" where
  "holds b pre \<longleftrightarrow> inside b \<and> s_p b = int (length pre) \<and> take (length pre) (s_data b) = pre"

text \<open>The next packet: its header is complete in \<open>ds\<close>, it fits the buffer, is not an NLA token.\<close>

definition packet_ahead :: "u8 list \<Rightarrow> int \<Rightarrow> bool" where
  "packet_ahead ds L \<longleftrightarrow> L = announced ds \<and> 4 < L \<and> L \<le> 32768 \<and> L \<le> int (length ds) \<and> hd ds \<noteq> 0x30"

lemma polling_net: "polling t \<Longrightarrow> steady (net_recv n) \<Longrightarrow> polling (t\<lparr>t_net := n, t_recv_buffer := b\<rparr>)"
  by (auto simp: polling_def linked_def)

lemma read_nonblocking_step:
  assumes "polling t" and "holds (t_recv_buffer t) pre" and "packet_ahead (pre @ input_of t) L"
    and "int (length pre) < L"
  shows "\<exists>bs n b. transport_read_nonblocking t
      = Some (int (length bs), t\<lparr>t_net := n, t_recv_buffer := b\<rparr>)
    \<and> holds b (pre @ bs) \<and> L \<le> s_size b \<and> int (length (pre @ bs)) \<le> L
    \<and> input_of t = bs @ recv_bytes (net_recv n)
    \<and> steady (net_recv n) \<and> recv_weight (net_recv n) < recv_weight (net_recv (t_net t))"
proof -
  let ?b = "t_recv_buffer t"
  have wf: "stream_wf ?b" and pb: "s_p ?b = int (length pre)" and tk: "take (length pre) (s_data ?b) = pre"
    and ps: "int (length pre) \<le> s_size ?b"
    using assms(2) by (auto simp: holds_def inside_def stream_wf_def)
  have psn: "length pre \<le> nat (s_size ?b)" using ps by simp
  obtain s where s: "stream_check_size ?b (32 * 1024) = Some s" and s2: "stream_wf s" "s_p s = s_p ?b"
    "s_p ?b + 32 * 1024 \<le> s_size s" "take (nat (s_size ?b)) (s_data s) = take (nat (s_size ?b)) (s_data ?b)"
    using stream_check_size_grows [OF wf, of "32 * 1024"] by auto
  have tks: "take (length pre) (s_data s) = pre"
  proof -
    have "take (length pre) (s_data s) = take (length pre) (take (nat (s_size ?b)) (s_data s))"
      using psn by (simp add: min_def)
    also have "\<dots> = take (length pre) (s_data ?b)"
      unfolding s2(4) using psn by (simp add: min_def)
    finally show ?thesis using tk by simp
  qed
  have L: "L = announced (pre @ input_of t)" "4 < L" "L \<le> int (length pre + length (input_of t))"
    "L \<le> 32768"
    using assms(3) by (auto simp: packet_ahead_def)
  have Ls: "L \<le> s_size s" using L(4) s2(2,3) pb by simp
  then have Ld: "L \<le> int (length (s_data s))" using s2(1) by (simp add: stream_wf_def)
  have "progress t s pre L"
    by (rule transport_read_step [OF _ _ _ tks L(1,2) assms(4) L(3) Ld])
      (use assms(1) s2(2) pb in \<open>simp_all add: polling_def\<close>)
  then obtain bs n where r: "transport_read t s
      = Some (int (length bs), s\<lparr>s_data := overwrite (s_data s) (length pre) bs\<rparr>, t\<lparr>t_net := n\<rparr>)"
    and h: "int (length pre + length bs) \<le> L" "input_of t = bs @ recv_bytes (net_recv n)"
      "steady (net_recv n)" "recv_weight (net_recv n) < recv_weight (net_recv (t_net t))"
    unfolding progress_def by blast
  let ?b' = "stream_seek (s\<lparr>s_data := overwrite (s_data s) (length pre) bs\<rparr>) (int (length bs))"
  have pl: "length pre \<le> length (s_data s)" and pl2: "length pre + length bs \<le> length (s_data s)"
    using h(1) Ld by simp_all
  have "holds ?b' (pre @ bs)"
    using s2(1,2) pb Ls h(1) pl2 take_overwrite [OF pl, of bs] tks
    by (simp add: holds_def inside_def stream_wf_def length_overwrite)
  moreover have "transport_read_nonblocking t = Some (int (length bs), t\<lparr>t_net := n, t_recv_buffer := ?b'\<rparr>)"
    using s r by (cases "bs = []") (simp_all add: transport_read_nonblocking_def overwrite_def stream_seek_def)
  moreover have "L \<le> s_size ?b'" using Ls by simp
  ultimately show ?thesis using h
    by (intro exI [of _ bs] exI [of _ n] exI [of _ ?b']) simp
qed

lemma check_fds_step:
  assumes "polling t" and "holds (t_recv_buffer t) pre" and "packet_ahead (pre @ input_of t) L"
    and "int (length pre) < L"
  shows "\<exists>bs n b. holds b (pre @ bs) \<and> L \<le> s_size b
    \<and> input_of t = bs @ recv_bytes (net_recv n) \<and> steady (net_recv n)
    \<and> recv_weight (net_recv n) < recv_weight (net_recv (t_net t))
    \<and> (if int (length (pre @ bs)) < L
       then transport_check_fds junk cb t x = Some (0, t\<lparr>t_net := n, t_recv_buffer := b\<rparr>, x)
       else int (length (pre @ bs)) = L \<and> (let s = stm [] (s_data b) L in
         transport_check_fds junk cb t x = Option.bind
           (do_callback cb (t\<lparr>t_net := n, t_recv_buffer := s\<rparr>) x s)
           (\<lambda>(st, buf, t, x). if st \<noteq> 0 then Some (-1, t\<lparr>t_recv_buffer := buf\<rparr>, x)
              else Some (0, t\<lparr>t_recv_buffer := stream_set_pos buf 0\<rparr>, x))))"
proof -
  obtain bs n b where r: "transport_read_nonblocking t
      = Some (int (length bs), t\<lparr>t_net := n, t_recv_buffer := b\<rparr>)"
    and hb: "holds b (pre @ bs)" "L \<le> s_size b" and le: "int (length (pre @ bs)) \<le> L"
    and h: "input_of t = bs @ recv_bytes (net_recv n)"
      "steady (net_recv n)" "recv_weight (net_recv n) < recv_weight (net_recv (t_net t))"
    using read_nonblocking_step [OF assms] by blast
  let ?q = "pre @ bs" and ?t = "t\<lparr>t_net := n, t_recv_buffer := b\<rparr>"
  have lv: "t_level t = 0" and ly: "t_layer t \<noteq> TRANSPORT_LAYER_TSG"
    using assms(1) linked_not_tsg by (auto simp: polling_def)
  have pos: "s_p b = int (length ?q)" using hb(1) by (simp add: holds_def)
  have L: "L = announced (pre @ input_of t)" "4 < L" "hd (pre @ input_of t) \<noteq> 0x30"
    using assms(3) by (auto simp: packet_ahead_def)
  show ?thesis
  proof (cases "length ?q \<le> 4")
    case True
    then have "transport_check_fds junk cb t x = Some (0, ?t, x)"
      using lv ly r pos by (auto simp: transport_check_fds_def stream_get_pos_def)
    with True L(2) hb h show ?thesis
      by (intro exI [of _ bs] exI [of _ n] exI [of _ b]) simp
  next
    case False
    have q4: "4 \<le> length ?q" using False by simp
    then obtain a1 a2 a3 a4 r0 where q: "?q = a1 # a2 # a3 # a4 # r0" using four_bytes by blast
    have dq: "s_data b = ?q @ drop (length ?q) (s_data b)"
      using hb(1) unfolding holds_def by (metis append_take_drop_id)
    have db: "s_data b = a1 # a2 # a3 # a4 # (r0 @ drop (length ?q) (s_data b))"
      using dq unfolding q by simp
    have a1: "a1 \<noteq> 0x30" using L(3) q h(1) by (metis append.assoc hd_append2 list.sel(1) list.distinct(1))
    have an: "announced (s_data b) = L"
    proof -
      have "announced (s_data b) = announced (a1 # a2 # a3 # a4 # r0)"
        by (rule trans [OF arg_cong [OF db]]) simp
      also have "\<dots> = announced ?q" by (simp only: q)
      also have "\<dots> = announced (?q @ recv_bytes (net_recv n))"
        by (rule announced_cong) (use q4 in simp_all)
      finally show ?thesis using L(1) h(1) by simp
    qed
    obtain w b' where hr: "transport_packet_length junk False b = Some (w, b')"
      and w: "uint w = L" "s_data b' = s_data b" "s_size b' = s_size b"
      using header_read [OF db _ a1, of junk] hb(2) L(2) an by auto
    have sp: "stream_set_pos b' (int (length ?q)) = b"
      using w(2,3) pos by (cases b, cases b') (simp add: stream_set_pos_def)
    have st: "stream_set_pos (stream_seal (stream_set_pos b' L)) 0 = stm [] (s_data b) L"
      using w(2) by (cases b') (simp add: stream_set_pos_def stream_seal_def stm_def)
    have "transport_check_fds junk cb t x = (if int (length ?q) < L then Some (0, ?t, x)
      else Option.bind (do_callback cb (t\<lparr>t_net := n, t_recv_buffer := stm [] (s_data b) L\<rparr>) x (stm [] (s_data b) L))
           (\<lambda>(st, buf, t, x). if st \<noteq> 0 then Some (-1, t\<lparr>t_recv_buffer := buf\<rparr>, x)
              else Some (0, t\<lparr>t_recv_buffer := stream_set_pos buf 0\<rparr>, x)))"
      using False lv ly r hr w(1) L(2) sp st
      by (simp add: transport_check_fds_def stream_get_pos_def pos Let_def)
    with hb h le show ?thesis
      by (intro exI [of _ bs] exI [of _ n] exI [of _ b]) (simp add: Let_def)
  qed
qed

section \<open>Polling\<close>

text \<open>The client's loop: check the connection again and again, stop on an error.\<close>

fun poll :: "nat \<Rightarrow> u16 \<Rightarrow> 'x recv_callback \<Rightarrow> rdpTransport \<Rightarrow> 'x \<Rightarrow> (int \<times> rdpTransport \<times> 'x) option" where
  "poll 0 junk cb t x = Some (0, t, x)"
| "poll (Suc m) junk cb t x = do {
     (st, t, x) \<leftarrow> transport_check_fds junk cb t x;
     (if st < 0 then Some (st, t, x) else poll m junk cb t x) }"

text \<open>A callback that accepts every packet and keeps a copy.\<close>

definition record_packet :: "u8 list list recv_callback" where
  "record_packet t x s = Some (True, s, t, x @ [take (nat (s_size s)) (s_data s)])"

lemma do_callback_record:
  "do_callback record_packet t x (stm [] d L) = Some (0, stm [] d L, t, x @ [take (nat L) d])"
  by (simp add: do_callback_def record_packet_def)

lemma poll_add: "poll m junk cb t x = Some (0, t', x') \<Longrightarrow> poll (m + k) junk cb t x = poll k junk cb t' x'"
proof (induction m arbitrary: t x)
  case (Suc m)
  then show ?case by (auto simp: bind_eq_Some_iff split: if_splits)
qed simp

lemma poll_delivers_one:
  assumes "polling t" and "holds (t_recv_buffer t) pre" and "packet_ahead (pre @ input_of t) L"
    and "int (length pre) < L"
  shows "\<exists>m t'. poll m junk record_packet t x = Some (0, t', x @ [take (nat L) (pre @ input_of t)])
    \<and> polling t' \<and> holds (t_recv_buffer t') [] \<and> input_of t' = drop (nat L) (pre @ input_of t)"
  using assms
proof (induction "recv_weight (net_recv (t_net t))" arbitrary: t pre rule: less_induct)
  case less
  obtain bs n b where hb: "holds b (pre @ bs)" "L \<le> s_size b"
    and h: "input_of t = bs @ recv_bytes (net_recv n)" "steady (net_recv n)"
      "recv_weight (net_recv n) < recv_weight (net_recv (t_net t))"
    and step: "if int (length (pre @ bs)) < L
       then transport_check_fds junk record_packet t x = Some (0, t\<lparr>t_net := n, t_recv_buffer := b\<rparr>, x)
       else int (length (pre @ bs)) = L \<and> (let s = stm [] (s_data b) L in
         transport_check_fds junk record_packet t x = Option.bind
           (do_callback record_packet (t\<lparr>t_net := n, t_recv_buffer := s\<rparr>) x s)
           (\<lambda>(st, buf, t, x). if st \<noteq> 0 then Some (-1, t\<lparr>t_recv_buffer := buf\<rparr>, x)
              else Some (0, t\<lparr>t_recv_buffer := stream_set_pos buf 0\<rparr>, x)))"
    using check_fds_step [OF less.prems, of junk record_packet x] by blast
  show ?case
  proof (cases "int (length (pre @ bs)) < L")
    case True
    let ?t = "t\<lparr>t_net := n, t_recv_buffer := b\<rparr>"
    have e: "pre @ input_of t = (pre @ bs) @ input_of ?t" using h(1) by simp
    have "\<exists>m t'. poll m junk record_packet ?t x = Some (0, t', x @ [take (nat L) ((pre @ bs) @ input_of ?t)])
      \<and> polling t' \<and> holds (t_recv_buffer t') [] \<and> input_of t' = drop (nat L) ((pre @ bs) @ input_of ?t)"
      by (rule less.hyps) (use h(2,3) hb(1) True less.prems(1,3) e polling_net in auto)
    then obtain m t' where "poll m junk record_packet ?t x = Some (0, t', x @ [take (nat L) (pre @ input_of t)])"
      "polling t'" "holds (t_recv_buffer t') []" "input_of t' = drop (nat L) (pre @ input_of t)"
      unfolding e by blast
    moreover have "transport_check_fds junk record_packet t x = Some (0, ?t, x)" using step True by simp
    ultimately show ?thesis by (intro exI [of _ "Suc m"] exI [of _ t']) simp
  next
    case False
    let ?s = "stm [] (s_data b) L"
    let ?t = "t\<lparr>t_net := n, t_recv_buffer := ?s\<rparr>"
    have l: "int (length (pre @ bs)) = L" using step False by simp
    have sp: "stream_set_pos ?s 0 = ?s" by (simp add: stream_set_pos_def stm_def)
    have tk: "take (nat L) (s_data b) = pre @ bs"
      using hb(1) l by (metis holds_def nat_int)
    have "transport_check_fds junk record_packet t x = Some (0, ?t, x @ [pre @ bs])"
      using step False by (simp add: do_callback_record Let_def sp tk)
    moreover have "pre @ bs = take (nat L) (pre @ input_of t)"
      and "recv_bytes (net_recv n) = drop (nat L) (pre @ input_of t)"
      using l h(1) by auto
    moreover have "holds ?s []"
      using hb l by (simp add: holds_def inside_def)
    ultimately show ?thesis
      using polling_net [OF less.prems(1) h(2), of ?s]
      by (intro exI [of _ 1] exI [of _ ?t]) simp
  qed
qed

definition is_packet :: "u8 list \<Rightarrow> bool" where
  "is_packet p \<longleftrightarrow> announced p = int (length p) \<and> 4 < length p \<and> length p \<le> 32768 \<and> hd p \<noteq> 0x30"

lemma packet_ahead_append:
  assumes "is_packet p"
  shows "packet_ahead (p @ r) (int (length p))"
proof -
  have "announced (p @ r) = announced p"
    by (rule announced_cong) (use assms in \<open>auto simp: is_packet_def\<close>)
  moreover have "p \<noteq> []"
  proof
    assume "p = []"
    with assms show False by (simp add: is_packet_def)
  qed
  ultimately show ?thesis using assms by (simp add: packet_ahead_def is_packet_def)
qed

lemma poll_delivers:
  assumes "polling t" and "holds (t_recv_buffer t) []" and "input_of t = concat ps @ rest"
    and "\<forall>p \<in> set ps. is_packet p"
  shows "\<exists>m t'. poll m junk record_packet t x = Some (0, t', x @ ps)
    \<and> polling t' \<and> holds (t_recv_buffer t') [] \<and> input_of t' = rest"
  using assms
proof (induction ps arbitrary: t x)
  case Nil
  then show ?case by (intro exI [of _ 0] exI [of _ t]) simp
next
  case (Cons p ps)
  have "is_packet p" using Cons.prems(4) by simp
  then have ah: "packet_ahead ([] @ input_of t) (int (length p))"
    using packet_ahead_append [of p "concat ps @ rest"] Cons.prems(3) by simp
  have "int (length ([] :: u8 list)) < int (length p)"
    using \<open>is_packet p\<close> by (cases p) (simp_all add: is_packet_def)
  from poll_delivers_one [OF Cons.prems(1,2) ah this, of junk x] Cons.prems(3)
  obtain m t' where m: "poll m junk record_packet t x = Some (0, t', x @ [p])"
    and t': "polling t'" "holds (t_recv_buffer t') []" "input_of t' = concat ps @ rest"
    by auto
  from Cons.IH [OF t', of "x @ [p]"] Cons.prems(4) obtain k t''
    where "poll k junk record_packet t' (x @ [p]) = Some (0, t'', (x @ [p]) @ ps)"
      and "polling t''" "holds (t_recv_buffer t'') []" "input_of t'' = rest" by auto
  then show ?case using poll_add [OF m, of k] by (intro exI [of _ "m + k"] exI [of _ t'']) simp
qed

section \<open>Packets too short to be seen\<close>

lemma check_fds_short:
  assumes "linked t" and "t_level t = 0" and "holds (t_recv_buffer t) pre" and "length pre = 4"
    and "announced pre \<le> 4"
  shows "\<exists>b. transport_check_fds junk cb t x = Some (0, t\<lparr>t_recv_buffer := b\<rparr>, x) \<and> holds b pre"
proof -
  let ?b = "t_recv_buffer t"
  have wf: "stream_wf ?b" and pb: "s_p ?b = 4" and tk: "take 4 (s_data ?b) = pre" and ps: "4 \<le> s_size ?b"
    using assms(3,4) by (auto simp: holds_def inside_def stream_wf_def)
  obtain s where s: "stream_check_size ?b (32 * 1024) = Some s" and s2: "stream_wf s" "s_p s = s_p ?b"
    "s_p ?b + 32 * 1024 \<le> s_size s" "take (nat (s_size ?b)) (s_data s) = take (nat (s_size ?b)) (s_data ?b)"
    using stream_check_size_grows [OF wf, of "32 * 1024"] by auto
  have psn: "4 \<le> nat (s_size ?b)" using ps by simp
  have "take 4 (take (nat (s_size ?b)) (s_data s)) = pre"
    unfolding s2(4) using psn tk by (simp add: min_def)
  then have tks: "take (length pre) (s_data s) = pre"
    using psn assms(4) by (simp add: min_def)
  then have hs: "holds s pre"
    using s2(1-3) pb assms(4) by (simp add: holds_def inside_def stream_wf_def)
  have "transport_pdu_bytes t s = Some (announced pre)"
    using pdu_bytes_of_prefix [OF assms(1) _ tks] assms(4) by simp
  moreover have "transport_read_layer t s 4 (announced pre - 4) = Some (0, s, t)"
    unfolding transport_read_layer_def using assms(5) by (subst transport_read_loop.simps) simp
  ultimately have "transport_read t s = Some (0, s, t)"
    using linked_not_tsg [OF assms(1)] s2(2) pb
    by (subst transport_read.simps) (simp add: stream_get_length_def)
  then have "transport_read_nonblocking t = Some (0, t\<lparr>t_recv_buffer := s\<rparr>)"
    using s by (simp add: transport_read_nonblocking_def)
  then have "transport_check_fds junk cb t x = Some (0, t\<lparr>t_recv_buffer := s\<rparr>, x)"
    using assms(2) linked_not_tsg [OF assms(1)] s2(2) pb
    by (simp add: transport_check_fds_def stream_get_pos_def Let_def)
  with hs show ?thesis by blast
qed

section \<open>Properties\<close>

text \<open>
  C1: whatever way the network cuts a sequence of packets into chunks, polling the connection
  with \<open>transport_check_fds\<close> hands exactly these packets, whole, once each and in order, to the
  receive callback, and leaves the bytes behind them unread. The packets are those with a TPKT
  or fast-path header of more than 4 and at most 32768 bytes.
\<close>

theorem check_fds_reassembles:
  assumes "polling t" and "holds (t_recv_buffer t) []" and "input_of t = concat ps @ rest"
    and "\<forall>p \<in> set ps. is_packet p"
  shows "\<exists>m t'. poll m junk record_packet t [] = Some (0, t', ps) \<and> input_of t' = rest"
  using poll_delivers [OF assms, of junk "[]"] by auto

text \<open>A connected transport with a given input script, for the examples.\<close>

definition demo_transport :: "tbool \<Rightarrow> recv_event list \<Rightarrow> send_event list \<Rightarrow> rdpTransport" where
  "demo_transport blk es ws = (transport_new settings_zero
     \<lparr>net_recv = es, net_send = ws, net_conn = [], net_tls = [], net_credssp = [], net_tsg = [],
      net_skip = [], net_rpch = [], net_fcntl = [], net_sent = [], net_rpc_sent = []\<rparr>)
     \<lparr>t_blocking := blk, t_tcp_out := Tcp_same\<rparr>"

lemma demo_sel [simp]:
  "t_net (demo_transport blk es ws) = \<lparr>net_recv = es, net_send = ws, net_conn = [], net_tls = [],
     net_credssp = [], net_tsg = [], net_skip = [], net_rpch = [], net_fcntl = [], net_sent = [],
     net_rpc_sent = []\<rparr>"
  "t_layer (demo_transport blk es ws) = TRANSPORT_LAYER_TCP" "t_level (demo_transport blk es ws) = 0"
  "t_blocking (demo_transport blk es ws) = blk" "t_tcp_out (demo_transport blk es ws) = Tcp_same"
  "t_recv_buffer (demo_transport blk es ws) = stream_new BUFFER_SIZE"
  by (simp_all add: demo_transport_def transport_new_def)

lemma holds_new: "0 < n \<Longrightarrow> holds (stream_new n) []"
  by (simp add: holds_def inside_def stream_new_def)

theorem check_fds_reassembles_witness:
  "\<exists>m t'. poll m 0 record_packet
     (demo_transport False [Recv_data [3, 0, 0], Recv_again, Recv_data [6, 7, 8, 0, 5, 1], Recv_data [2, 3, 9]] []) []
     = Some (0, t', [[3, 0, 0, 6, 7, 8], [0, 5, 1, 2, 3]]) \<and> input_of t' = [9]"
  by (rule check_fds_reassembles)
    (simp_all add: polling_def linked_def is_packet_def holds_new BUFFER_SIZE_def)

text \<open>
  C21: a packet that announces a length of at most four bytes stalls the receiver for good. Once
  its four header bytes are in the buffer, every further poll returns 0 without calling the
  callback and without reading anything, whatever has arrived on the connection.
\<close>

theorem short_packet_stalls:
  assumes "linked t" and "t_level t = 0" and "holds (t_recv_buffer t) pre" and "length pre = 4"
    and "announced pre \<le> 4"
  shows "\<exists>t'. poll m junk cb t x = Some (0, t', x) \<and> t_net t' = t_net t \<and> holds (t_recv_buffer t') pre"
  using assms
proof (induction m arbitrary: t)
  case (Suc m)
  obtain b where c: "transport_check_fds junk cb t x = Some (0, t\<lparr>t_recv_buffer := b\<rparr>, x)" and b: "holds b pre"
    using check_fds_short [OF Suc.prems, of junk cb x] by blast
  have "\<exists>t'. poll m junk cb (t\<lparr>t_recv_buffer := b\<rparr>) x = Some (0, t', x)
      \<and> t_net t' = t_net (t\<lparr>t_recv_buffer := b\<rparr>) \<and> holds (t_recv_buffer t') pre"
    by (rule Suc.IH) (use Suc.prems b in \<open>simp_all add: linked_def\<close>)
  with c show ?case by simp
qed auto

theorem short_packet_stalls_witness:
  "\<exists>t'. poll 1000 0 record_packet
     ((demo_transport False [Recv_data [3, 0, 0, 9]] [])\<lparr>t_recv_buffer := stm [0, 4, 1, 2] [] 4\<rparr>) []
     = Some (0, t', []) \<and> net_recv (t_net t') = [Recv_data [3, 0, 0, 9]]"
proof -
  let ?t = "(demo_transport False [Recv_data [3, 0, 0, 9]] [])\<lparr>t_recv_buffer := stm [0, 4, 1, 2] [] 4\<rparr>"
  have "\<exists>t'. poll 1000 0 record_packet ?t [] = Some (0, t', []) \<and> t_net t' = t_net ?t
      \<and> holds (t_recv_buffer t') [0, 4, 1, 2]"
    by (rule short_packet_stalls) (simp_all add: linked_def holds_def inside_def)
  then show ?thesis by auto
qed

text \<open>
  C3: a blocking \<open>transport_read\<close> into an empty stream reads exactly one packet, the one announced
  by its first four bytes, into the beginning of the stream's block, and leaves the rest of the
  input for the next call, however the network delivers the bytes.
\<close>

theorem transport_read_one_packet:
  assumes "ready t" and "s_p s = 0" and "4 \<le> length (input_of t)"
    and "4 \<le> announced (input_of t)" and "announced (input_of t) \<le> int (length (input_of t))"
    and "announced (input_of t) \<le> int (length (s_data s))"
  shows "\<exists>n. transport_read t s = Some (announced (input_of t),
       s\<lparr>s_data := overwrite (s_data s) 0 (take (nat (announced (input_of t))) (input_of t))\<rparr>, t\<lparr>t_net := n\<rparr>)
    \<and> recv_bytes (net_recv n) = drop (nat (announced (input_of t))) (input_of t)"
  using transport_read_pdu [OF assms(1-3) refl assms(4-6)] by blast

theorem transport_read_one_packet_witness:
  "\<exists>n. transport_read (demo_transport True [Recv_data [3, 0], Recv_again, Recv_data [0, 6, 7, 8, 9]] [])
       (stm [] [0, 0, 0, 0, 0, 0, 0, 0] 8)
     = Some (6, stm [] [3, 0, 0, 6, 7, 8, 0, 0] 8,
         (demo_transport True [Recv_data [3, 0], Recv_again, Recv_data [0, 6, 7, 8, 9]] [])\<lparr>t_net := n\<rparr>)
    \<and> recv_bytes (net_recv n) = [9]"
  using transport_read_one_packet
    [of "demo_transport True [Recv_data [3, 0], Recv_again, Recv_data [0, 6, 7, 8, 9]] []" "stm [] [0, 0, 0, 0, 0, 0, 0, 0] 8"]
  by (simp add: ready_def linked_def stm_def overwrite_def)

text \<open>
  C20: \<open>transport_read\<close> never compares the announced length with the size of the stream. When the
  peer announces, and sends, more than the block holds, the read writes behind the end of the
  block.
\<close>

theorem transport_read_overflow:
  assumes "ready t" and "s_p s = 0" and "4 \<le> length (s_data s)"
    and "announced (input_of t) \<le> int (length (input_of t))"
    and "int (length (s_data s)) < announced (input_of t)"
  shows "transport_read t s = None"
  using assms by (rule transport_read_beyond)

theorem transport_read_overflow_witness:
  "transport_read (demo_transport True [Recv_data [3, 0, 0, 6, 7, 8]] []) (stm [] [0, 0, 0, 0, 0] 5) = None"
  by (rule transport_read_overflow) (simp_all add: ready_def linked_def)



end
