(* ===== verification/Nego.thy ===== *)
theory Nego
  imports Transport_Framing
begin

unbundle bit_operations_syntax

text \<open>
  Protocol security negotiation: \<^verbatim>\<open>libfreerdp-core/nego.c\<close>. A negotiation object owns the
  transport it runs on; \<open>cookie\<close> is a C string without its terminating zero. The loop of
  \<open>nego_connect\<close> may run as long as the server keeps answering with messages of unknown type, so
  it is a partial function; that it returns is proved below.
\<close>

section \<open>Constants and state\<close>

definition PROTOCOL_RDP :: u32 where "PROTOCOL_RDP = 0"
definition PROTOCOL_TLS :: u32 where "PROTOCOL_TLS = 1"
definition PROTOCOL_NLA :: u32 where "PROTOCOL_NLA = 2"

definition SSL_REQUIRED_BY_SERVER :: u32 where "SSL_REQUIRED_BY_SERVER = 1"

definition TYPE_RDP_NEG_REQ :: u8 where "TYPE_RDP_NEG_REQ = 0x1"
definition TYPE_RDP_NEG_RSP :: u8 where "TYPE_RDP_NEG_RSP = 0x2"
definition TYPE_RDP_NEG_FAILURE :: u8 where "TYPE_RDP_NEG_FAILURE = 0x3"
definition EXTENDED_CLIENT_DATA_SUPPORTED :: u8 where "EXTENDED_CLIENT_DATA_SUPPORTED = 0x01"

definition ENCRYPTION_METHOD_NONE :: u32 where "ENCRYPTION_METHOD_NONE = 0x00000000"
definition ENCRYPTION_METHOD_40BIT :: u32 where "ENCRYPTION_METHOD_40BIT = 0x00000001"
definition ENCRYPTION_METHOD_128BIT :: u32 where "ENCRYPTION_METHOD_128BIT = 0x00000002"
definition ENCRYPTION_METHOD_FIPS :: u32 where "ENCRYPTION_METHOD_FIPS = 0x00000010"
definition ENCRYPTION_LEVEL_NONE :: u32 where "ENCRYPTION_LEVEL_NONE = 0x00000000"
definition ENCRYPTION_LEVEL_CLIENT_COMPATIBLE :: u32 where "ENCRYPTION_LEVEL_CLIENT_COMPATIBLE = 0x00000002"

lemmas protocol_defs = PROTOCOL_RDP_def PROTOCOL_TLS_def PROTOCOL_NLA_def
lemmas neg_type_defs = TYPE_RDP_NEG_REQ_def TYPE_RDP_NEG_RSP_def TYPE_RDP_NEG_FAILURE_def
lemmas encryption_defs = ENCRYPTION_METHOD_NONE_def ENCRYPTION_METHOD_40BIT_def
  ENCRYPTION_METHOD_128BIT_def ENCRYPTION_METHOD_FIPS_def ENCRYPTION_LEVEL_NONE_def
  ENCRYPTION_LEVEL_CLIENT_COMPATIBLE_def

datatype NEGO_STATE = NEGO_STATE_INITIAL | NEGO_STATE_NLA | NEGO_STATE_TLS | NEGO_STATE_RDP
  | NEGO_STATE_FAIL | NEGO_STATE_FINAL

record rdpNego =
  n_port :: int
  n_flags :: u32
  n_hostname :: string
  n_cookie :: "u8 list option"
  n_state :: NEGO_STATE
  n_tcp_connected :: int
  n_routing_token :: "u8 list option"
  n_selected_protocol :: u32
  n_requested_protocols :: u32
  n_enabled_rdp :: tbool
  n_enabled_tls :: tbool
  n_enabled_nla :: tbool
  n_transport :: rdpTransport

abbreviation n_settings :: "rdpNego \<Rightarrow> rdpSettings" where
  "n_settings g \<equiv> t_settings (n_transport g)"

definition nego_set_settings :: "rdpNego \<Rightarrow> rdpSettings \<Rightarrow> rdpNego" where
  "nego_set_settings g st = g\<lparr>n_transport := (n_transport g)\<lparr>t_settings := st\<rparr>\<rparr>"

definition nego_init :: "rdpNego \<Rightarrow> rdpNego" where
  "nego_init g = g\<lparr>n_state := NEGO_STATE_INITIAL, n_requested_protocols := PROTOCOL_RDP, n_flags := 0\<rparr>"

definition nego_new :: "rdpTransport \<Rightarrow> rdpNego" where
  "nego_new t = nego_init
     \<lparr>n_port = 0, n_flags = 0, n_hostname = '''', n_cookie = None, n_state = NEGO_STATE_INITIAL,
      n_tcp_connected = 0, n_routing_token = None, n_selected_protocol = 0,
      n_requested_protocols = 0, n_enabled_rdp = False, n_enabled_tls = False,
      n_enabled_nla = False, n_transport = t\<rparr>"

definition nego_set_target :: "rdpNego \<Rightarrow> string \<Rightarrow> int \<Rightarrow> rdpNego" where
  "nego_set_target g hostname port = g\<lparr>n_hostname := hostname, n_port := port\<rparr>"

definition nego_enable_rdp :: "rdpNego \<Rightarrow> tbool \<Rightarrow> rdpNego" where
  "nego_enable_rdp g enable_rdp = g\<lparr>n_enabled_rdp := enable_rdp\<rparr>"

definition nego_enable_tls :: "rdpNego \<Rightarrow> tbool \<Rightarrow> rdpNego" where
  "nego_enable_tls g enable_tls = g\<lparr>n_enabled_tls := enable_tls\<rparr>"

definition nego_enable_nla :: "rdpNego \<Rightarrow> tbool \<Rightarrow> rdpNego" where
  "nego_enable_nla g enable_nla = g\<lparr>n_enabled_nla := enable_nla\<rparr>"

definition nego_set_routing_token :: "rdpNego \<Rightarrow> u8 list option \<Rightarrow> rdpNego" where
  "nego_set_routing_token g routing_token = g\<lparr>n_routing_token := routing_token\<rparr>"

definition nego_set_cookie :: "rdpNego \<Rightarrow> u8 list option \<Rightarrow> rdpNego" where
  "nego_set_cookie g cookie = g\<lparr>n_cookie := cookie\<rparr>"

section \<open>Connection\<close>

definition nego_tcp_connect :: "rdpNego \<Rightarrow> (tbool \<times> rdpNego) option" where
  "nego_tcp_connect g =
     (if n_tcp_connected g = 0 then do {
        (b, t) \<leftarrow> transport_connect (n_transport g);
        let g = g\<lparr>n_transport := t\<rparr>;
        (if \<not> b then Some (False, g\<lparr>n_tcp_connected := 0\<rparr>) else Some (True, g\<lparr>n_tcp_connected := 1\<rparr>)) }
      else Some (True, g))"

definition nego_tcp_disconnect :: "rdpNego \<Rightarrow> rdpNego option" where
  "nego_tcp_disconnect g = do {
     g \<leftarrow> (if n_tcp_connected g \<noteq> 0 then do {
              (_, t) \<leftarrow> transport_disconnect (n_transport g);
              Some (g\<lparr>n_transport := t\<rparr>) }
            else Some g);
     Some (g\<lparr>n_tcp_connected := 0\<rparr>) }"

section \<open>Messages\<close>

definition nego_process_negotiation_request :: "rdpNego \<Rightarrow> STREAM \<Rightarrow> (rdpNego \<times> STREAM) option" where
  "nego_process_negotiation_request g s = do {
     (flags, s) \<leftarrow> stream_read_uint8 s;
     (len, s) \<leftarrow> stream_read_uint16 s;
     (p, s) \<leftarrow> stream_read_uint32 s;
     Some (g\<lparr>n_requested_protocols := p, n_state := NEGO_STATE_FINAL\<rparr>, s) }"

definition nego_process_negotiation_response :: "rdpNego \<Rightarrow> STREAM \<Rightarrow> (rdpNego \<times> STREAM) option" where
  "nego_process_negotiation_response g s = do {
     (flags, s) \<leftarrow> stream_read_uint8 s;
     (len, s) \<leftarrow> stream_read_uint16 s;
     (p, s) \<leftarrow> stream_read_uint32 s;
     Some (g\<lparr>n_flags := ucast flags, n_selected_protocol := p, n_state := NEGO_STATE_FINAL\<rparr>, s) }"

text \<open>The failure code is only logged.\<close>

definition nego_process_negotiation_failure :: "rdpNego \<Rightarrow> STREAM \<Rightarrow> (rdpNego \<times> STREAM) option" where
  "nego_process_negotiation_failure g s = do {
     (flags, s) \<leftarrow> stream_read_uint8 s;
     (len, s) \<leftarrow> stream_read_uint16 s;
     (failureCode, s) \<leftarrow> stream_read_uint32 s;
     Some (g\<lparr>n_state := NEGO_STATE_FAIL\<rparr>, s) }"

definition nego_recv :: "rdpNego \<Rightarrow> STREAM \<Rightarrow> (tbool \<times> rdpNego \<times> STREAM) option" where
  "nego_recv g s = do {
     (len, s) \<leftarrow> tpkt_read_header s;
     (if len = 0 then Some (False, g, s)
      else do {
        (li, s) \<leftarrow> tpdu_read_connection_confirm s;
        (if li > 6 then do {
           (type, s) \<leftarrow> stream_read_uint8 s;
           (g, s) \<leftarrow>
             (if type = TYPE_RDP_NEG_RSP then nego_process_negotiation_response g s
              else if type = TYPE_RDP_NEG_FAILURE then nego_process_negotiation_failure g s
              else Some (g, s));
           Some (True, g, s) }
         else Some (True, g\<lparr>n_state := NEGO_STATE_FINAL\<rparr>, s)) }) }"

definition nego_recv_response :: "rdpNego \<Rightarrow> (tbool \<times> rdpNego) option" where
  "nego_recv_response g = do {
     (s, t) \<leftarrow> transport_recv_stream_init (n_transport g) 1024;
     (status, s, t) \<leftarrow> transport_read t s;
     let g = g\<lparr>n_transport := t\<lparr>t_recv_stream := s\<rparr>\<rparr>;
     (if status < 0 then Some (False, g)
      else do {
        (rv, g, s) \<leftarrow> nego_recv g s;
        Some (rv, g\<lparr>n_transport := (n_transport g)\<lparr>t_recv_stream := s\<rparr>\<rparr>) }) }"

text \<open>Skipping a routing token or cookie up to its CR LF.\<close>

function nego_skip_cookie :: "STREAM \<Rightarrow> STREAM option" where
  "nego_skip_cookie s =
     (if stream_get_left s > 0 then do {
        (c, s1) \<leftarrow> stream_read_uint8 s;
        let s1 = stream_seek s 1;
        (if c \<noteq> 0x0D then nego_skip_cookie s1
         else do {
           c \<leftarrow> stream_peek_uint8 s1;
           (if c \<noteq> 0x0A then nego_skip_cookie s1 else Some (stream_seek s1 1)) }) }
      else Some s)"
  by pat_completeness auto
termination
  by (relation "measure (\<lambda>s. nat (stream_get_left s))") auto

declare nego_skip_cookie.simps [simp del]

definition nego_read_request :: "rdpNego \<Rightarrow> STREAM \<Rightarrow> (tbool \<times> rdpNego \<times> STREAM) option" where
  "nego_read_request g s = do {
     (_, s) \<leftarrow> tpkt_read_header s;
     (li, s) \<leftarrow> tpdu_read_connection_request s;
     (if uint li \<noteq> stream_get_left s + 6 then Some (False, g, s)
      else do {
        s \<leftarrow> (if stream_get_left s > 8 then nego_skip_cookie s else Some s);
        (if stream_get_left s \<ge> 8 then do {
           (type, s) \<leftarrow> stream_read_uint8 s;
           (if type \<noteq> TYPE_RDP_NEG_REQ then Some (False, g, s)
            else do {
              (g, s) \<leftarrow> nego_process_negotiation_request g s;
              Some (True, g, s) }) }
         else Some (True, g, s)) }) }"

text \<open>\<open>Cookie: mstshash=\<close>\<close>

definition cookie_prefix :: "u8 list" where
  "cookie_prefix = [0x43, 0x6F, 0x6F, 0x6B, 0x69, 0x65, 0x3A, 0x20, 0x6D, 0x73, 0x74, 0x73, 0x68,
     0x61, 0x73, 0x68, 0x3D]"

text \<open>Writing the headers in front of a body: back to \<open>bm\<close>, and forward again to \<open>em\<close>.\<close>

definition nego_send_negotiation_request :: "rdpNego \<Rightarrow> (tbool \<times> rdpNego) option" where
  "nego_send_negotiation_request g = do {
     (s, t) \<leftarrow> transport_send_stream_init (n_transport g) 256;
     let len = TPDU_CONNECTION_REQUEST_LENGTH;
     let bm = stream_get_pos s;
     let s = stream_seek s len;
     (len, s) \<leftarrow> (case n_routing_token g of
         Some token \<Rightarrow> do {
           s \<leftarrow> stream_write s token (int (length token));
           Some (len + int (length token), s) }
       | None \<Rightarrow> (case n_cookie g of
           Some cookie \<Rightarrow> do {
             let cookie_length = int (length cookie);
             s \<leftarrow> stream_write s cookie_prefix 17;
             s \<leftarrow> stream_write s cookie cookie_length;
             s \<leftarrow> stream_write_uint8 s (0x0D :: u8);
             s \<leftarrow> stream_write_uint8 s (0x0A :: u8);
             Some (len + cookie_length + 19, s) }
         | None \<Rightarrow> Some (len, s)));
     (len, s) \<leftarrow> (if n_requested_protocols g > PROTOCOL_RDP then do {
           s \<leftarrow> stream_write_uint8 s TYPE_RDP_NEG_REQ;
           s \<leftarrow> stream_write_uint8 s (0 :: u8);
           s \<leftarrow> stream_write_uint16 s (8 :: u16);
           s \<leftarrow> stream_write_uint32 s (n_requested_protocols g);
           Some (len + 8, s) }
         else Some (len, s));
     let em = stream_get_pos s;
     let s = stream_set_pos s bm;
     s \<leftarrow> tpkt_write_header s (word_of_int len);
     s \<leftarrow> tpdu_write_connection_request s (word_of_int (len - 5));
     let s = stream_set_pos s em;
     (status, s, t) \<leftarrow> transport_write t s;
     let g = g\<lparr>n_transport := t\<lparr>t_send_stream := s\<rparr>\<rparr>;
     Some (\<not> status < 0, g) }"

definition nego_send_negotiation_response :: "rdpNego \<Rightarrow> (tbool \<times> rdpNego) option" where
  "nego_send_negotiation_response g = do {
     (s, t) \<leftarrow> transport_send_stream_init (n_transport g) 256;
     let len = TPDU_CONNECTION_CONFIRM_LENGTH;
     let bm = stream_get_pos s;
     let s = stream_seek s len;
     (ret, len, s) \<leftarrow>
       (if n_selected_protocol g > PROTOCOL_RDP then do {
          s \<leftarrow> stream_write_uint8 s TYPE_RDP_NEG_RSP;
          s \<leftarrow> stream_write_uint8 s EXTENDED_CLIENT_DATA_SUPPORTED;
          s \<leftarrow> stream_write_uint16 s (8 :: u16);
          s \<leftarrow> stream_write_uint32 s (n_selected_protocol g);
          Some (True, len + 8, s) }
        else if \<not> set_rdp_security (n_settings g) then do {
          s \<leftarrow> stream_write_uint8 s TYPE_RDP_NEG_FAILURE;
          s \<leftarrow> stream_write_uint8 s (0 :: u8);
          s \<leftarrow> stream_write_uint16 s (8 :: u16);
          s \<leftarrow> stream_write_uint32 s SSL_REQUIRED_BY_SERVER;
          Some (False, len + 8, s) }
        else Some (True, len, s));
     let em = stream_get_pos s;
     let s = stream_set_pos s bm;
     s \<leftarrow> tpkt_write_header s (word_of_int len);
     s \<leftarrow> tpdu_write_connection_confirm s (word_of_int (len - 5));
     let s = stream_set_pos s em;
     (status, s, t) \<leftarrow> transport_write t s;
     let g = g\<lparr>n_transport := t\<lparr>t_send_stream := s\<rparr>\<rparr>;
     (if status < 0 then Some (False, g)
      else if \<not> ret then Some (False, g)
      else do {
        let st = (n_settings g)\<lparr>set_requested_protocols := n_requested_protocols g,
                   set_selected_protocol := n_selected_protocol g\<rparr>;
        let st =
          (if set_selected_protocol st = PROTOCOL_RDP then st\<lparr>set_tls_security := False,
             set_nla_security := False, set_rdp_security := True, set_encryption := True,
             set_encryption_method := ENCRYPTION_METHOD_40BIT OR ENCRYPTION_METHOD_128BIT OR ENCRYPTION_METHOD_FIPS,
             set_encryption_level := ENCRYPTION_LEVEL_CLIENT_COMPATIBLE\<rparr>
           else if set_selected_protocol st = PROTOCOL_TLS then st\<lparr>set_tls_security := True,
             set_nla_security := False, set_rdp_security := False, set_encryption := False,
             set_encryption_method := ENCRYPTION_METHOD_NONE, set_encryption_level := ENCRYPTION_LEVEL_NONE\<rparr>
           else if set_selected_protocol st = PROTOCOL_NLA then st\<lparr>set_tls_security := True,
             set_nla_security := True, set_rdp_security := False, set_encryption := False,
             set_encryption_method := ENCRYPTION_METHOD_NONE, set_encryption_level := ENCRYPTION_LEVEL_NONE\<rparr>
           else st);
        Some (True, nego_set_settings g st) }) }"

section \<open>Attempts\<close>

text \<open>
  The three attempts run the same exchange with different requested protocols: connect, send the
  request, wait for the answer. A false result makes the caller fail.
\<close>

definition nego_exchange :: "rdpNego \<Rightarrow> (tbool \<times> rdpNego) option" where
  "nego_exchange g = do {
     (b, g) \<leftarrow> nego_tcp_connect g;
     (if \<not> b then Some (False, g)
      else do {
        (b, g) \<leftarrow> nego_send_negotiation_request g;
        (if \<not> b then Some (False, g) else nego_recv_response g) }) }"

definition nego_attempt_nla :: "rdpNego \<Rightarrow> rdpNego option" where
  "nego_attempt_nla g = do {
     (b, g) \<leftarrow> nego_exchange (g\<lparr>n_requested_protocols := PROTOCOL_NLA OR PROTOCOL_TLS\<rparr>);
     (if \<not> b then Some (g\<lparr>n_state := NEGO_STATE_FAIL\<rparr>)
      else if n_state g \<noteq> NEGO_STATE_FINAL then do {
        g \<leftarrow> nego_tcp_disconnect g;
        Some (g\<lparr>n_state :=
          (if n_enabled_tls g then NEGO_STATE_TLS
           else if n_enabled_rdp g then NEGO_STATE_RDP
           else NEGO_STATE_FAIL)\<rparr>) }
      else Some g) }"

definition nego_attempt_tls :: "rdpNego \<Rightarrow> rdpNego option" where
  "nego_attempt_tls g = do {
     (b, g) \<leftarrow> nego_exchange (g\<lparr>n_requested_protocols := PROTOCOL_TLS\<rparr>);
     (if \<not> b then Some (g\<lparr>n_state := NEGO_STATE_FAIL\<rparr>)
      else if n_state g \<noteq> NEGO_STATE_FINAL then do {
        g \<leftarrow> nego_tcp_disconnect g;
        Some (g\<lparr>n_state := (if n_enabled_rdp g then NEGO_STATE_RDP else NEGO_STATE_FAIL)\<rparr>) }
      else Some g) }"

definition nego_attempt_rdp :: "rdpNego \<Rightarrow> rdpNego option" where
  "nego_attempt_rdp g = do {
     (b, g) \<leftarrow> nego_exchange (g\<lparr>n_requested_protocols := PROTOCOL_RDP\<rparr>);
     (if \<not> b then Some (g\<lparr>n_state := NEGO_STATE_FAIL\<rparr>) else Some g) }"

definition nego_send :: "rdpNego \<Rightarrow> rdpNego option" where
  "nego_send g =
     (if n_state g = NEGO_STATE_NLA then nego_attempt_nla g
      else if n_state g = NEGO_STATE_TLS then nego_attempt_tls g
      else if n_state g = NEGO_STATE_RDP then nego_attempt_rdp g
      else Some g)"

definition nego_start :: "rdpNego \<Rightarrow> rdpNego" where
  "nego_start g =
     (if n_state g = NEGO_STATE_INITIAL then
        g\<lparr>n_state :=
          (if n_enabled_nla g then NEGO_STATE_NLA
           else if n_enabled_tls g then NEGO_STATE_TLS
           else if n_enabled_rdp g then NEGO_STATE_RDP
           else NEGO_STATE_FAIL)\<rparr>
      else g)"

partial_function (option) nego_loop :: "rdpNego \<Rightarrow> (tbool \<times> rdpNego) option" where
  "nego_loop g = Option.bind (nego_send g) (\<lambda>g.
     if n_state g = NEGO_STATE_FAIL then Some (False, g\<lparr>n_state := NEGO_STATE_FINAL\<rparr>)
     else if n_state g \<noteq> NEGO_STATE_FINAL then nego_loop g
     else Some (True, g))"

definition nego_connect :: "rdpNego \<Rightarrow> (tbool \<times> rdpNego) option" where
  "nego_connect g = do {
     (b, g) \<leftarrow> nego_loop (nego_start g);
     (if \<not> b then Some (False, g)
      else do {
        let st = (n_settings g)\<lparr>set_requested_protocols := n_requested_protocols g,
                   set_selected_protocol := n_selected_protocol g, set_negotiationFlags := n_flags g\<rparr>;
        let st = (if n_selected_protocol g = PROTOCOL_RDP then st\<lparr>set_encryption := True,
             set_encryption_method := ENCRYPTION_METHOD_40BIT OR ENCRYPTION_METHOD_128BIT OR ENCRYPTION_METHOD_FIPS,
             set_encryption_level := ENCRYPTION_LEVEL_CLIENT_COMPATIBLE\<rparr> else st);
        Some (True, nego_set_settings g st) }) }"

end
