(* ===== verification/Transport_Channel.thy ===== *)
theory Transport_Channel
  imports Transport_Framing
begin

text \<open>
  A blocking TCP connection under an arbitrary environment: reading returns whatever the network
  does as long as the receive stream is not overrun, and writing returns and sends the packet or
  a prefix of it. The connection sequences (negotiation, MCS) are built on these lemmas.
\<close>

section \<open>Reading from an arbitrary connection\<close>

definition tcp_up :: "rdpTransport \<Rightarrow> bool" where
  "tcp_up t \<longleftrightarrow> t_layer t = TRANSPORT_LAYER_TCP \<and> t_blocking t \<and> t_tcp_out t \<noteq> Tcp_null"

fun recv_total :: "recv_event list \<Rightarrow> nat" where
  "recv_total [] = 0"
| "recv_total (Recv_data bs # es) = length bs + recv_total es"
| "recv_total (Recv_again # es) = recv_total es"
| "recv_total (Recv_error # es) = recv_total es"

abbreviation with_recv :: "rdpTransport \<Rightarrow> recv_event list \<Rightarrow> rdpTransport" where
  "with_recv t es \<equiv> t\<lparr>t_net := (t_net t)\<lparr>net_recv := es\<rparr>\<rparr>"

abbreviation script :: "rdpTransport \<Rightarrow> recv_event list" where
  "script t \<equiv> net_recv (t_net t)"

lemma tcp_read_any:
  assumes "0 < len"
  shows "\<exists>st bs es. tcp_read n len = ((st, bs), n\<lparr>net_recv := es\<rparr>)
    \<and> recv_total es + length bs = recv_total (net_recv n)
    \<and> (st < 0 \<and> bs = [] \<and> recv_weight es \<le> recv_weight (net_recv n)
       \<or> st = int (length bs) \<and> st \<le> len \<and> recv_weight es < recv_weight (net_recv n))"
proof (cases "net_recv n")
  case Nil
  then show ?thesis
    by (intro exI [of _ "-1"] exI [of _ "[]"]) (simp add: tcp_read_def os_recv_def)
next
  case (Cons e es)
  show ?thesis
  proof (cases e)
    case (Recv_data ds)
    let ?bs = "take (nat len) ds"
    let ?es = "if drop (nat len) ds = [] then es else Recv_data (drop (nat len) ds) # es"
    let ?st = "if ?bs = [] then -1 else int (length ?bs)"
    have "tcp_read n len = ((?st, ?bs), n\<lparr>net_recv := ?es\<rparr>)"
      using Cons Recv_data by (auto simp: tcp_read_def os_recv_def)
    then show ?thesis using Cons Recv_data assms
      by (intro exI [of _ ?st] exI [of _ ?bs] exI [of _ ?es]) auto
  next
    case Recv_again
    then show ?thesis using Cons assms
      by (intro exI [of _ 0] exI [of _ "[]"] exI [of _ es]) (simp add: tcp_read_def os_recv_def)
  next
    case Recv_error
    then show ?thesis using Cons
      by (intro exI [of _ "-1"] exI [of _ "[]"] exI [of _ es]) (simp add: tcp_read_def os_recv_def)
  qed
qed

text \<open>What a read may do to a stream and to the script.\<close>

definition read_effect :: "rdpTransport \<Rightarrow> STREAM \<Rightarrow> int \<Rightarrow> STREAM \<Rightarrow> recv_event list \<Rightarrow> bool" where
  "read_effect t s k s' es \<longleftrightarrow> s_p s' = s_p s \<and> s_size s' = s_size s \<and> length (s_data s') = length (s_data s)
    \<and> recv_total es \<le> recv_total (script t) \<and> recv_weight es \<le> recv_weight (script t)
    \<and> (0 \<le> k \<longrightarrow> k + int (recv_total es) \<le> int (recv_total (script t)))"

lemma read_loop_any:
  assumes "tcp_up t" and "0 \<le> rd" and "0 \<le> off"
    and "off + rd + int (recv_total (script t)) \<le> int (length (s_data s))"
  shows "\<exists>st s' es. transport_read_loop t s off bytes rd = Some (st, s', with_recv t es)
    \<and> read_effect t s (st - rd) s' es
    \<and> (rd < bytes \<longrightarrow> st < 0 \<or> bytes \<le> st \<and> recv_weight es < recv_weight (script t))"
  using assms
proof (induction "recv_weight (script t)" arbitrary: t s rd rule: less_induct)
  case less
  show ?case
  proof (cases "rd < bytes")
    case False
    then show ?thesis
      by (subst transport_read_loop.simps)
        (auto simp: read_effect_def intro!: exI [of _ rd] exI [of _ s] exI [of _ "script t"])
  next
    case True
    obtain st bs es where r: "tcp_read (t_net t) (bytes - rd) = ((st, bs), (t_net t)\<lparr>net_recv := es\<rparr>)"
      and tot: "recv_total es + length bs = recv_total (script t)"
      and c: "st < 0 \<and> bs = [] \<and> recv_weight es \<le> recv_weight (script t)
       \<or> st = int (length bs) \<and> st \<le> bytes - rd \<and> recv_weight es < recv_weight (script t)"
      using tcp_read_any [of "bytes - rd" "t_net t"] True by auto
    have lr: "transport_layer_read t (bytes - rd) = Some ((st, bs), with_recv t es)"
      using less.prems(1) r by (simp add: transport_layer_read_def tcp_up_def)
    let ?s = "s\<lparr>s_data := overwrite (s_data s) (nat (off + rd)) bs\<rparr>"
    have ss: "stream_store s (off + rd) bs = Some ?s"
      using less.prems(2-4) tot by (auto simp: stream_store_def overwrite_def)
    have len: "length (s_data ?s) = length (s_data s)"
      using less.prems(2-4) tot by simp
    from c show ?thesis
    proof
      assume a: "st < 0 \<and> bs = [] \<and> recv_weight es \<le> recv_weight (script t)"
      then have "transport_read_loop t s off bytes rd = Some (st, ?s, with_recv t es)"
        using True less.prems(1) ss by (subst transport_read_loop.simps) (simp add: lr tcp_up_def)
      then show ?thesis using a tot len less.prems(2)
        by (intro exI [of _ st] exI [of _ ?s] exI [of _ es]) (simp add: read_effect_def)
    next
      assume a: "st = int (length bs) \<and> st \<le> bytes - rd \<and> recv_weight es < recv_weight (script t)"
      let ?t = "with_recv t es"
      have up: "tcp_up ?t" using less.prems(1) by (simp add: tcp_up_def)
      have "transport_wait ?t = Some ()" using up by (simp add: transport_wait_def tcp_up_def)
      then have step: "transport_read_loop t s off bytes rd = transport_read_loop ?t ?s off bytes (rd + st)"
        using True a less.prems(1)
        by (subst transport_read_loop.simps) (simp add: lr ss tcp_up_def)
      have "\<exists>st' s' es'. transport_read_loop ?t ?s off bytes (rd + st) = Some (st', s', with_recv ?t es')
        \<and> read_effect ?t ?s (st' - (rd + st)) s' es'
        \<and> (rd + st < bytes \<longrightarrow> st' < 0 \<or> bytes \<le> st' \<and> recv_weight es' < recv_weight (script ?t))"
        by (rule less.hyps) (use a up less.prems tot len in auto)
      then obtain st' s' es' where IH: "transport_read_loop ?t ?s off bytes (rd + st) = Some (st', s', with_recv t es')"
        and eff: "read_effect ?t ?s (st' - (rd + st)) s' es'"
        and fin: "rd + st < bytes \<longrightarrow> st' < 0 \<or> bytes \<le> st' \<and> recv_weight es' < recv_weight es"
        by auto
      have fin2: "st' = rd + st \<and> es' = es" if "\<not> rd + st < bytes"
        using IH that
        by (subst (asm) transport_read_loop.simps) (auto dest!: arg_cong [where f = "\<lambda>t. script t"])
      show ?thesis
      proof (intro exI [of _ st'] exI [of _ s'] exI [of _ es'] conjI impI)
        show "transport_read_loop t s off bytes rd = Some (st', s', with_recv t es')"
          using step IH by simp
        show "read_effect t s (st' - rd) s' es'"
          using eff a tot len less.prems(2) by (auto simp: read_effect_def)
        show "st' < 0 \<or> bytes \<le> st' \<and> recv_weight es' < recv_weight (script t)"
          using fin fin2 a by (cases "rd + st < bytes") auto
      qed
    qed
  qed
qed

lemma transport_read_any:
  assumes "tcp_up t" and "s_p s = 0" and "4 \<le> length (s_data s)"
    and "recv_total (script t) \<le> length (s_data s)"
  shows "\<exists>st s' es. transport_read t s = Some (st, s', with_recv t es)
    \<and> s_p s' = 0 \<and> s_size s' = s_size s \<and> length (s_data s') = length (s_data s)
    \<and> recv_total es \<le> recv_total (script t) \<and> (st < 0 \<or> recv_weight es < recv_weight (script t))"
proof -
  have ntsg: "t_layer t \<noteq> TRANSPORT_LAYER_TSG" using assms(1) by (simp add: tcp_up_def)
  obtain st s1 es where r: "transport_read_layer t s 0 4 = Some (st, s1, with_recv t es)"
    and e: "read_effect t s st s1 es"
    and f: "st < 0 \<or> 4 \<le> st \<and> recv_weight es < recv_weight (script t)"
    using read_loop_any [OF assms(1), of 0 0 s 4, simplified, OF assms(4)]
    unfolding transport_read_layer_def by blast
  show ?thesis
  proof (cases "st < 0")
    case True
    then have "transport_read t s = Some (st, s1, with_recv t es)"
      by (subst transport_read.simps) (simp add: stream_get_length_def assms(2) ntsg r)
    with True e assms(2) show ?thesis
      by (intro exI [of _ st] exI [of _ s1] exI [of _ es]) (simp add: read_effect_def)
  next
    case False
    let ?t = "with_recv t es"
    have up: "tcp_up ?t" using assms(1) by (simp add: tcp_up_def)
    obtain a b c d rest where d: "s_data s1 = a # b # c # d # rest"
      using four_bytes [of "s_data s1"] e assms(3) by (auto simp: read_effect_def)
    have p: "transport_pdu_bytes ?t s1 = Some (announced (s_data s1))"
      using d by (rule transport_pdu_bytes_announced [rotated]) (use ntsg in simp)
    let ?L = "announced (s_data s1)"
    have room: "st + 0 + int (recv_total (script ?t)) \<le> int (length (s_data s1))"
      using e False assms(4) by (auto simp: read_effect_def)
    obtain st2 s2 es2 where r2: "transport_read_layer ?t s1 st (?L - st) = Some (st2, s2, with_recv t es2)"
      and e2: "read_effect ?t s1 st2 s2 es2"
      using read_loop_any [OF up, of 0 st s1 "?L - st"] room False
      by (simp add: transport_read_layer_def) blast
    have st4: "\<not> st < 4" using f False by simp
    have "transport_read t s = Some (if st2 < 0 then st2 else st + st2, s2, with_recv t es2)"
      using r2 False st4
      by (subst transport_read.simps)
        (simp add: stream_get_length_def assms(2) ntsg r p)
    moreover have "recv_weight es2 < recv_weight (script t)"
      using e2 f False by (simp add: read_effect_def)
    ultimately show ?thesis
      using e e2 assms(2)
      by (intro exI [of _ "if st2 < 0 then st2 else st + st2"] exI [of _ s2] exI [of _ es2])
        (simp add: read_effect_def)
  qed
qed

section \<open>Blocking channels\<close>

text \<open>
  Streams at least as large as \<open>transport_new\<close> makes them, and a connection that will not deliver
  more than they hold: under this condition every read stays inside the receive stream.
\<close>

definition roomy :: "STREAM \<Rightarrow> bool" where
  "roomy s \<longleftrightarrow> stream_wf s \<and> BUFFER_SIZE \<le> s_size s"

definition channel_ok :: "rdpTransport \<Rightarrow> bool" where
  "channel_ok t \<longleftrightarrow> t_layer t = TRANSPORT_LAYER_TCP \<and> t_blocking t \<and> \<not> set_tsg (t_settings t)
    \<and> roomy (t_recv_stream t) \<and> roomy (t_send_stream t) \<and> int (recv_total (script t)) \<le> BUFFER_SIZE"

lemma roomy_init:
  assumes "roomy s" and "0 < n"
  shows "\<exists>rst sz. Option.bind (stream_check_size s n) (\<lambda>s. Some (stream_set_pos s 0)) = Some (stm [] rst sz)
    \<and> BUFFER_SIZE \<le> sz \<and> sz \<le> int (length rst)"
proof -
  obtain s' where s': "stream_check_size s n = Some s'" "stream_wf s'" "s_size s \<le> s_size s'"
    using stream_check_size_grows [of s n] assms by (auto simp: roomy_def)
  have "stream_set_pos s' 0 = stm [] (s_data s') (s_size s')"
    by (simp add: stream_set_pos_def stm_def)
  with s' assms(1) show ?thesis
    by (intro exI [of _ "s_data s'"] exI [of _ "s_size s'"]) (simp add: roomy_def stream_wf_def)
qed

lemma send_stream_init:
  assumes "channel_ok t" and "0 < n"
  shows "\<exists>rst sz. transport_send_stream_init t n = Some (stm [] rst sz, t\<lparr>t_send_stream := stm [] rst sz\<rparr>)
    \<and> BUFFER_SIZE \<le> sz \<and> sz \<le> int (length rst)"
  using roomy_init [of "t_send_stream t" n] assms
  by (auto simp: transport_send_stream_init_def channel_ok_def bind_eq_Some_iff Let_def)

lemma recv_stream_init:
  assumes "channel_ok t" and "0 < n"
  shows "\<exists>rst sz. transport_recv_stream_init t n = Some (stm [] rst sz, t\<lparr>t_recv_stream := stm [] rst sz\<rparr>)
    \<and> BUFFER_SIZE \<le> sz \<and> sz \<le> int (length rst)"
  using roomy_init [of "t_recv_stream t" n] assms
  by (auto simp: transport_recv_stream_init_def channel_ok_def bind_eq_Some_iff Let_def)

lemma emit_stm_append:
  "length bs \<le> length rst \<Longrightarrow> emit bs (stm pre rst sz) = Some (stm (pre @ bs) (drop (length bs) rst) sz)"
  by (simp add: emit_stm)

lemma transport_write_any:
  assumes "t_layer t = TRANSPORT_LAYER_TCP" and "pre \<noteq> []"
  shows "\<exists>st s' t' k. transport_write t (stm pre rst sz) = Some (st, s', t')
    \<and> t' = t\<lparr>t_net := t_net t', t_layer := (if st < 0 then TRANSPORT_LAYER_CLOSED else TRANSPORT_LAYER_TCP)\<rparr>
    \<and> s_data s' = pre @ rst \<and> s_size s' = sz \<and> 0 \<le> s_p s' \<and> script t' = script t
    \<and> net_sent (t_net t') = net_sent (t_net t) @ take k pre \<and> (0 \<le> st \<longrightarrow> k = length pre)"
proof -
  have po: "plain_out t" using assms(1) by (simp add: plain_out_def)
  let ?s = "stm [] (pre @ rst) sz"
  obtain st s' n k where w: "transport_write_loop t ?s (int (length pre)) (-1)
        = Some (st, s', t\<lparr>t_net := n\<rparr>)"
    and k: "net_sent n = net_sent (t_net t) @ take k pre" "0 \<le> st \<longrightarrow> k = length pre"
      "s_data s' = pre @ rst" "net_recv n = net_recv (t_net t)" "s_size s' = sz" "0 \<le> s_p s'"
  proof -
    have "\<exists>st' s' n k. transport_write_loop t ?s (int (length pre)) (-1) = Some (st', s', t\<lparr>t_net := n\<rparr>)
      \<and> k \<le> nat (int (length pre)) \<and> net_sent n = net_sent (t_net t) @ take k (drop (nat (s_p ?s)) (s_data ?s))
      \<and> (if int (length pre) = 0 then st' = -1 else st' < 0 \<or> k = nat (int (length pre))) \<and> s_data s' = s_data ?s
      \<and> net_recv n = net_recv (t_net t) \<and> s_size s' = s_size ?s \<and> s_p ?s \<le> s_p s'"
      by (rule transport_write_loop_sends [OF po]) simp_all
    then show thesis using assms(2) by (elim exE conjE) (rule that, assumption, auto)
  qed
  let ?t = "t\<lparr>t_net := n, t_layer := (if st < 0 then TRANSPORT_LAYER_CLOSED else TRANSPORT_LAYER_TCP)\<rparr>"
  have "transport_write t (stm pre rst sz) = Some (st, s', ?t)"
    using w assms(1)
    by (cases t) (simp add: transport_write_def stream_get_length_def stream_set_pos_start)
  then show ?thesis using k
    by (intro exI [of _ st] exI [of _ s'] exI [of _ ?t] exI [of _ k]) simp
qed

lemma write_at_once:
  assumes "t_layer t = TRANSPORT_LAYER_TCP" and "net_send (t_net t) = Send_ok j # es" and "length pre \<le> j" "pre \<noteq> []"
  shows "\<exists>s' t'. transport_write t (stm pre rst sz) = Some (int (length pre), s', t')"
proof -
  let ?n = "(t_net t)\<lparr>net_send := es, net_sent := net_sent (t_net t) @ pre\<rparr>"
  have w: "transport_layer_write t pre st = Some (int (length pre), t\<lparr>t_net := ?n\<rparr>)" for st
    using assms by (simp add: transport_layer_write_def tcp_write_def os_send_def)
  have b: "block_read (pre @ rst) 0 (int (length pre)) = Some pre"
    by (simp add: block_read_def)
  have e: "transport_write_loop u s 0 st = Some (st, s, u)" for u s st
    by (subst transport_write_loop.simps) simp
  show ?thesis using assms(4)
    by (simp add: transport_write_def stream_get_length_def stream_set_pos_start,
        subst transport_write_loop.simps) (simp add: b w e)
qed

text \<open>
  Sending a packet of fixed layout: the stream is initialised, a writer emits the bytes, and the
  transport writes them.
\<close>

lemma send_packet_any:
  assumes "channel_ok t" and "bs \<noteq> []" and "int (length bs) \<le> BUFFER_SIZE" and "0 < n"
    and "\<And>s. W s = emit bs s"
  shows "\<exists>st s' t' k. Option.bind (transport_send_stream_init t n) (\<lambda>(s, t).
      Option.bind (W s) (\<lambda>s. transport_write t s)) = Some (st, s', t')
    \<and> script t' = script t \<and> t_tcp_out t' = t_tcp_out t \<and> t_settings t' = t_settings t
    \<and> (0 \<le> st \<longrightarrow> channel_ok (t'\<lparr>t_send_stream := s'\<rparr>) \<and> k = length bs)
    \<and> net_sent (t_net t') = net_sent (t_net t) @ take k bs"
proof -
  obtain rst sz where i: "transport_send_stream_init t n = Some (stm [] rst sz, t\<lparr>t_send_stream := stm [] rst sz\<rparr>)"
    and sz: "BUFFER_SIZE \<le> sz" "sz \<le> int (length rst)"
    using send_stream_init [OF assms(1,4)] by blast
  let ?u = "t\<lparr>t_send_stream := stm [] rst sz\<rparr>"
  have tcp: "t_layer ?u = TRANSPORT_LAYER_TCP" using assms(1) by (simp add: channel_ok_def)
  have len: "length bs \<le> length rst" using sz assms(3) by simp
  have e: "W (stm [] rst sz) = Some (stm bs (drop (length bs) rst) sz)"
    using len by (simp add: assms(5) emit_stm)
  obtain st s' t' k where w: "transport_write ?u (stm bs (drop (length bs) rst) sz) = Some (st, s', t')"
    and t': "t' = ?u\<lparr>t_net := t_net t', t_layer := (if st < 0 then TRANSPORT_LAYER_CLOSED else TRANSPORT_LAYER_TCP)\<rparr>"
    and s': "s_data s' = bs @ drop (length bs) rst" "s_size s' = sz" "0 \<le> s_p s'" "script t' = script ?u"
    and n: "net_sent (t_net t') = net_sent (t_net ?u) @ take k bs" "0 \<le> st \<longrightarrow> k = length bs"
    using transport_write_any [OF tcp assms(2), of "drop (length bs) rst" sz] by blast
  have "t_recv_stream t' = t_recv_stream t" "t_settings t' = t_settings t" "t_blocking t' = t_blocking t"
    "t_tcp_out t' = t_tcp_out t" "t_layer t' = (if st < 0 then TRANSPORT_LAYER_CLOSED else TRANSPORT_LAYER_TCP)"
    by (subst t', simp)+
  note sel = this
  have "channel_ok (t'\<lparr>t_send_stream := s'\<rparr>)" if "0 \<le> st"
    using that assms(1) sel s' sz len by (simp add: channel_ok_def roomy_def stream_wf_def)
  with sel s'(4) n i e w show ?thesis
    by (intro exI [of _ st] exI [of _ s'] exI [of _ t'] exI [of _ k]) simp
qed

end
