(* ===== verification/Nego_Correct.thy ===== *)
theory Nego_Correct
  imports Nego Transport_Channel
begin

unbundle bit_operations_syntax

text \<open>
  Correctness of the security negotiation: it returns whatever the network and the server do, as
  long as the receive buffer is not overrun; the requests it sends are the ones the server side
  of \<^verbatim>\<open>nego.c\<close> understands; and the protocols it asks for are those the user enabled.
\<close>

section \<open>The answer\<close>

lemma stream_at_least:
  assumes "n \<le> length (s_data s)" and "s_p s = 0"
  shows "s = stm [] (take n (s_data s) @ drop n (s_data s)) (s_size s)"
  using assms by (cases s) (simp add: stm_def)

lemma nineteen_bytes:
  "19 \<le> length xs \<Longrightarrow> \<exists>v r l1 l0 li code x1 x2 x3 x4 x5 ty fl k0 k1 p0 p1 p2 p3 rest.
     xs = v # r # l1 # l0 # li # code # x1 # x2 # x3 # x4 # x5 # ty # fl # k0 # k1 # p0 # p1 # p2 # p3 # rest"
  by (auto simp: numeral_eq_Suc Suc_le_length_iff)

definition answer_effect ::
  "rdpNego \<Rightarrow> u8 \<Rightarrow> u16 \<Rightarrow> u8 \<Rightarrow> u8 \<Rightarrow> u8 \<Rightarrow> u8 \<Rightarrow> u32 \<Rightarrow> tbool \<times> rdpNego" where
  "answer_effect g v len li code ty fl p =
     (if v = 3 \<and> \<not> len = 0 then
        (if code = X224_TPDU_CONNECTION_CONFIRM \<and> 6 < li then
           (if ty = TYPE_RDP_NEG_RSP then
              (True, g\<lparr>n_flags := ucast fl, n_state := NEGO_STATE_FINAL, n_selected_protocol := p\<rparr>)
            else if ty = TYPE_RDP_NEG_FAILURE then (True, g\<lparr>n_state := NEGO_STATE_FAIL\<rparr>)
            else (True, g))
         else (True, g\<lparr>n_state := NEGO_STATE_FINAL\<rparr>))
      else (False, g))"

lemma tpdu_read_header_bytes:
  "tpdu_read_header (stm pre (li # code # x1 # x2 # x3 # x4 # x5 # rest) sz) = Some ((li, code),
     if code = X224_TPDU_DATA then stm (pre @ [li, code, x1]) (x2 # x3 # x4 # x5 # rest) sz
     else stm (pre @ [li, code, x1, x2, x3, x4, x5]) rest sz)"
  by (simp add: tpdu_read_header_def wire stream_seek_stm)

lemma nego_recv_bytes:
  "\<exists>k. nego_recv g (stm [] (v # r # l1 # l0 # li # code # x1 # x2 # x3 # x4 # x5 # ty # fl # k0 # k1
         # p0 # p1 # p2 # p3 # rest) sz)
     = (case answer_effect g v (push_bit 8 (ucast l1) + ucast l0) li code ty fl
          (ucast p0 + push_bit 8 (ucast p1) + push_bit 16 (ucast p2) + push_bit 24 (ucast p3)) of
        (rv, g') \<Rightarrow> Some (rv, g', stream_seek (stm [] (v # r # l1 # l0 # li # code # x1 # x2 # x3 # x4 # x5
         # ty # fl # k0 # k1 # p0 # p1 # p2 # p3 # rest) sz) k)) \<and> 0 \<le> k \<and> k \<le> 19"
  (is "\<exists>k. nego_recv g ?s = ?R k \<and> 0 \<le> k \<and> k \<le> 19")
proof (cases "v = 3")
  case False
  then show ?thesis
    by (intro exI [of _ 0]) (simp add: nego_recv_def wire answer_effect_def stream_seek_stm)
next
  case v: True
  let ?len = "push_bit 8 (ucast l1) + ucast l0 :: u16"
  show ?thesis
  proof (cases "?len = 0")
    case True
    then show ?thesis using v
      by (intro exI [of _ 4]) (simp add: nego_recv_def wire answer_effect_def stream_seek_stm)
  next
    case len: False
    show ?thesis
    proof (cases "code = X224_TPDU_CONNECTION_CONFIRM \<and> 6 < li")
      case False
      let ?k = "if code = X224_TPDU_DATA then 7 else 11"
      show ?thesis using v len False
        by (intro exI [of _ ?k]) (auto simp: nego_recv_def wire answer_effect_def stream_seek_stm
            tpdu_read_connection_confirm_def tpdu_read_header_bytes not_less x224_const)
    next
      case True
      let ?k = "if ty = TYPE_RDP_NEG_RSP \<or> ty = TYPE_RDP_NEG_FAILURE then 19 else 12"
      show ?thesis using v len True
        by (intro exI [of _ ?k]) (auto simp: nego_recv_def wire answer_effect_def stream_seek_stm
            tpdu_read_connection_confirm_def tpdu_read_header_bytes not_le x224_const
            nego_process_negotiation_response_def nego_process_negotiation_failure_def)
    qed
  qed
qed

definition answered :: "rdpNego \<Rightarrow> rdpNego \<Rightarrow> bool" where
  "answered g g' \<longleftrightarrow> (\<exists>fl p st. g' = g\<lparr>n_flags := fl, n_selected_protocol := p, n_state := st\<rparr>)"

lemma answered_refl: "answered g g"
  unfolding answered_def
  by (rule exI [of _ "n_flags g"], rule exI [of _ "n_selected_protocol g"], rule exI [of _ "n_state g"]) simp

lemma answer_effect_answered: "answered g (snd (answer_effect g v len li code ty fl p))"
  unfolding answered_def answer_effect_def
  by (cases g) auto

lemma nego_recv_any:
  assumes "s_p s = 0" and "19 \<le> length (s_data s)"
  shows "\<exists>rv g' k. nego_recv g s = Some (rv, g', stream_seek s k) \<and> 0 \<le> k \<and> k \<le> 19 \<and> answered g g'"
proof -
  obtain v r l1 l0 li code x1 x2 x3 x4 x5 ty fl k0 k1 p0 p1 p2 p3 rest where
    d: "s_data s = v # r # l1 # l0 # li # code # x1 # x2 # x3 # x4 # x5 # ty # fl # k0 # k1
         # p0 # p1 # p2 # p3 # rest"
    using nineteen_bytes [OF assms(2)] by blast
  then have s: "s = stm [] (v # r # l1 # l0 # li # code # x1 # x2 # x3 # x4 # x5 # ty # fl # k0 # k1
         # p0 # p1 # p2 # p3 # rest) (s_size s)"
    using assms(1) by (cases s) (simp add: stm_def)
  let ?e = "answer_effect g v (push_bit 8 (ucast l1) + ucast l0) li code ty fl
          (ucast p0 + push_bit 8 (ucast p1) + push_bit 16 (ucast p2) + push_bit 24 (ucast p3))"
  obtain k where "nego_recv g s = Some (fst ?e, snd ?e, stream_seek s k)" "0 \<le> k" "k \<le> 19"
    using nego_recv_bytes [of g v r l1 l0 li code x1 x2 x3 x4 x5 ty fl k0 k1 p0 p1 p2 p3 rest "s_size s"]
    unfolding s [symmetric] by (auto simp: case_prod_beta)
  then show ?thesis using answer_effect_answered by blast
qed

section \<open>The request\<close>

definition request_cookie :: "rdpNego \<Rightarrow> u8 list" where
  "request_cookie g = (case n_routing_token g of Some token \<Rightarrow> token
     | None \<Rightarrow> (case n_cookie g of Some c \<Rightarrow> cookie_prefix @ c @ [0x0D, 0x0A] | None \<Rightarrow> []))"

definition request_neg :: "u32 \<Rightarrow> u8 list" where
  "request_neg p = (if p = 0 then []
     else [TYPE_RDP_NEG_REQ, 0, 8, 0, octet 0 p, octet 1 p, octet 2 p, octet 3 p])"

definition request_body :: "rdpNego \<Rightarrow> u8 list" where
  "request_body g = request_cookie g @ request_neg (n_requested_protocols g)"

definition request_bytes :: "u8 list \<Rightarrow> u8 list" where
  "request_bytes body = (let n = word_of_int (11 + int (length body)) :: u16
     in [3, 0, octet (Suc 0) n, octet 0 n]
        @ tpdu_header_enc (word_of_int (6 + int (length body))) X224_TPDU_CONNECTION_REQUEST @ body)"

lemma length_request_bytes [simp]: "length (request_bytes body) = 11 + length body"
  by (simp add: request_bytes_def Let_def tpdu_header_enc_def x224_const)

lemma octet_8 [simp]: "octet 0 (8 :: u16) = 8" "octet (Suc 0) (8 :: u16) = 0"
  by (simp_all add: octet_def)

lemma length_cookie_prefix [simp]: "length cookie_prefix = 17"
  by (simp add: cookie_prefix_def)

lemma request_headers:
  assumes "length h = 11"
  shows "Option.bind (tpkt_write_header (stm [] (h @ rst) sz) n)
      (\<lambda>s. tpdu_write_connection_request s m)
    = Some (stm ([3, 0, octet (Suc 0) n, octet 0 n] @ tpdu_header_enc m X224_TPDU_CONNECTION_REQUEST) rst sz)"
  using assms
  by (simp add: wire tpdu_write_connection_request_def emit_stm_append tpdu_header_enc_def x224_const)

text \<open>The optional parts of the request, in one piece.\<close>

lemma request_parts:
  assumes "length (request_body g) \<le> length rst"
  shows "Option.bind (case n_routing_token g of
         Some token \<Rightarrow> do {
           s \<leftarrow> stream_write (stm h rst sz) token (int (length token));
           Some (11 + int (length token), s) }
       | None \<Rightarrow> (case n_cookie g of
           Some cookie \<Rightarrow> do {
             s \<leftarrow> stream_write (stm h rst sz) cookie_prefix 17;
             s \<leftarrow> stream_write s cookie (int (length cookie));
             s \<leftarrow> stream_write_uint8 s (0x0D :: u8);
             s \<leftarrow> stream_write_uint8 s (0x0A :: u8);
             Some (11 + int (length cookie) + 19, s) }
         | None \<Rightarrow> Some (11, stm h rst sz)))
      (\<lambda>(len, s). if n_requested_protocols g > PROTOCOL_RDP then do {
           s \<leftarrow> stream_write_uint8 s TYPE_RDP_NEG_REQ;
           s \<leftarrow> stream_write_uint8 s (0 :: u8);
           s \<leftarrow> stream_write_uint16 s (8 :: u16);
           s \<leftarrow> stream_write_uint32 s (n_requested_protocols g);
           Some (len + 8, s) }
         else Some (len, s))
    = Some (11 + int (length (request_body g)), stm (h @ request_body g) (drop (length (request_body g)) rst) sz)"
proof -
  have prefix: "stream_write s cookie_prefix 17 = emit cookie_prefix s" for s
    by (simp add: wire)
  show ?thesis using assms
    by (cases "n_routing_token g"; cases "n_cookie g"; cases "n_requested_protocols g = 0")
      (simp_all add: request_body_def request_cookie_def request_neg_def PROTOCOL_RDP_def word_gt_0
        wire prefix emit_stm_append add_ac)
qed

lemma nego_send_request_eq:
  assumes "transport_send_stream_init (n_transport g) 256 = Some (stm [] rst sz, t)"
    and "11 + length (request_body g) \<le> length rst"
  shows "nego_send_negotiation_request g = do {
     (status, s, t) \<leftarrow> transport_write t
        (stm (request_bytes (request_body g)) (drop (11 + length (request_body g)) rst) sz);
     Some (\<not> status < 0, g\<lparr>n_transport := t\<lparr>t_send_stream := s\<rparr>\<rparr>) }"
proof -
  let ?b = "request_body g"
  have seek: "stream_seek (stm [] rst sz) 11 = stm (take 11 rst) (drop 11 rst) sz"
    using assms(2) by (simp add: stream_seek_stm)
  have r: "length ?b \<le> length (drop 11 rst)" using assms(2) by simp
  have l: "TPDU_CONNECTION_REQUEST_LENGTH = 11" by (simp add: tpdu_length_defs)
  have em: "stream_set_pos (stm ([3, 0, octet (Suc 0) n, octet 0 n] @ tpdu_header_enc m X224_TPDU_CONNECTION_REQUEST)
        (?b @ rest) sz) (int (length (take 11 rst @ ?b)))
      = stm ([3, 0, octet (Suc 0) n, octet 0 n] @ tpdu_header_enc m X224_TPDU_CONNECTION_REQUEST @ ?b) rest sz"
    for n m rest
    using assms(2) by (simp add: stream_set_pos_def stm_def tpdu_header_enc_def x224_const)
  have rewound: "stream_set_pos (stm (take 11 rst @ ?b) (drop (length ?b) (drop 11 rst)) sz) (stream_get_pos (stm [] rst sz))
      = stm [] (take 11 rst @ ?b @ drop (length ?b) (drop 11 rst)) sz"
    by (simp add: stream_get_pos_def stream_set_pos_start)
  have hl: "length (take 11 rst) = 11" using assms(2) by simp
  have minus: "11 + k - 5 = 6 + (k :: int)" for k by simp
  have assoc: "Option.bind A (\<lambda>(len, s). Option.bind (B len s) K)
      = Option.bind (Option.bind A (\<lambda>(len, s). B len s)) K" for A B K
    by (cases A) auto
  have bindh: "Option.bind A (\<lambda>s. Option.bind (tpdu_write_connection_request s m) K)
      = Option.bind (Option.bind A (\<lambda>s. tpdu_write_connection_request s m)) K" for A m K
    by simp
  note parts = request_parts [OF r, of "take 11 rst" sz]
  note heads = request_headers [OF hl, of "?b @ drop (length ?b) (drop 11 rst)" sz]
  show ?thesis
    unfolding nego_send_negotiation_request_def
    by (simp only: assms(1) Option.bind.simps prod.case Let_def l seek assoc parts, simp only: rewound bindh
        heads Option.bind.simps, simp only: stream_get_pos_def stm_sel em request_bytes_def Let_def
        append_assoc minus drop_drop add.commute [of "length ?b" 11])
qed

section \<open>An exchange always returns\<close>

lemma request_bytes_not_Nil [simp]: "request_bytes b \<noteq> []"
  by (simp add: request_bytes_def Let_def)

lemma nego_send_request_any:
  assumes "channel_ok (n_transport g)" and "11 + int (length (request_body g)) \<le> BUFFER_SIZE"
  shows "\<exists>b t' k. nego_send_negotiation_request g = Some (b, g\<lparr>n_transport := t'\<rparr>)
    \<and> script t' = script (n_transport g) \<and> t_tcp_out t' = t_tcp_out (n_transport g)
    \<and> (b \<longrightarrow> channel_ok t') \<and> (b \<longrightarrow> k = length (request_bytes (request_body g)))
    \<and> net_sent (t_net t') = net_sent (t_net (n_transport g)) @ take k (request_bytes (request_body g))"
proof -
  let ?t = "n_transport g" and ?q = "request_bytes (request_body g)"
  obtain rst sz where i: "transport_send_stream_init ?t 256 = Some (stm [] rst sz, ?t\<lparr>t_send_stream := stm [] rst sz\<rparr>)"
    and sz: "BUFFER_SIZE \<le> sz" "sz \<le> int (length rst)"
    using send_stream_init [OF assms(1), of 256] by auto
  have len: "11 + length (request_body g) \<le> length rst" using sz assms(2) by simp
  let ?rest = "drop (11 + length (request_body g)) rst" and ?u = "?t\<lparr>t_send_stream := stm [] rst sz\<rparr>"
  have tcp: "t_layer ?u = TRANSPORT_LAYER_TCP" using assms(1) by (simp add: channel_ok_def)
  obtain st s' t' k where w: "transport_write ?u (stm ?q ?rest sz) = Some (st, s', t')"
    and t': "t' = ?u\<lparr>t_net := t_net t', t_layer := (if st < 0 then TRANSPORT_LAYER_CLOSED else TRANSPORT_LAYER_TCP)\<rparr>"
    and s': "s_data s' = ?q @ ?rest" "s_size s' = sz" "0 \<le> s_p s'" "script t' = script ?u"
    and n: "net_sent (t_net t') = net_sent (t_net ?u) @ take k ?q" "0 \<le> st \<longrightarrow> k = length ?q"
    using transport_write_any [OF tcp request_bytes_not_Nil, of "request_body g" ?rest sz] by blast
  let ?v = "t'\<lparr>t_send_stream := s'\<rparr>"
  have r: "nego_send_negotiation_request g = Some (\<not> st < 0, g\<lparr>n_transport := ?v\<rparr>)"
    by (simp add: nego_send_request_eq [OF i len] w)
  have "t_recv_stream t' = t_recv_stream ?t" "t_settings t' = t_settings ?t" "t_blocking t' = t_blocking ?t"
    "t_tcp_out t' = t_tcp_out ?t" "t_layer t' = (if st < 0 then TRANSPORT_LAYER_CLOSED else TRANSPORT_LAYER_TCP)"
    by (subst t', simp)+
  note sel = this
  have "channel_ok ?v" if "\<not> st < 0"
    using that assms(1) sel s' sz len by (simp add: channel_ok_def roomy_def stream_wf_def)
  with r sel(4) s'(4) n show ?thesis
    by (intro exI [of _ "\<not> st < 0"] exI [of _ ?v] exI [of _ k]) simp
qed

lemma nego_recv_response_any:
  assumes "channel_ok (n_transport g)" and "t_tcp_out (n_transport g) \<noteq> Tcp_null"
  shows "\<exists>b g' t'. nego_recv_response g = Some (b, g'\<lparr>n_transport := t'\<rparr>) \<and> answered g g'
    \<and> (b \<longrightarrow> channel_ok t' \<and> recv_weight (script t') < recv_weight (script (n_transport g))
         \<and> t_tcp_out t' = t_tcp_out (n_transport g))"
proof -
  let ?t = "n_transport g"
  obtain rst sz where i: "transport_recv_stream_init ?t 1024 = Some (stm [] rst sz, ?t\<lparr>t_recv_stream := stm [] rst sz\<rparr>)"
    and sz: "BUFFER_SIZE \<le> sz" "sz \<le> int (length rst)"
    using recv_stream_init [OF assms(1), of 1024] by auto
  let ?u = "?t\<lparr>t_recv_stream := stm [] rst sz\<rparr>" and ?s = "stm [] rst sz"
  have up: "tcp_up ?u" using assms by (simp add: tcp_up_def channel_ok_def)
  have four: "4 \<le> length (s_data ?s)" and tot: "recv_total (script ?u) \<le> length (s_data ?s)"
    using sz assms(1) by (simp_all add: BUFFER_SIZE_def channel_ok_def)
  have p0: "s_p ?s = 0" by simp
  obtain st s' es where r: "transport_read ?u ?s = Some (st, s', with_recv ?u es)"
    and s': "s_p s' = 0" "s_size s' = s_size ?s" "length (s_data s') = length (s_data ?s)"
    and es: "recv_total es \<le> recv_total (script ?u)" "st < 0 \<or> recv_weight es < recv_weight (script ?u)"
    using transport_read_any [OF up p0 four tot] by blast
  let ?v = "(with_recv ?u es)\<lparr>t_recv_stream := s'\<rparr>"
  show ?thesis
  proof (cases "st < 0")
    case True
    then have "nego_recv_response g = Some (False, g\<lparr>n_transport := ?v\<rparr>)"
      by (simp add: nego_recv_response_def i r)
    moreover have "answered g g" by (rule answered_refl)
    ultimately show ?thesis by (intro exI [of _ False] exI [of _ g] exI [of _ ?v]) simp
  next
    case False
    let ?g = "g\<lparr>n_transport := ?v\<rparr>"
    have n19: "19 \<le> length (s_data s')" using s' sz by (simp add: BUFFER_SIZE_def)
    obtain rv g' k where a: "nego_recv ?g s' = Some (rv, g', stream_seek s' k)" "0 \<le> k" and g': "answered ?g g'"
      using nego_recv_any [OF s'(1) n19] by blast
    let ?w = "?v\<lparr>t_recv_stream := stream_seek s' k\<rparr>"
    obtain fl p ns where g'': "g' = ?g\<lparr>n_flags := fl, n_selected_protocol := p, n_state := ns\<rparr>"
      using g' unfolding answered_def by blast
    let ?h = "g\<lparr>n_flags := fl, n_selected_protocol := p, n_state := ns\<rparr>"
    have "nego_recv_response g = Some (rv, ?h\<lparr>n_transport := ?w\<rparr>)"
      using False a(1) by (simp add: nego_recv_response_def i r g'')
    moreover have "channel_ok ?w"
      using assms(1) s' es(1) sz a(2) by (simp add: channel_ok_def roomy_def stream_wf_def)
    moreover have "answered g ?h" unfolding answered_def by blast
    ultimately show ?thesis using es(2) False
      by (intro exI [of _ rv] exI [of _ ?h] exI [of _ ?w]) simp
  qed
qed

section \<open>What an exchange leaves alone\<close>

definition same_request :: "rdpNego \<Rightarrow> rdpNego \<Rightarrow> bool" where
  "same_request g g' \<longleftrightarrow> n_enabled_nla g' = n_enabled_nla g \<and> n_enabled_tls g' = n_enabled_tls g
    \<and> n_enabled_rdp g' = n_enabled_rdp g \<and> n_requested_protocols g' = n_requested_protocols g
    \<and> n_cookie g' = n_cookie g \<and> n_routing_token g' = n_routing_token g
    \<and> n_state g' \<in> {n_state g, NEGO_STATE_FAIL, NEGO_STATE_FINAL}"

lemma same_request_refl [simp]: "same_request g g"
  by (simp add: same_request_def)

lemma same_request_trans [trans]: "same_request g h \<Longrightarrow> same_request h k \<Longrightarrow> same_request g k"
  by (auto simp: same_request_def)

lemma same_request_upd [simp]:
  "same_request g (h\<lparr>n_transport := t\<rparr>) = same_request g h"
  "same_request g h \<Longrightarrow> same_request g (h\<lparr>n_state := NEGO_STATE_FINAL\<rparr>)"
  "same_request g h \<Longrightarrow> same_request g (h\<lparr>n_state := NEGO_STATE_FAIL\<rparr>)"
  "same_request g (h\<lparr>n_flags := fl\<rparr>) = same_request g h"
  "same_request g (h\<lparr>n_selected_protocol := p\<rparr>) = same_request g h"
  "same_request g (h\<lparr>n_tcp_connected := c\<rparr>) = same_request g h"
  by (simp_all add: same_request_def)

lemma tcp_connect_same: "nego_tcp_connect g = Some (b, g') \<Longrightarrow> same_request g g'"
  by (auto simp: nego_tcp_connect_def bind_eq_Some_iff Let_def split: if_splits)

lemma tcp_disconnect_same: "nego_tcp_disconnect g = Some g' \<Longrightarrow> same_request g g'"
  by (auto simp: nego_tcp_disconnect_def bind_eq_Some_iff split: if_splits)

lemma send_request_same: "nego_send_negotiation_request g = Some (b, g') \<Longrightarrow> same_request g g'"
  by (clarsimp simp: nego_send_negotiation_request_def bind_eq_Some_iff Let_def)

lemma neg_answer_same:
  "nego_process_negotiation_response g s = Some (g', s') \<Longrightarrow> same_request g g'"
  "nego_process_negotiation_failure g s = Some (g', s') \<Longrightarrow> same_request g g'"
  by (clarsimp simp: nego_process_negotiation_response_def nego_process_negotiation_failure_def bind_eq_Some_iff)+

lemma nego_recv_same: "nego_recv g s = Some (b, g', s') \<Longrightarrow> same_request g g'"
  unfolding nego_recv_def bind_eq_Some_iff
  by (elim exE conjE, simp only: prod.case split: prod.splits if_split_asm)
    (auto simp: bind_eq_Some_iff split: if_split_asm dest!: neg_answer_same)

lemma same_request_from_upd [simp]: "same_request (h\<lparr>n_transport := t\<rparr>) g = same_request h g"
  by (simp add: same_request_def)

lemma recv_response_same: "nego_recv_response g = Some (b, g') \<Longrightarrow> same_request g g'"
  by (auto simp: nego_recv_response_def bind_eq_Some_iff Let_def split: if_splits
      dest!: nego_recv_same arg_cong [where f = "same_request g"])

lemma exchange_same: "nego_exchange g = Some (b, g') \<Longrightarrow> same_request g g'"
  unfolding nego_exchange_def
  by (auto simp: bind_eq_Some_iff split: if_splits
      dest!: tcp_connect_same send_request_same recv_response_same elim: same_request_trans)

lemma same_request_cookie: "same_request g g' \<Longrightarrow> request_cookie g' = request_cookie g"
  by (simp add: same_request_def request_cookie_def cong: option.case_cong)

lemma request_cookie_upd [simp]:
  "request_cookie (g\<lparr>n_transport := t\<rparr>) = request_cookie g"
  "request_cookie (g\<lparr>n_state := st\<rparr>) = request_cookie g"
  "request_cookie (g\<lparr>n_tcp_connected := c\<rparr>) = request_cookie g"
  "request_cookie (g\<lparr>n_requested_protocols := p\<rparr>) = request_cookie g"
  by (simp_all add: request_cookie_def cong: option.case_cong)

section \<open>The negotiation returns\<close>

definition nego_ok :: "rdpNego \<Rightarrow> bool" where
  "nego_ok g \<longleftrightarrow> channel_ok (n_transport g)
    \<and> (n_tcp_connected g \<noteq> 0 \<longrightarrow> t_tcp_out (n_transport g) \<noteq> Tcp_null)
    \<and> 19 + int (length (request_cookie g)) \<le> BUFFER_SIZE"

abbreviation n_weight :: "rdpNego \<Rightarrow> nat" where
  "n_weight g \<equiv> recv_weight (script (n_transport g))"

lemma nego_tcp_connect_any:
  assumes "nego_ok g"
  shows "\<exists>b g'. nego_tcp_connect g = Some (b, g') \<and> n_weight g' = n_weight g
    \<and> (b \<longrightarrow> nego_ok g' \<and> n_tcp_connected g' \<noteq> 0)"
  using assms
  by (auto simp: nego_tcp_connect_def transport_connect_def tcp_connect_def nego_ok_def channel_ok_def
      Let_def split: list.split conn_event.split)

lemma nego_tcp_disconnect_any:
  assumes "nego_ok g"
  shows "\<exists>g'. nego_tcp_disconnect g = Some g' \<and> n_weight g' = n_weight g \<and> nego_ok g'"
  using assms
  by (auto simp: nego_tcp_disconnect_def transport_disconnect_def nego_ok_def channel_ok_def)

lemma nego_ok_fits: "nego_ok g \<Longrightarrow> 11 + int (length (request_body g)) \<le> BUFFER_SIZE"
  by (auto simp: nego_ok_def request_body_def request_neg_def)

lemma nego_exchange_any:
  assumes "nego_ok g"
  shows "\<exists>b g'. nego_exchange g = Some (b, g') \<and> (b \<longrightarrow> nego_ok g' \<and> n_weight g' < n_weight g)"
proof -
  obtain b1 g1 where c: "nego_tcp_connect g = Some (b1, g1)" "n_weight g1 = n_weight g"
    and ok1: "b1 \<longrightarrow> nego_ok g1 \<and> n_tcp_connected g1 \<noteq> 0"
    using nego_tcp_connect_any [OF assms] by blast
  show ?thesis
  proof (cases b1)
    case False
    then show ?thesis by (intro exI [of _ False] exI [of _ g1]) (simp add: nego_exchange_def c)
  next
    case b1: True
    then have g1: "channel_ok (n_transport g1)" "t_tcp_out (n_transport g1) \<noteq> Tcp_null" "nego_ok g1"
      using ok1 by (simp_all add: nego_ok_def)
    obtain b2 t2 where s: "nego_send_negotiation_request g1 = Some (b2, g1\<lparr>n_transport := t2\<rparr>)"
      "script t2 = script (n_transport g1)" "t_tcp_out t2 = t_tcp_out (n_transport g1)" "b2 \<longrightarrow> channel_ok t2"
      using nego_send_request_any [OF g1(1) nego_ok_fits [OF g1(3)]] by blast
    show ?thesis
    proof (cases b2)
      case False
      then show ?thesis using b1
        by (intro exI [of _ False] exI [of _ "g1\<lparr>n_transport := t2\<rparr>"]) (simp add: nego_exchange_def c s)
    next
      case b2: True
      let ?g2 = "g1\<lparr>n_transport := t2\<rparr>"
      have g2: "channel_ok (n_transport ?g2)" "t_tcp_out (n_transport ?g2) \<noteq> Tcp_null"
        using s b2 g1 by simp_all
      obtain b3 g3 t3 where r: "nego_recv_response ?g2 = Some (b3, g3\<lparr>n_transport := t3\<rparr>)"
        and a: "answered ?g2 g3"
        and t3: "b3 \<longrightarrow> channel_ok t3 \<and> recv_weight (script t3) < n_weight ?g2 \<and> t_tcp_out t3 = t_tcp_out (n_transport ?g2)"
        using nego_recv_response_any [OF g2] by blast
      have same: "same_request g (g3\<lparr>n_transport := t3\<rparr>)"
        using exchange_same [of g b3 "g3\<lparr>n_transport := t3\<rparr>"] b1 b2 r by (simp add: nego_exchange_def c s)
      have "nego_exchange g = Some (b3, g3\<lparr>n_transport := t3\<rparr>)"
        using b1 b2 r by (simp add: nego_exchange_def c s)
      moreover have "nego_ok (g3\<lparr>n_transport := t3\<rparr>)" if b3
        using t3 that g2 same_request_cookie [OF same] assms by (simp add: nego_ok_def)
      ultimately show ?thesis using t3 s(2) c(2)
        by (intro exI [of _ b3] exI [of _ "g3\<lparr>n_transport := t3\<rparr>"]) simp
    qed
  qed
qed

text \<open>Each attempt ends the negotiation or has used up something the server sent.\<close>

definition settled :: "rdpNego \<Rightarrow> bool" where
  "settled g \<longleftrightarrow> n_state g \<in> {NEGO_STATE_FAIL, NEGO_STATE_FINAL}"

lemma nego_ok_upd [simp]:
  "nego_ok (g\<lparr>n_state := st\<rparr>) = nego_ok g" "nego_ok (g\<lparr>n_requested_protocols := p\<rparr>) = nego_ok g"
  by (simp_all add: nego_ok_def)

lemma nego_send_any:
  assumes "nego_ok g" and "n_state g \<noteq> NEGO_STATE_INITIAL"
  shows "\<exists>g'. nego_send g = Some g' \<and>
    (settled g' \<or> nego_ok g' \<and> n_weight g' < n_weight g \<and> n_state g' \<noteq> NEGO_STATE_INITIAL)"
proof (cases "settled g")
  case True
  then show ?thesis by (auto simp: nego_send_def settled_def)
next
  case open_state: False
  let ?p = "if n_state g = NEGO_STATE_NLA then PROTOCOL_NLA OR PROTOCOL_TLS
    else if n_state g = NEGO_STATE_TLS then PROTOCOL_TLS else PROTOCOL_RDP"
  let ?g = "g\<lparr>n_requested_protocols := ?p\<rparr>"
  obtain b h where x: "nego_exchange ?g = Some (b, h)" and h: "b \<longrightarrow> nego_ok h \<and> n_weight h < n_weight ?g"
    using nego_exchange_any [of ?g] assms(1) by auto
  have st: "n_state h \<in> {n_state g, NEGO_STATE_FAIL, NEGO_STATE_FINAL}"
    using exchange_same [OF x] by (simp add: same_request_def)
  have cases: "n_state g \<in> {NEGO_STATE_NLA, NEGO_STATE_TLS, NEGO_STATE_RDP}"
    using open_state assms(2) by (cases "n_state g") (auto simp: settled_def)
  show ?thesis
  proof (cases b)
    case False
    then show ?thesis using cases x
      by (auto simp: nego_send_def nego_attempt_nla_def nego_attempt_tls_def nego_attempt_rdp_def settled_def)
  next
    case True
    with h have hok: "nego_ok h" "n_weight h < n_weight g" by simp_all
    obtain k where k: "nego_tcp_disconnect h = Some k" "n_weight k = n_weight h" "nego_ok k"
      using nego_tcp_disconnect_any [OF hok(1)] by blast
    show ?thesis using cases x True hok k st
      by (auto simp: nego_send_def nego_attempt_nla_def nego_attempt_tls_def nego_attempt_rdp_def settled_def)
  qed
qed

lemma nego_loop_returns:
  assumes "nego_ok g" and "n_state g \<noteq> NEGO_STATE_INITIAL"
  shows "\<exists>r. nego_loop g = Some r"
  using assms
proof (induction "n_weight g" arbitrary: g rule: less_induct)
  case less
  obtain h where h: "nego_send g = Some h"
    and c: "settled h \<or> nego_ok h \<and> n_weight h < n_weight g \<and> n_state h \<noteq> NEGO_STATE_INITIAL"
    using nego_send_any [OF less.prems] by blast
  show ?case
  proof (cases "settled h")
    case True
    then show ?thesis by (subst nego_loop.simps) (auto simp: h settled_def)
  next
    case False
    then have "\<exists>r. nego_loop h = Some r" using c less.hyps by blast
    with False show ?thesis by (subst nego_loop.simps) (simp add: h settled_def)
  qed
qed

lemma nego_start_state: "n_state (nego_start g) \<noteq> NEGO_STATE_INITIAL"
  by (simp add: nego_start_def)

lemma nego_start_ok [simp]: "nego_ok (nego_start g) = nego_ok g"
  by (simp add: nego_start_def)

section \<open>The policy\<close>

text \<open>The states the loop of \<open>nego_connect\<close> goes through.\<close>

inductive nego_reaches :: "rdpNego \<Rightarrow> rdpNego \<Rightarrow> bool" for g0 where
  start: "nego_reaches g0 (nego_start g0)"
| step: "nego_reaches g0 g \<Longrightarrow> \<not> settled g \<Longrightarrow> nego_send g = Some g' \<Longrightarrow> nego_reaches g0 g'"

definition allowed_state :: "rdpNego \<Rightarrow> NEGO_STATE \<Rightarrow> bool" where
  "allowed_state g st \<longleftrightarrow> (case st of NEGO_STATE_NLA \<Rightarrow> n_enabled_nla g | NEGO_STATE_TLS \<Rightarrow> n_enabled_tls g
     | NEGO_STATE_RDP \<Rightarrow> n_enabled_rdp g | _ \<Rightarrow> True)"

definition allowed_request :: "rdpNego \<Rightarrow> u32 \<Rightarrow> bool" where
  "allowed_request g p \<longleftrightarrow> p = PROTOCOL_RDP \<or> p = PROTOCOL_TLS \<and> n_enabled_tls g
     \<or> p = PROTOCOL_NLA OR PROTOCOL_TLS \<and> n_enabled_nla g"

definition within_policy :: "rdpNego \<Rightarrow> rdpNego \<Rightarrow> bool" where
  "within_policy g0 g \<longleftrightarrow> n_enabled_nla g = n_enabled_nla g0 \<and> n_enabled_tls g = n_enabled_tls g0
    \<and> n_enabled_rdp g = n_enabled_rdp g0
    \<and> allowed_state g0 (n_state g) \<and> allowed_request g0 (n_requested_protocols g)"

lemma within_policy_state:
  "within_policy g0 g \<Longrightarrow> allowed_state g0 st \<Longrightarrow> within_policy g0 (g\<lparr>n_state := st\<rparr>)"
  by (simp add: within_policy_def)

lemma allowed_state_end [simp]: "allowed_state g NEGO_STATE_FAIL" "allowed_state g NEGO_STATE_FINAL"
  by (simp_all add: allowed_state_def)

lemma same_request_policy: "within_policy g0 g \<Longrightarrow> same_request g h \<Longrightarrow> within_policy g0 h"
  by (auto simp: within_policy_def same_request_def)

lemma exchange_policy:
  assumes "within_policy g0 g" and "allowed_request g0 p"
    and "nego_exchange (g\<lparr>n_requested_protocols := p\<rparr>) = Some (b, h)"
  shows "within_policy g0 h"
  by (rule same_request_policy [OF _ exchange_same [OF assms(3)]])
    (use assms(1,2) in \<open>simp add: within_policy_def\<close>)

lemma disconnect_policy: "within_policy g0 g \<Longrightarrow> nego_tcp_disconnect g = Some h \<Longrightarrow> within_policy g0 h"
  by (rule same_request_policy [OF _ tcp_disconnect_same])

lemma fallback_allowed:
  assumes "within_policy g0 g"
  shows "allowed_state g0 (if n_enabled_rdp g then NEGO_STATE_RDP else NEGO_STATE_FAIL)"
    and "allowed_state g0 (if n_enabled_tls g then NEGO_STATE_TLS
           else if n_enabled_rdp g then NEGO_STATE_RDP else NEGO_STATE_FAIL)"
  using assms by (simp_all add: within_policy_def allowed_state_def)

lemma after_exchange_policy:
  assumes "within_policy g0 h" and "\<And>k. within_policy g0 k \<Longrightarrow> allowed_state g0 (f k)"
    and "(if \<not> b then Some (h\<lparr>n_state := NEGO_STATE_FAIL\<rparr>)
      else if n_state h \<noteq> NEGO_STATE_FINAL then do { k \<leftarrow> nego_tcp_disconnect h; Some (k\<lparr>n_state := f k\<rparr>) }
      else Some h) = Some g'"
  shows "within_policy g0 g'"
proof -
  consider "g' = h\<lparr>n_state := NEGO_STATE_FAIL\<rparr>" | "g' = h"
    | k where "nego_tcp_disconnect h = Some k" "g' = k\<lparr>n_state := f k\<rparr>"
    using assms(3) by (auto simp: bind_eq_Some_iff split: if_split_asm)
  then show ?thesis
    by cases (use assms(1,2) disconnect_policy in \<open>auto intro: within_policy_state\<close>)
qed

lemma bind_pair_SomeE:
  assumes "Option.bind m (\<lambda>(a, b). f a b) = Some y"
  obtains a b where "m = Some (a, b)" and "f a b = Some y"
  using assms by (auto simp: bind_eq_Some_iff)

lemma attempt_nla_policy:
  assumes "within_policy g0 g" and "n_enabled_nla g0" and "nego_attempt_nla g = Some g'"
  shows "within_policy g0 g'"
  using assms(3) unfolding nego_attempt_nla_def
proof (rule bind_pair_SomeE)
  fix b h
  assume x: "nego_exchange (g\<lparr>n_requested_protocols := PROTOCOL_NLA OR PROTOCOL_TLS\<rparr>) = Some (b, h)"
    and r: "(if \<not> b then Some (h\<lparr>n_state := NEGO_STATE_FAIL\<rparr>)
      else if n_state h \<noteq> NEGO_STATE_FINAL then do { g \<leftarrow> nego_tcp_disconnect h; Some (g\<lparr>n_state :=
          (if n_enabled_tls g then NEGO_STATE_TLS else if n_enabled_rdp g then NEGO_STATE_RDP else NEGO_STATE_FAIL)\<rparr>) }
      else Some h) = Some g'"
  have "within_policy g0 h"
    by (rule exchange_policy [OF assms(1) _ x]) (simp add: allowed_request_def assms(2))
  then show ?thesis using fallback_allowed(2) r by (rule after_exchange_policy)
qed

lemma attempt_tls_policy:
  assumes "within_policy g0 g" and "n_enabled_tls g0" and "nego_attempt_tls g = Some g'"
  shows "within_policy g0 g'"
  using assms(3) unfolding nego_attempt_tls_def
proof (rule bind_pair_SomeE)
  fix b h
  assume x: "nego_exchange (g\<lparr>n_requested_protocols := PROTOCOL_TLS\<rparr>) = Some (b, h)"
    and r: "(if \<not> b then Some (h\<lparr>n_state := NEGO_STATE_FAIL\<rparr>)
      else if n_state h \<noteq> NEGO_STATE_FINAL then do { g \<leftarrow> nego_tcp_disconnect h; Some (g\<lparr>n_state :=
          (if n_enabled_rdp g then NEGO_STATE_RDP else NEGO_STATE_FAIL)\<rparr>) }
      else Some h) = Some g'"
  have "within_policy g0 h"
    by (rule exchange_policy [OF assms(1) _ x]) (simp add: allowed_request_def assms(2))
  then show ?thesis using fallback_allowed(1) r by (rule after_exchange_policy)
qed

lemma attempt_rdp_policy:
  assumes "within_policy g0 g" and "nego_attempt_rdp g = Some g'"
  shows "within_policy g0 g'"
  using assms(2) unfolding nego_attempt_rdp_def
proof (rule bind_pair_SomeE)
  fix b h
  assume x: "nego_exchange (g\<lparr>n_requested_protocols := PROTOCOL_RDP\<rparr>) = Some (b, h)"
    and r: "(if \<not> b then Some (h\<lparr>n_state := NEGO_STATE_FAIL\<rparr>) else Some h) = Some g'"
  have "within_policy g0 h"
    by (rule exchange_policy [OF assms(1) _ x]) (simp add: allowed_request_def)
  with r show ?thesis by (auto split: if_split_asm intro: within_policy_state)
qed

lemma nego_send_policy:
  assumes "within_policy g0 g" and "nego_send g = Some g'"
  shows "within_policy g0 g'"
proof -
  have st: "allowed_state g0 (n_state g)" using assms(1) by (simp add: within_policy_def)
  show ?thesis
  proof (cases "n_state g")
    case NEGO_STATE_NLA
    with st assms(2) show ?thesis
      by (intro attempt_nla_policy [OF assms(1)]) (simp_all add: nego_send_def allowed_state_def)
  next
    case NEGO_STATE_TLS
    with st assms(2) show ?thesis
      by (intro attempt_tls_policy [OF assms(1)]) (simp_all add: nego_send_def allowed_state_def)
  next
    case NEGO_STATE_RDP
    with assms(2) show ?thesis by (intro attempt_rdp_policy [OF assms(1)]) (simp add: nego_send_def)
  qed (use assms in \<open>simp_all add: nego_send_def\<close>)
qed

section \<open>The server's view of the request\<close>

lemma get_left_stm [simp]: "stream_get_left (stm pre rst sz) = sz - int (length pre)"
  by (simp add: stream_get_left_def)

lemma seek1_stm [simp]: "stream_seek (stm pre (b # rst) sz) 1 = stm (pre @ [b]) rst sz"
  by (simp add: stream_seek_stm)

lemma skip_cookie_stm:
  assumes "0x0D \<notin> set w" and "int (length pre + length w + 2) \<le> sz"
  shows "nego_skip_cookie (stm pre (w @ 0x0D # 0x0A # rest) sz) = Some (stm (pre @ w @ [0x0D, 0x0A]) rest sz)"
  using assms
proof (induction w arbitrary: pre)
  case Nil
  then show ?case by (subst nego_skip_cookie.simps) (simp add: wire)
next
  case (Cons b w)
  then show ?case by (subst nego_skip_cookie.simps) (simp add: wire)
qed

lemma octet0_li: "n < 256 \<Longrightarrow> uint (octet 0 (word_of_nat n :: u16)) = int n"
  by (simp add: octet_def unsigned_ucast_eq unsigned_of_nat take_bit_nat_eq_self_iff uint_nat take_bit_eq_mod
      flip: of_nat_mod)

lemma read_request_body:
  assumes "length body \<le> 249"
  shows "nego_read_request h (stm [] (request_bytes body) (int (length (request_bytes body)))) = do {
     let s = stm (take 11 (request_bytes body)) body (int (length (request_bytes body)));
     s \<leftarrow> (if 8 < length body then nego_skip_cookie s else Some s);
     (if stream_get_left s \<ge> 8 then do {
        (type, s) \<leftarrow> stream_read_uint8 s;
        (if type \<noteq> TYPE_RDP_NEG_REQ then Some (False, h, s)
         else do {
           (g, s) \<leftarrow> nego_process_negotiation_request h s;
           Some (True, g, s) }) }
      else Some (True, h, s)) }"
proof -
  let ?n = "word_of_int (11 + int (length body)) :: u16"
  let ?t = "tpdu_header_enc (word_of_int (6 + int (length body))) X224_TPDU_CONNECTION_REQUEST"
  let ?sz = "int (length (request_bytes body))"
  have b: "request_bytes body = 3 # 0 # octet (Suc 0) ?n # octet 0 ?n # ?t @ body"
    by (simp add: request_bytes_def Let_def)
  have t: "length (tpdu_header_enc m X224_TPDU_CONNECTION_REQUEST) = 7" for m by (simp add: tpdu_header_enc_def x224_const)
  have li: "uint (octet 0 (word_of_int (6 + int (length body)) :: u16)) = 6 + int (length body)"
    using octet0_li [of "6 + length body"] assms by simp
  have tk: "take 11 (request_bytes body) = [3, 0, octet (Suc 0) ?n, octet 0 ?n] @ ?t"
    by (simp add: b t)
  show ?thesis
    unfolding nego_read_request_def tk Let_def
    by (simp add: b tpkt_read_header_stm tpdu_read_connection_request_def tpdu_read_header_stm li [simplified] t)
qed

lemma read_request_returns:
  assumes "n_routing_token g = None" and "\<And>c. n_cookie g = Some c \<Longrightarrow> 0x0D \<notin> set c"
    and "length (request_cookie g) \<le> 241"
  shows "nego_read_request h (stm [] (request_bytes (request_body g)) (int (length (request_bytes (request_body g)))))
    = Some (True, (if n_requested_protocols g = 0 then h
        else h\<lparr>n_requested_protocols := n_requested_protocols g, n_state := NEGO_STATE_FINAL\<rparr>),
      stm (request_bytes (request_body g)) [] (int (length (request_bytes (request_body g)))))"
proof -
  let ?b = "request_body g" and ?p = "n_requested_protocols g"
  let ?sz = "int (length (request_bytes ?b))" and ?h = "take 11 (request_bytes ?b)"
  have l: "length ?b \<le> 249" using assms(3) by (auto simp: request_body_def request_neg_def)
  have h: "length ?h = 11" by simp
  have b: "request_bytes ?b = ?h @ ?b"
    by (simp add: request_bytes_def Let_def tpdu_header_enc_def x224_const)
  have skip: "(if 8 < length ?b then nego_skip_cookie (stm ?h ?b ?sz) else Some (stm ?h ?b ?sz))
    = Some (stm (?h @ request_cookie g) (request_neg ?p) ?sz)"
  proof (cases "n_cookie g")
    case None
    then show ?thesis using assms(1) by (simp add: request_body_def request_cookie_def request_neg_def)
  next
    case (Some c)
    have c: "request_cookie g = (cookie_prefix @ c) @ [0x0D, 0x0A]"
      using assms(1) Some by (simp add: request_cookie_def)
    have cr: "0x0D \<notin> set (cookie_prefix @ c)" using assms(2) Some by (simp add: cookie_prefix_def)
    have "nego_skip_cookie (stm ?h ((cookie_prefix @ c) @ 0x0D # 0x0A # request_neg ?p) ?sz)
      = Some (stm (?h @ (cookie_prefix @ c) @ [0x0D, 0x0A]) (request_neg ?p) ?sz)"
      by (rule skip_cookie_stm [OF cr]) (simp add: request_body_def c)
    then show ?thesis by (simp add: request_body_def c)
  qed
  have fin: "?h @ request_cookie g @ request_neg ?p = request_bytes ?b"
    using b by (simp add: request_body_def)
  show ?thesis
    unfolding read_request_body [OF l] Let_def skip
    using fin
    by (auto simp: request_body_def request_neg_def wire nego_process_negotiation_request_def join_u32)
qed

section \<open>Properties\<close>


definition demo_nego :: rdpNego where
  "demo_nego = nego_enable_tls (nego_new (transport_new settings_zero
     \<lparr>net_recv = [Recv_data [3, 0], Recv_again, Recv_data [0, 11, 6, 0xD0]], net_send = [Send_ok 7, Send_again],
      net_conn = [Conn_ok 5], net_tls = [], net_credssp = [], net_tsg = [], net_skip = [], net_rpch = [],
      net_fcntl = [], net_sent = [], net_rpc_sent = []\<rparr>)) True"




text \<open>
  C25: what \<open>nego_recv\<close> makes of any answer of at least 19 bytes. A message without TPKT version 3 or
  of length zero is refused. A data unit that is no connection confirm, or one with a length
  indicator of at most 6, ends the negotiation and leaves the selected protocol as it was, so
  initially standard RDP security, whether the user enabled it or not. A negotiation response ends
  it with the flags and the protocol of the server, which need not be one of those asked for. A
  failure fails it, and any other type leaves the state as it was.
\<close>

theorem nego_recv_outcome:
  "map_option (\<lambda>(rv, g', s). (rv, g')) (nego_recv g (stm [] ([v, r, l1, l0, li, code, x1, x2, x3, x4, x5,
      ty, fl, k0, k1, p0, p1, p2, p3] @ rest) sz))
   = Some (if v = 3 \<and> \<not> (l1 = 0 \<and> l0 = 0) then
        (if code = X224_TPDU_CONNECTION_CONFIRM \<and> 6 < li then
           (if ty = TYPE_RDP_NEG_RSP then
              (True, g\<lparr>n_flags := ucast fl, n_state := NEGO_STATE_FINAL, n_selected_protocol :=
                ucast p0 + push_bit 8 (ucast p1) + push_bit 16 (ucast p2) + push_bit 24 (ucast p3)\<rparr>)
            else if ty = TYPE_RDP_NEG_FAILURE then (True, g\<lparr>n_state := NEGO_STATE_FAIL\<rparr>)
            else (True, g))
         else (True, g\<lparr>n_state := NEGO_STATE_FINAL\<rparr>))
      else (False, g))"
proof -
  have z: "push_bit 8 (ucast l1) + ucast l0 = (0 :: u16) \<longleftrightarrow> l1 = 0 \<and> l0 = 0"
  proof -
    have "push_bit 8 (ucast l1) + ucast l0 = (0 :: u16) \<longleftrightarrow> 256 * uint l1 + uint l0 = 0"
      by (simp only: unsigned_eq_0_iff flip: uint_join_be)
    also have "\<dots> \<longleftrightarrow> uint l1 = 0 \<and> uint l0 = 0"
      using uint_ge_0 [of l1] uint_ge_0 [of l0] by (auto simp: add_nonneg_eq_0_iff)
    finally show ?thesis by (simp only: unsigned_eq_0_iff)
  qed
  obtain k where "nego_recv g (stm [] (v # r # l1 # l0 # li # code # x1 # x2 # x3 # x4 # x5
      # ty # fl # k0 # k1 # p0 # p1 # p2 # p3 # rest) sz)
     = (case answer_effect g v (push_bit 8 (ucast l1) + ucast l0) li code ty fl
          (ucast p0 + push_bit 8 (ucast p1) + push_bit 16 (ucast p2) + push_bit 24 (ucast p3)) of
        (rv, g') \<Rightarrow> Some (rv, g', stream_seek (stm [] (v # r # l1 # l0 # li # code # x1 # x2 # x3 # x4 # x5
      # ty # fl # k0 # k1 # p0 # p1 # p2 # p3 # rest) sz) k))"
    using nego_recv_bytes [of g v r l1 l0 li code x1 x2 x3 x4 x5 ty fl k0 k1 p0 p1 p2 p3 rest sz] by blast
  then show ?thesis
    by (simp add: answer_effect_def z case_prod_beta)
qed

text \<open>
  C12: a request the client reports as sent is what the server side of the same file reads: the bytes
  added to the connection, taken as a packet, make \<open>nego_read_request\<close> succeed, consume the whole
  packet and record exactly the protocols the client requested, with or without a cookie in front.
\<close>

theorem nego_request_roundtrip:
  assumes "channel_ok (n_transport g)" and "nego_send_negotiation_request g = Some (True, g')"
    and "n_routing_token g = None" and "\<And>c. n_cookie g = Some c \<Longrightarrow> 0x0D \<notin> set c"
    and "length (request_cookie g) \<le> 241"
  shows "\<exists>req. net_sent (t_net (n_transport g')) = net_sent (t_net (n_transport g)) @ req
    \<and> nego_read_request h (stm [] req (int (length req)))
      = Some (True, (if n_requested_protocols g = 0 then h
          else h\<lparr>n_requested_protocols := n_requested_protocols g, n_state := NEGO_STATE_FINAL\<rparr>),
        stm req [] (int (length req)))"
proof -
  have fits: "11 + int (length (request_body g)) \<le> BUFFER_SIZE"
    using assms(5) by (auto simp: request_body_def request_neg_def BUFFER_SIZE_def)
  obtain b t' k where r: "nego_send_negotiation_request g = Some (b, g\<lparr>n_transport := t'\<rparr>)"
    and k: "b \<longrightarrow> k = length (request_bytes (request_body g))"
      "net_sent (t_net t') = net_sent (t_net (n_transport g)) @ take k (request_bytes (request_body g))"
    using nego_send_request_any [OF assms(1) fits] by blast
  have "b" and "g' = g\<lparr>n_transport := t'\<rparr>" using r assms(2) by simp_all
  with k have "net_sent (t_net (n_transport g')) = net_sent (t_net (n_transport g)) @ request_bytes (request_body g)"
    by simp
  then show ?thesis using read_request_returns [OF assms(3-5)] by blast
qed

definition demo_client :: rdpNego where
  "demo_client = (nego_new (transport_new settings_zero
     \<lparr>net_recv = [], net_send = [Send_ok 100], net_conn = [], net_tls = [], net_credssp = [], net_tsg = [],
      net_skip = [], net_rpch = [], net_fcntl = [], net_sent = [], net_rpc_sent = []\<rparr>))
     \<lparr>n_cookie := Some [0x61], n_requested_protocols := PROTOCOL_TLS\<rparr>"

lemma demo_client_ok: "channel_ok (n_transport demo_client)"
  by (simp add: demo_client_def channel_ok_def nego_new_def nego_init_def transport_new_def roomy_def
      stream_new_def BUFFER_SIZE_def settings_zero_def stream_wf_def)

lemma demo_client_sends: "\<exists>g'. nego_send_negotiation_request demo_client = Some (True, g')"
proof -
  obtain rst sz where i: "transport_send_stream_init (n_transport demo_client) 256
      = Some (stm [] rst sz, (n_transport demo_client)\<lparr>t_send_stream := stm [] rst sz\<rparr>)"
    and sz: "BUFFER_SIZE \<le> sz" "sz \<le> int (length rst)"
    using send_stream_init [OF demo_client_ok, of 256] by auto
  have l: "length (request_body demo_client) = 28"
    by (simp add: demo_client_def nego_new_def nego_init_def request_body_def request_cookie_def request_neg_def
        PROTOCOL_TLS_def)
  have fits: "11 + length (request_body demo_client) \<le> length rst" using sz l by (simp add: BUFFER_SIZE_def)
  let ?t = "(n_transport demo_client)\<lparr>t_send_stream := stm [] rst sz\<rparr>"
  obtain s' t' where "transport_write ?t (stm (request_bytes (request_body demo_client))
      (drop (11 + length (request_body demo_client)) rst) sz)
    = Some (int (length (request_bytes (request_body demo_client))), s', t')"
    using write_at_once [of ?t 100 "[]" "request_bytes (request_body demo_client)"
        "drop (11 + length (request_body demo_client)) rst" sz] l
    by (auto simp: demo_client_def nego_new_def nego_init_def transport_new_def)
  then show ?thesis by (simp add: nego_send_request_eq [OF i fits])
qed

theorem nego_request_roundtrip_witness:
  "\<exists>g' req. nego_send_negotiation_request demo_client = Some (True, g')
    \<and> net_sent (t_net (n_transport g')) = net_sent (t_net (n_transport demo_client)) @ req
    \<and> nego_read_request demo_nego (stm [] req (int (length req)))
      = Some (True, demo_nego\<lparr>n_requested_protocols := PROTOCOL_TLS, n_state := NEGO_STATE_FINAL\<rparr>,
        stm req [] (int (length req)))"
proof -
  obtain g' where g': "nego_send_negotiation_request demo_client = Some (True, g')"
    using demo_client_sends by blast
  have f: "n_routing_token demo_client = None" "n_requested_protocols demo_client = PROTOCOL_TLS"
    "length (request_cookie demo_client) \<le> 241"
    by (simp_all add: demo_client_def nego_new_def nego_init_def request_cookie_def)
  have c: "n_cookie demo_client = Some c \<Longrightarrow> 0x0D \<notin> set c" for c
    by (auto simp: demo_client_def)
  show ?thesis
    using nego_request_roundtrip [OF demo_client_ok g' f(1) c f(3), of demo_nego] g'
    unfolding f(2) by (simp add: PROTOCOL_TLS_def)
qed

end
