(* ===== verification/Mcs.thy ===== *)
theory Mcs
  imports Transport_Channel Ber Per
begin

unbundle bit_operations_syntax

text \<open>
  The multipoint communication service: \<^verbatim>\<open>libfreerdp-core/mcs.c\<close> without the two connect PDUs,
  whose user data is built by the conference control. Both ends of the protocol are in the file;
  an MCS object owns its transport. A value of \<open>enum DomainMCSPDU\<close> is an integer, because the
  reader stores whatever the packet says.
\<close>

section \<open>Data\<close>

definition MCS_BASE_CHANNEL_ID :: u16 where "MCS_BASE_CHANNEL_ID = 1001"
definition MCS_GLOBAL_CHANNEL_ID :: u16 where "MCS_GLOBAL_CHANNEL_ID = 1003"
definition MCS_Result_enum_length :: u8 where "MCS_Result_enum_length = 16"
definition MCS_TYPE_CONNECT_INITIAL :: u8 where "MCS_TYPE_CONNECT_INITIAL = 0x65"
definition MCS_TYPE_CONNECT_RESPONSE :: u8 where "MCS_TYPE_CONNECT_RESPONSE = 0x66"

definition DomainMCSPDU_ErectDomainRequest :: int where "DomainMCSPDU_ErectDomainRequest = 1"
definition DomainMCSPDU_DisconnectProviderUltimatum :: int where "DomainMCSPDU_DisconnectProviderUltimatum = 8"
definition DomainMCSPDU_AttachUserRequest :: int where "DomainMCSPDU_AttachUserRequest = 10"
definition DomainMCSPDU_AttachUserConfirm :: int where "DomainMCSPDU_AttachUserConfirm = 11"
definition DomainMCSPDU_ChannelJoinRequest :: int where "DomainMCSPDU_ChannelJoinRequest = 14"
definition DomainMCSPDU_ChannelJoinConfirm :: int where "DomainMCSPDU_ChannelJoinConfirm = 15"
definition DomainMCSPDU_SendDataRequest :: int where "DomainMCSPDU_SendDataRequest = 25"
definition DomainMCSPDU_SendDataIndication :: int where "DomainMCSPDU_SendDataIndication = 26"

lemmas mcs_pdu_defs = DomainMCSPDU_ErectDomainRequest_def DomainMCSPDU_DisconnectProviderUltimatum_def
  DomainMCSPDU_AttachUserRequest_def DomainMCSPDU_AttachUserConfirm_def DomainMCSPDU_ChannelJoinRequest_def
  DomainMCSPDU_ChannelJoinConfirm_def DomainMCSPDU_SendDataRequest_def DomainMCSPDU_SendDataIndication_def

record DomainParameters =
  maxChannelIds :: u32
  maxUserIds :: u32
  maxTokenIds :: u32
  numPriorities :: u32
  minThroughput :: u32
  maxHeight :: u32
  maxMCSPDUsize :: u32
  protocolVersion :: u32

record rdpMcs =
  m_user_id :: u16
  m_transport :: rdpTransport
  m_domainParameters :: DomainParameters
  m_targetParameters :: DomainParameters
  m_minimumParameters :: DomainParameters
  m_maximumParameters :: DomainParameters
  m_user_channel_joined :: tbool
  m_global_channel_joined :: tbool

section \<open>Headers\<close>

definition mcs_read_domain_mcspdu_header :: "STREAM \<Rightarrow> int \<Rightarrow> ((tbool \<times> int \<times> u16) \<times> STREAM) option" where
  "mcs_read_domain_mcspdu_header s domainMCSPDU = do {
     (len, s) \<leftarrow> tpkt_read_header s;
     (li, s) \<leftarrow> tpdu_read_data s;
     (if li = 0 then Some ((False, domainMCSPDU, len), s)
      else do {
        ((_, choice), s) \<leftarrow> per_read_choice s;
        Some ((True, uint (drop_bit 2 choice), len), s) }) }"

definition mcs_read_domain_mcspdu_header_check ::
  "STREAM \<Rightarrow> int \<Rightarrow> ((tbool \<times> int \<times> u16) \<times> STREAM) option" where
  "mcs_read_domain_mcspdu_header_check s domainMCSPDU = do {
     let MCSPDU = domainMCSPDU;
     ((b, domainMCSPDU, len), s) \<leftarrow> mcs_read_domain_mcspdu_header s domainMCSPDU;
     (if \<not> b then Some ((False, domainMCSPDU, len), s)
      else if domainMCSPDU \<noteq> MCSPDU then Some ((False, domainMCSPDU, len), s)
      else Some ((True, domainMCSPDU, len), s)) }"

definition mcs_write_domain_mcspdu_header :: "STREAM \<Rightarrow> int \<Rightarrow> u16 \<Rightarrow> u8 \<Rightarrow> STREAM option" where
  "mcs_write_domain_mcspdu_header s domainMCSPDU len options = do {
     s \<leftarrow> tpkt_write_header s len;
     s \<leftarrow> tpdu_write_data s;
     per_write_choice s (word_of_int (push_bit 2 domainMCSPDU OR uint options)) }"

section \<open>Domain parameters\<close>

definition mcs_init_domain_parameters :: "u32 \<Rightarrow> u32 \<Rightarrow> u32 \<Rightarrow> u32 \<Rightarrow> DomainParameters" where
  "mcs_init_domain_parameters channelIds userIds tokenIds pduSize =
     \<lparr>maxChannelIds = channelIds, maxUserIds = userIds, maxTokenIds = tokenIds, numPriorities = 1,
      minThroughput = 0, maxHeight = 1, maxMCSPDUsize = pduSize, protocolVersion = 2\<rparr>"

text \<open>
  The length variables of the BER readers are not initialised; \<open>junk i\<close> is what the \<open>i\<close>-th of them
  holds. No result of a reader is looked at.
\<close>

definition mcs_read_integer :: "STREAM \<Rightarrow> u32 \<Rightarrow> int \<Rightarrow> (u32 \<times> STREAM) option" where
  "mcs_read_integer s old junk = do {
     ((_, v), s) \<leftarrow> ber_read_integer s (Some old) junk;
     Some (case v of None \<Rightarrow> old | Some v \<Rightarrow> v, s) }"

definition mcs_read_domain_parameters ::
  "(nat \<Rightarrow> int) \<Rightarrow> STREAM \<Rightarrow> DomainParameters \<Rightarrow> ((tbool \<times> DomainParameters) \<times> STREAM) option" where
  "mcs_read_domain_parameters junk s d = do {
     (_, s) \<leftarrow> ber_read_sequence_tag s (junk 0);
     (v, s) \<leftarrow> mcs_read_integer s (maxChannelIds d) (junk 1);
     let d = d\<lparr>maxChannelIds := v\<rparr>;
     (v, s) \<leftarrow> mcs_read_integer s (maxUserIds d) (junk 2);
     let d = d\<lparr>maxUserIds := v\<rparr>;
     (v, s) \<leftarrow> mcs_read_integer s (maxTokenIds d) (junk 3);
     let d = d\<lparr>maxTokenIds := v\<rparr>;
     (v, s) \<leftarrow> mcs_read_integer s (numPriorities d) (junk 4);
     let d = d\<lparr>numPriorities := v\<rparr>;
     (v, s) \<leftarrow> mcs_read_integer s (minThroughput d) (junk 5);
     let d = d\<lparr>minThroughput := v\<rparr>;
     (v, s) \<leftarrow> mcs_read_integer s (maxHeight d) (junk 6);
     let d = d\<lparr>maxHeight := v\<rparr>;
     (v, s) \<leftarrow> mcs_read_integer s (maxMCSPDUsize d) (junk 7);
     let d = d\<lparr>maxMCSPDUsize := v\<rparr>;
     (v, s) \<leftarrow> mcs_read_integer s (protocolVersion d) (junk 8);
     let d = d\<lparr>protocolVersion := v\<rparr>;
     Some ((True, d), s) }"

definition mcs_write_domain_parameters :: "STREAM \<Rightarrow> DomainParameters \<Rightarrow> STREAM option" where
  "mcs_write_domain_parameters s d = do {
     let tmps = stream_new (s_size s);
     (_, tmps) \<leftarrow> ber_write_integer tmps (maxChannelIds d);
     (_, tmps) \<leftarrow> ber_write_integer tmps (maxUserIds d);
     (_, tmps) \<leftarrow> ber_write_integer tmps (maxTokenIds d);
     (_, tmps) \<leftarrow> ber_write_integer tmps (numPriorities d);
     (_, tmps) \<leftarrow> ber_write_integer tmps (minThroughput d);
     (_, tmps) \<leftarrow> ber_write_integer tmps (maxHeight d);
     (_, tmps) \<leftarrow> ber_write_integer tmps (maxMCSPDUsize d);
     (_, tmps) \<leftarrow> ber_write_integer tmps (protocolVersion d);
     let len = stream_get_length tmps;
     (_, s) \<leftarrow> ber_write_sequence_tag s len;
     stream_write s (s_data tmps) len }"

section \<open>Requests and confirmations\<close>

text \<open>
  Every sender initialises the send stream for the length it announces, writes the header and the
  body, and hands the stream to the transport; the server's senders ignore the result.
\<close>

definition mcs_transmit ::
  "rdpMcs \<Rightarrow> int \<Rightarrow> (STREAM \<Rightarrow> STREAM option) \<Rightarrow> (int \<times> rdpMcs) option" where
  "mcs_transmit m len body = do {
     (status, s, t) \<leftarrow> do {
        (s, t) \<leftarrow> transport_send_stream_init (m_transport m) len;
        s \<leftarrow> body s;
        transport_write t s };
     Some (status, m\<lparr>m_transport := t\<lparr>t_send_stream := s\<rparr>\<rparr>) }"

definition mcs_recv_erect_domain_request :: "rdpMcs \<Rightarrow> STREAM \<Rightarrow> ((tbool \<times> rdpMcs) \<times> STREAM) option" where
  "mcs_recv_erect_domain_request m s = do {
     ((b, _, len), s) \<leftarrow> mcs_read_domain_mcspdu_header_check s DomainMCSPDU_ErectDomainRequest;
     (if \<not> b then Some ((False, m), s) else Some ((True, m), s)) }"

definition mcs_send_erect_domain_request :: "rdpMcs \<Rightarrow> (tbool \<times> rdpMcs) option" where
  "mcs_send_erect_domain_request m = do {
     (status, m) \<leftarrow> mcs_transmit m 12 (\<lambda>s. do {
        s \<leftarrow> mcs_write_domain_mcspdu_header s DomainMCSPDU_ErectDomainRequest 12 0;
        s \<leftarrow> per_write_integer s 0;
        per_write_integer s 0 });
     (if status < 0 then Some (False, m) else Some (True, m)) }"

definition mcs_recv_attach_user_request :: "rdpMcs \<Rightarrow> STREAM \<Rightarrow> ((tbool \<times> rdpMcs) \<times> STREAM) option" where
  "mcs_recv_attach_user_request m s = do {
     ((b, _, len), s) \<leftarrow> mcs_read_domain_mcspdu_header_check s DomainMCSPDU_AttachUserRequest;
     (if \<not> b then Some ((False, m), s) else Some ((True, m), s)) }"

definition mcs_send_attach_user_request :: "rdpMcs \<Rightarrow> (tbool \<times> rdpMcs) option" where
  "mcs_send_attach_user_request m = do {
     (status, m) \<leftarrow> mcs_transmit m 8 (\<lambda>s.
        mcs_write_domain_mcspdu_header s DomainMCSPDU_AttachUserRequest 8 0);
     (if status < 0 then Some (False, m) else Some (True, m)) }"

text \<open>The result of the enumerated readers is stored in a local variable that nobody reads.\<close>

definition mcs_recv_attach_user_confirm :: "rdpMcs \<Rightarrow> STREAM \<Rightarrow> ((tbool \<times> rdpMcs) \<times> STREAM) option" where
  "mcs_recv_attach_user_confirm m s = do {
     ((b, _, len), s) \<leftarrow> mcs_read_domain_mcspdu_header_check s DomainMCSPDU_AttachUserConfirm;
     (if \<not> b then Some ((False, m), s)
      else do {
        (_, s) \<leftarrow> per_read_enumerated s 0 MCS_Result_enum_length;
        ((_, user_id), s) \<leftarrow> per_read_integer16 s MCS_BASE_CHANNEL_ID;
        Some ((True, m\<lparr>m_user_id := user_id\<rparr>), s) }) }"

definition mcs_send_attach_user_confirm :: "rdpMcs \<Rightarrow> (tbool \<times> rdpMcs) option" where
  "mcs_send_attach_user_confirm m = do {
     let user_id = 1002;
     (status, m) \<leftarrow> mcs_transmit m 11 (\<lambda>s. do {
        s \<leftarrow> mcs_write_domain_mcspdu_header s DomainMCSPDU_AttachUserConfirm 11 2;
        s \<leftarrow> per_write_enumerated s 0 MCS_Result_enum_length;
        per_write_integer16 s user_id MCS_BASE_CHANNEL_ID });
     Some (True, m\<lparr>m_user_id := user_id\<rparr>) }"

definition mcs_recv_channel_join_request ::
  "rdpMcs \<Rightarrow> STREAM \<Rightarrow> u16 \<Rightarrow> ((tbool \<times> u16) \<times> STREAM) option" where
  "mcs_recv_channel_join_request m s channel_id = do {
     ((b, _, len), s) \<leftarrow> mcs_read_domain_mcspdu_header_check s DomainMCSPDU_ChannelJoinRequest;
     (if \<not> b then Some ((False, channel_id), s)
      else do {
        ((b, user_id), s) \<leftarrow> per_read_integer16 s MCS_BASE_CHANNEL_ID;
        (if \<not> b then Some ((False, channel_id), s)
         else if user_id \<noteq> m_user_id m then Some ((False, channel_id), s)
         else do {
           ((b, channel_id), s) \<leftarrow> per_read_integer16 s 0;
           (if \<not> b then Some ((False, channel_id), s) else Some ((True, channel_id), s)) }) }) }"

definition mcs_send_channel_join_request :: "rdpMcs \<Rightarrow> u16 \<Rightarrow> (tbool \<times> rdpMcs) option" where
  "mcs_send_channel_join_request m channel_id = do {
     (status, m) \<leftarrow> mcs_transmit m 12 (\<lambda>s. do {
        s \<leftarrow> mcs_write_domain_mcspdu_header s DomainMCSPDU_ChannelJoinRequest 12 0;
        s \<leftarrow> per_write_integer16 s (m_user_id m) MCS_BASE_CHANNEL_ID;
        per_write_integer16 s channel_id 0 });
     (if status < 0 then Some (False, m) else Some (True, m)) }"

definition mcs_recv_channel_join_confirm ::
  "rdpMcs \<Rightarrow> STREAM \<Rightarrow> u16 \<Rightarrow> ((tbool \<times> u16) \<times> STREAM) option" where
  "mcs_recv_channel_join_confirm m s channel_id = do {
     ((b, _, len), s) \<leftarrow> mcs_read_domain_mcspdu_header_check s DomainMCSPDU_ChannelJoinConfirm;
     (if \<not> b then Some ((False, channel_id), s)
      else do {
        (_, s) \<leftarrow> per_read_enumerated s 0 MCS_Result_enum_length;
        (_, s) \<leftarrow> per_read_integer16 s MCS_BASE_CHANNEL_ID;
        (_, s) \<leftarrow> per_read_integer16 s 0;
        ((_, channel_id), s) \<leftarrow> per_read_integer16 s 0;
        Some ((True, channel_id), s) }) }"

definition mcs_send_channel_join_confirm :: "rdpMcs \<Rightarrow> u16 \<Rightarrow> (tbool \<times> rdpMcs) option" where
  "mcs_send_channel_join_confirm m channel_id = do {
     (status, m) \<leftarrow> mcs_transmit m 15 (\<lambda>s. do {
        s \<leftarrow> mcs_write_domain_mcspdu_header s DomainMCSPDU_ChannelJoinConfirm 15 2;
        s \<leftarrow> per_write_enumerated s 0 MCS_Result_enum_length;
        s \<leftarrow> per_write_integer16 s (m_user_id m) MCS_BASE_CHANNEL_ID;
        s \<leftarrow> per_write_integer16 s channel_id 0;
        per_write_integer16 s channel_id 0 });
     Some (True, m) }"

definition mcs_send_disconnect_provider_ultimatum :: "rdpMcs \<Rightarrow> (tbool \<times> rdpMcs) option" where
  "mcs_send_disconnect_provider_ultimatum m = do {
     (status, m) \<leftarrow> mcs_transmit m 9 (\<lambda>s. do {
        s \<leftarrow> mcs_write_domain_mcspdu_header s DomainMCSPDU_DisconnectProviderUltimatum 9 1;
        per_write_enumerated s 0 0 });
     Some (True, m) }"

definition mcs_new :: "rdpTransport \<Rightarrow> rdpMcs" where
  "mcs_new t =
     \<lparr>m_user_id = 0, m_transport = t,
      m_domainParameters = \<lparr>maxChannelIds = 0, maxUserIds = 0, maxTokenIds = 0, numPriorities = 0,
        minThroughput = 0, maxHeight = 0, maxMCSPDUsize = 0, protocolVersion = 0\<rparr>,
      m_targetParameters = mcs_init_domain_parameters 34 2 0 0xFFFF,
      m_minimumParameters = mcs_init_domain_parameters 1 1 1 0x420,
      m_maximumParameters = mcs_init_domain_parameters 0xFFFF 0xFC17 0xFFFF 0xFFFF,
      m_user_channel_joined = False, m_global_channel_joined = False\<rparr>"

section \<open>Encodings\<close>

definition mcs_header_enc :: "int \<Rightarrow> u16 \<Rightarrow> u8 \<Rightarrow> u8 list" where
  "mcs_header_enc pdu n options = [3, 0, octet (Suc 0) n, octet 0 n, 2, 0xF0, 0x80,
     word_of_int (push_bit 2 pdu OR uint options)]"

lemma length_mcs_header_enc [simp]: "length (mcs_header_enc pdu n options) = 8"
  by (simp add: mcs_header_enc_def)

lemma mcs_write_header_emit [wire]:
  "mcs_write_domain_mcspdu_header s pdu n options = emit (mcs_header_enc pdu n options) s"
  by (simp add: mcs_write_domain_mcspdu_header_def mcs_header_enc_def tpdu_write_data_def per_write_choice_def
      tpdu_header_enc_def x224_const octet_def wire)

text \<open>A choice of six bits and two bits of options share the last byte of the header.\<close>

lemma mcs_choice:
  assumes "0 \<le> pdu" and "pdu < 64" and "options < (4 :: u8)"
  shows "uint (drop_bit 2 (word_of_int (push_bit 2 pdu OR uint options) :: u8)) = pdu"
proof -
  have o: "take_bit 2 (uint options) = uint options"
    using assms(3) by (simp add: take_bit_int_eq_self_iff word_less_def)
  have p: "take_bit 6 pdu = pdu" using assms(1,2) by (simp add: take_bit_int_eq_self_iff)
  have "uint (drop_bit 2 (word_of_int (push_bit 2 pdu OR uint options) :: u8))
      = take_bit 6 (drop_bit 2 (push_bit 2 pdu OR take_bit 2 (uint options)))"
    by (simp add: o unsigned_drop_bit_eq uint_word_of_int_eq take_bit_drop_bit)
  also have "\<dots> = take_bit 6 pdu"
    by (rule bit_eqI) (auto simp: bit_simps)
  finally show ?thesis using p by simp
qed

lemma mcs_read_header_stm [wire]:
  assumes "0 \<le> pdu" and "pdu < 64" and "options < 4"
  shows "mcs_read_domain_mcspdu_header (stm pre (mcs_header_enc pdu n options @ rst) sz) old
    = Some ((True, pdu, n), stm (pre @ mcs_header_enc pdu n options) rst sz)"
  using mcs_choice [OF assms]
  by (simp add: mcs_read_domain_mcspdu_header_def mcs_header_enc_def tpdu_read_data_def tpdu_read_header_def
      x224_const per_read_choice_def stream_seek_stm wire join_u16_be)

interpretation mcs_header: wire_codec "\<lambda>s (pdu, n, options). mcs_write_domain_mcspdu_header s pdu n options"
  "\<lambda>(pdu, n, options). mcs_header_enc pdu n options" "\<lambda>(pdu, n, options). 0 \<le> pdu \<and> pdu < 64 \<and> options < 4"
  "\<lambda>s. mcs_read_domain_mcspdu_header s old" "\<lambda>(pdu, n, options). (True, pdu, n)" for old
  by unfold_locales (auto simp: wire)

lemma mcs_check_stm:
  assumes "0 \<le> pdu" and "pdu < 64" and "options < 4"
  shows "mcs_read_domain_mcspdu_header_check (stm pre (mcs_header_enc pdu n options @ rst) sz) expected
    = Some ((pdu = expected, pdu, n), stm (pre @ mcs_header_enc pdu n options) rst sz)"
  by (simp add: mcs_read_domain_mcspdu_header_check_def mcs_read_header_stm [OF assms])

lemma read_channel_id:
  "per_read_integer16 (stm pre (octet (Suc 0) c # octet 0 c # rst) sz) 0
     = Some ((True, c), stm (pre @ [octet (Suc 0) c, octet 0 c]) rst sz)"
  using per_read_integer16_stm [where v = c and m = 0] by (simp add: per_integer16_dec_def)

section \<open>Messages\<close>

text \<open>The six messages without user data and their bytes; \<open>u\<close> is the user id of the sender.\<close>

datatype mcs_message = Erect_domain | Attach_request | Attach_confirm | Join_request u16
  | Join_confirm u16 | Disconnect

abbreviation int16_enc :: "u16 \<Rightarrow> u16 \<Rightarrow> u8 list" where
  "int16_enc v m \<equiv> [octet (Suc 0) (v - m), octet 0 (v - m)]"

fun message_bytes :: "u16 \<Rightarrow> mcs_message \<Rightarrow> u8 list" where
  "message_bytes u Erect_domain = mcs_header_enc DomainMCSPDU_ErectDomainRequest 12 0 @ [1, 0, 1, 0]"
| "message_bytes u Attach_request = mcs_header_enc DomainMCSPDU_AttachUserRequest 8 0"
| "message_bytes u Attach_confirm = mcs_header_enc DomainMCSPDU_AttachUserConfirm 11 2
     @ 0 # int16_enc 1002 MCS_BASE_CHANNEL_ID"
| "message_bytes u (Join_request c) = mcs_header_enc DomainMCSPDU_ChannelJoinRequest 12 0
     @ int16_enc u MCS_BASE_CHANNEL_ID @ int16_enc c 0"
| "message_bytes u (Join_confirm c) = mcs_header_enc DomainMCSPDU_ChannelJoinConfirm 15 2
     @ 0 # int16_enc u MCS_BASE_CHANNEL_ID @ int16_enc c 0 @ int16_enc c 0"
| "message_bytes u Disconnect = mcs_header_enc DomainMCSPDU_DisconnectProviderUltimatum 9 1 @ [0]"

fun mcs_send :: "rdpMcs \<Rightarrow> mcs_message \<Rightarrow> (tbool \<times> rdpMcs) option" where
  "mcs_send m Erect_domain = mcs_send_erect_domain_request m"
| "mcs_send m Attach_request = mcs_send_attach_user_request m"
| "mcs_send m Attach_confirm = mcs_send_attach_user_confirm m"
| "mcs_send m (Join_request c) = mcs_send_channel_join_request m c"
| "mcs_send m (Join_confirm c) = mcs_send_channel_join_confirm m c"
| "mcs_send m Disconnect = mcs_send_disconnect_provider_ultimatum m"

text \<open>Whether the result of the sender tells that the transport failed.\<close>

fun reports_failure :: "mcs_message \<Rightarrow> bool" where
  "reports_failure Erect_domain = True"
| "reports_failure Attach_request = True"
| "reports_failure (Join_request c) = True"
| "reports_failure _ = False"

lemma mcs_transmit_any:
  assumes "channel_ok (m_transport m)" and "bs \<noteq> []" and "int (length bs) \<le> BUFFER_SIZE" and "0 < n"
    and "\<And>s. W s = emit bs s"
  shows "\<exists>st t' k. mcs_transmit m n W = Some (st, m\<lparr>m_transport := t'\<rparr>)
    \<and> (0 \<le> st \<longrightarrow> channel_ok t' \<and> k = length bs)
    \<and> net_sent (t_net t') = net_sent (t_net (m_transport m)) @ take k bs"
proof -
  let ?t = "m_transport m"
  obtain st s' t' k where r: "Option.bind (transport_send_stream_init ?t n) (\<lambda>(s, t).
      Option.bind (W s) (\<lambda>s. transport_write t s)) = Some (st, s', t')"
    and k: "0 \<le> st \<longrightarrow> channel_ok (t'\<lparr>t_send_stream := s'\<rparr>) \<and> k = length bs"
    "net_sent (t_net t') = net_sent (t_net ?t) @ take k bs"
    using send_packet_any [OF assms] by blast
  have "mcs_transmit m n W = Some (st, m\<lparr>m_transport := t'\<lparr>t_send_stream := s'\<rparr>\<rparr>)"
    unfolding mcs_transmit_def r by simp
  with k show ?thesis
    by (intro exI [of _ st] exI [of _ "t'\<lparr>t_send_stream := s'\<rparr>"] exI [of _ k]) simp
qed

lemma message_bytes_packet: "length (message_bytes u msg) \<in> {8..15}" "message_bytes u msg \<noteq> []"
  by (cases msg; simp add: mcs_header_enc_def)+

lemma per_integer_enc_zero: "per_integer_enc 0 = [1, 0]"
  by (simp add: per_integer_enc_def per_length_enc_def octet_def)

text \<open>Every sender is one transmission of its bytes.\<close>

lemma mcs_send_transmits:
  "mcs_send m msg = Option.bind
     (mcs_transmit m (int (length (message_bytes (m_user_id m) msg))) (emit (message_bytes (m_user_id m) msg)))
     (\<lambda>(st, m). Some (if reports_failure msg then 0 \<le> st else True,
          if msg = Attach_confirm then m\<lparr>m_user_id := 1002\<rparr> else m))"
  by (cases msg)
    (auto simp: mcs_send_erect_domain_request_def mcs_send_attach_user_request_def mcs_send_attach_user_confirm_def
      mcs_send_channel_join_request_def mcs_send_channel_join_confirm_def per_write_enumerated_def
      mcs_send_disconnect_provider_ultimatum_def wire Let_def per_integer_enc_zero intro!: Option.bind_cong)

lemma message_is_packet: "is_packet (message_bytes u msg)"
  by (cases msg) (simp_all add: is_packet_def mcs_header_enc_def octet_def)

lemma mcs_send_any:
  assumes "channel_ok (m_transport m)"
  shows "\<exists>b t' k. mcs_send m msg = Some (b, m\<lparr>m_transport := t',
        m_user_id := (if msg = Attach_confirm then 1002 else m_user_id m)\<rparr>)
    \<and> (b \<and> reports_failure msg \<longrightarrow> channel_ok t' \<and> k = length (message_bytes (m_user_id m) msg))
    \<and> (\<not> reports_failure msg \<longrightarrow> b)
    \<and> net_sent (t_net t') = net_sent (t_net (m_transport m)) @ take k (message_bytes (m_user_id m) msg)"
proof -
  let ?b = "message_bytes (m_user_id m) msg"
  have l: "?b \<noteq> []" "int (length ?b) \<le> BUFFER_SIZE" "0 < int (length ?b)"
    using message_bytes_packet [of "m_user_id m" msg] by (auto simp: BUFFER_SIZE_def)
  obtain st t' k where r: "mcs_transmit m (int (length ?b)) (emit ?b) = Some (st, m\<lparr>m_transport := t'\<rparr>)"
    and k: "0 \<le> st \<longrightarrow> channel_ok t' \<and> k = length ?b"
      "net_sent (t_net t') = net_sent (t_net (m_transport m)) @ take k ?b"
    using mcs_transmit_any [OF assms l refl] by blast
  show ?thesis
    using k unfolding mcs_send_transmits r
    by (intro exI [of _ "if reports_failure msg then 0 \<le> st else True"] exI [of _ t'] exI [of _ k]) simp
qed

section \<open>Properties\<close>


definition demo_mcs :: "send_event list \<Rightarrow> rdpMcs" where
  "demo_mcs es = mcs_new (demo_transport True [] es)"

lemma demo_mcs_ok: "channel_ok (m_transport (demo_mcs es))"
  by (simp add: demo_mcs_def mcs_new_def channel_ok_def demo_transport_def transport_new_def roomy_def
      stream_new_def BUFFER_SIZE_def settings_zero_def stream_wf_def)


text \<open>
  C17: a channel join request reported as sent is accepted by the server side exactly when the
  client's user id is a valid one and the one the server gave it, and the server then sees the
  channel the client asked for; any other request is refused and leaves the server's variable.
\<close>

theorem mcs_join_request_roundtrip:
  assumes "channel_ok (m_transport cl)" and "mcs_send_channel_join_request cl c = Some (True, cl')"
  shows "\<exists>bs. net_sent (t_net (m_transport cl')) = net_sent (t_net (m_transport cl)) @ bs
    \<and> map_option fst (mcs_recv_channel_join_request sv (stm [] bs (int (length bs))) old)
      = Some (if MCS_BASE_CHANNEL_ID \<le> m_user_id cl \<and> m_user_id cl = m_user_id sv then (True, c) else (False, old))"
proof -
  let ?b = "message_bytes (m_user_id cl) (Join_request c)"
  obtain b t' k where r: "mcs_send cl (Join_request c) = Some (b, cl\<lparr>m_transport := t',
        m_user_id := (if Join_request c = Attach_confirm then 1002 else m_user_id cl)\<rparr>)"
    and k: "b \<and> reports_failure (Join_request c) \<longrightarrow> channel_ok t' \<and> k = length ?b"
      "net_sent (t_net t') = net_sent (t_net (m_transport cl)) @ take k ?b"
    using mcs_send_any [OF assms(1), of "Join_request c"] by blast
  have "b" and t': "cl' = cl\<lparr>m_transport := t'\<rparr>" using r assms(2) by simp_all
  with k have "net_sent (t_net (m_transport cl')) = net_sent (t_net (m_transport cl)) @ ?b" by simp
  moreover have "map_option fst (mcs_recv_channel_join_request sv (stm [] ?b (int (length ?b))) old)
      = Some (if MCS_BASE_CHANNEL_ID \<le> m_user_id cl \<and> m_user_id cl = m_user_id sv then (True, c) else (False, old))"
    by (cases "MCS_BASE_CHANNEL_ID \<le> m_user_id cl"; cases "m_user_id cl = m_user_id sv")
      (simp_all add: mcs_recv_channel_join_request_def mcs_check_stm mcs_pdu_defs wire read_channel_id
        per_integer16_dec_def del: map_option_eq_Some)
  ultimately show ?thesis by blast
qed

lemma demo_join_sent:
  "\<exists>cl'. mcs_send_channel_join_request ((demo_mcs [Send_ok 100])\<lparr>m_user_id := 1002\<rparr>) 1004 = Some (True, cl')"
proof -
  let ?m = "(demo_mcs [Send_ok 100])\<lparr>m_user_id := 1002\<rparr>"
  let ?b = "message_bytes 1002 (Join_request 1004)"
  have ok: "channel_ok (m_transport ?m)" using demo_mcs_ok by simp
  obtain rst sz where i: "transport_send_stream_init (m_transport ?m) 12
      = Some (stm [] rst sz, (m_transport ?m)\<lparr>t_send_stream := stm [] rst sz\<rparr>)"
    and sz: "BUFFER_SIZE \<le> sz" "sz \<le> int (length rst)"
    using send_stream_init [OF ok, of 12] by auto
  let ?t = "(m_transport ?m)\<lparr>t_send_stream := stm [] rst sz\<rparr>"
  have l: "length ?b = 12" by simp
  have e: "emit ?b (stm [] rst sz) = Some (stm ?b (drop 12 rst) sz)"
    using sz l by (simp add: emit_stm BUFFER_SIZE_def)
  have t: "t_layer ?t = TRANSPORT_LAYER_TCP" "net_send (t_net ?t) = [Send_ok 100]"
    by (simp_all add: demo_mcs_def mcs_new_def)
  obtain s' t' where w: "transport_write ?t (stm ?b (drop 12 rst) sz) = Some (int (length ?b), s', t')"
    using write_at_once [OF t, of ?b "drop 12 rst" sz] l by auto
  have "mcs_transmit ?m 12 (emit ?b) = Some (12, ?m\<lparr>m_transport := t'\<lparr>t_send_stream := s'\<rparr>\<rparr>)"
    unfolding mcs_transmit_def using i e w l by simp
  then show ?thesis
    using mcs_send_transmits [of ?m "Join_request 1004"] l by simp
qed

theorem mcs_join_request_roundtrip_witness:
  "\<exists>cl' bs. mcs_send_channel_join_request ((demo_mcs [Send_ok 100])\<lparr>m_user_id := 1002\<rparr>) 1004 = Some (True, cl')
    \<and> net_sent (t_net (m_transport cl')) = bs
    \<and> map_option fst (mcs_recv_channel_join_request ((demo_mcs [])\<lparr>m_user_id := 1002\<rparr>) (stm [] bs (int (length bs))) 7)
      = Some (True, 1004)"
proof -
  let ?m = "(demo_mcs [Send_ok 100])\<lparr>m_user_id := 1002\<rparr>"
  obtain cl' where r: "mcs_send_channel_join_request ?m 1004 = Some (True, cl')"
    using demo_join_sent by blast
  have ok: "channel_ok (m_transport ?m)" using demo_mcs_ok by simp
  have n: "net_sent (t_net (m_transport ?m)) = []" by (simp add: demo_mcs_def mcs_new_def)
  from mcs_join_request_roundtrip [OF ok r, of "(demo_mcs [])\<lparr>m_user_id := 1002\<rparr>" 7] r
  show ?thesis unfolding n by (simp add: MCS_BASE_CHANNEL_ID_def)
qed



section \<open>Domain parameters\<close>

definition params_list :: "DomainParameters \<Rightarrow> u32 list" where
  "params_list d = [maxChannelIds d, maxUserIds d, maxTokenIds d, numPriorities d, minThroughput d,
     maxHeight d, maxMCSPDUsize d, protocolVersion d]"

definition params_enc :: "DomainParameters \<Rightarrow> u8 list" where
  "params_enc d = concat (map ber_integer_enc (params_list d))"

definition params_dec :: "DomainParameters \<Rightarrow> DomainParameters" where
  "params_dec d = \<lparr>maxChannelIds = ber_integer_dec (maxChannelIds d), maxUserIds = ber_integer_dec (maxUserIds d),
     maxTokenIds = ber_integer_dec (maxTokenIds d), numPriorities = ber_integer_dec (numPriorities d),
     minThroughput = ber_integer_dec (minThroughput d), maxHeight = ber_integer_dec (maxHeight d),
     maxMCSPDUsize = ber_integer_dec (maxMCSPDUsize d), protocolVersion = ber_integer_dec (protocolVersion d)\<rparr>"

lemma length_ber_integer_enc: "length (ber_integer_enc v) \<le> 6"
  by (simp add: ber_integer_enc_def)

lemma length_params_enc: "length (params_enc d) \<le> 48"
  using length_ber_integer_enc [of "maxChannelIds d"] length_ber_integer_enc [of "maxUserIds d"]
    length_ber_integer_enc [of "maxTokenIds d"] length_ber_integer_enc [of "numPriorities d"]
    length_ber_integer_enc [of "minThroughput d"] length_ber_integer_enc [of "maxHeight d"]
    length_ber_integer_enc [of "maxMCSPDUsize d"] length_ber_integer_enc [of "protocolVersion d"]
  by (simp add: params_enc_def params_list_def)

lemma mcs_write_params_emit:
  assumes "48 \<le> s_size s"
  shows "mcs_write_domain_parameters s d
    = emit (0x30 # ber_length_enc (int (length (params_enc d))) @ params_enc d) s"
proof -
  let ?e = "params_enc d"
  have new: "stream_new (s_size s) = stm [] (replicate (nat (s_size s)) 0) (s_size s)"
    using assms by (simp add: stream_new_def stm_def Let_def)
  have w: "emit ?e (stream_new (s_size s)) = Some (stm ?e (drop (length ?e) (replicate (nat (s_size s)) 0)) (s_size s))"
    unfolding new using assms length_params_enc [of d] by (simp add: emit_stm)
  have st: "stream_write s (?e @ r) (int (length ?e)) = emit ?e s" for s r
    by (simp add: wire)
  have "mcs_write_domain_parameters s d = Option.bind (emit ?e (stream_new (s_size s))) (\<lambda>tmps.
      Option.bind (ber_write_sequence_tag s (stream_get_length tmps)) (\<lambda>(_, s).
        stream_write s (s_data tmps) (stream_get_length tmps)))"
    unfolding mcs_write_domain_parameters_def params_enc_def params_list_def by (simp add: wire Let_def)
  also have "\<dots> = emit (0x30 # ber_length_enc (int (length ?e)) @ ?e) s"
    unfolding w by (simp add: ber_write_sequence_tag_emit stream_get_length_def st bind_emit)
  finally show ?thesis .
qed

lemma mcs_read_integer_stm:
  "mcs_read_integer (stm pre (ber_integer_enc v @ rst) sz) old junk
     = Some (ber_integer_dec v, stm (pre @ ber_integer_enc v) rst sz)"
  by (simp add: mcs_read_integer_def ber_integer.rd_stm)

lemma mcs_read_params_stm:
  "mcs_read_domain_parameters junk (stm pre (0x30 # ber_length_enc (int (length (params_enc d))) @ params_enc d @ rst) sz) old
     = Some ((True, params_dec d), stm (pre @ 0x30 # ber_length_enc (int (length (params_enc d))) @ params_enc d) rst sz)"
proof -
  let ?n = "int (length (params_enc d))"
  have n: "0 \<le> ?n" "?n \<le> 0xFFFF" using length_params_enc [of d] by simp_all
  show ?thesis
    unfolding mcs_read_domain_parameters_def ber_read_sequence_tag_stm [OF n]
    by (simp add: params_enc_def params_list_def mcs_read_integer_stm params_dec_def)
qed


lemma params_dec_small:
  assumes "\<forall>v \<in> set (params_list d). v < 0xFF8000"
  shows "params_dec d = d"
  using assms by (cases d) (simp add: params_list_def params_dec_def ber_integer_dec_def)

text \<open>
  C35: domain parameters survive the wire. Written to a stream of at least 48 bytes with room for
  them and read back, with whatever the uninitialised length variables hold, they are the
  parameters written, provided every value is below \<open>0xFF8000\<close>; larger values come back with their
  halves exchanged.
\<close>

theorem mcs_domain_parameters_roundtrip:
  assumes "48 \<le> s_size s" and "stream_ok s" and "mcs_write_domain_parameters s d = Some s'"
    and "\<forall>v \<in> set (params_list d). v < 0xFF8000"
  shows "mcs_read_domain_parameters junk (stream_set_pos s' (stream_get_pos s)) old = Some ((True, d), s')"
proof -
  let ?e = "0x30 # ber_length_enc (int (length (params_enc d))) @ params_enc d"
  obtain pre rst sz where s: "s = stm pre rst sz" using assms(2) by (rule stream_ok_cases)
  have s': "s' = stm (pre @ ?e) (drop (length ?e) rst) sz"
    using assms(1,3) unfolding s by (auto simp: mcs_write_params_emit emit_stm split: if_splits)
  have "stream_set_pos s' (stream_get_pos s) = stm pre (?e @ drop (length ?e) rst) sz"
    unfolding s s' by (simp add: stream_get_pos_def stream_set_pos_stm del: append_Cons)
  then show ?thesis
    using mcs_read_params_stm [of junk pre d "drop (length ?e) rst" sz old] s'
    by (simp add: params_dec_small [OF assms(4)])
qed

theorem mcs_domain_parameters_roundtrip_witness:
  "\<exists>s'. mcs_write_domain_parameters (stm [] (replicate 64 0) 64) (mcs_init_domain_parameters 34 2 0 0xFFFF) = Some s'
    \<and> mcs_read_domain_parameters (\<lambda>i. 7) (stream_set_pos s' 0) (mcs_init_domain_parameters 0 0 0 0) = Some ((True, mcs_init_domain_parameters 34 2 0 0xFFFF), s')"
proof -
  let ?d = "mcs_init_domain_parameters 34 2 0 0xFFFF" and ?s = "stm [] (replicate 64 0) 64"
  have sz: "48 \<le> s_size ?s" by simp
  have l: "length (0x30 # ber_length_enc (int (length (params_enc ?d))) @ params_enc ?d) \<le> 64"
    by (simp add: params_enc_def params_list_def mcs_init_domain_parameters_def ber_integer_enc_def ber_length_enc_def)
  have v: "\<forall>v \<in> set (params_list ?d). v < 0xFF8000"
    by (simp add: params_list_def mcs_init_domain_parameters_def)
  obtain s' where w: "mcs_write_domain_parameters ?s ?d = Some s'"
    using l unfolding mcs_write_params_emit [OF sz] by (simp add: emit_stm)
  show ?thesis
    using mcs_domain_parameters_roundtrip [OF sz stream_ok_stm w v, of "\<lambda>i. 7" "mcs_init_domain_parameters 0 0 0 0"] w
    by (intro exI [of _ s']) (simp add: stream_get_pos_def)
qed

end
