(* ===== verification/Graphics.thy ===== *)
theory Graphics
  imports Prelude
begin

text \<open>
  The drawing objects of \<^verbatim>\<open>libfreerdp-core/graphics.c\<close>: bitmaps, pointers and glyphs. The objects
  live in heaps from addresses to records, one heap per class, and an access to an address that is
  not live is a fault (\<^term>\<open>None\<close>). An object carries the function pointers of its class: those
  \<open>graphics_new\<close> installs, or those of a registered backend. A call into the backend is recorded in
  the list of events with its arguments. Other memory blocks are in a heap of their own, and freeing
  one that is not live is a fault too. Allocation always succeeds.
\<close>

section \<open>Objects\<close>

datatype gfx_class = Class_default | Class_backend

record rdpBitmap =
  bm_class :: gfx_class
  bm_left :: u32
  bm_top :: u32
  bm_right :: u32
  bm_bottom :: u32
  bm_width :: u32
  bm_height :: u32
  bm_bpp :: u32
  bm_flags :: u32
  bm_length :: u32
  bm_data :: "nat option"
  bm_compressed :: tbool
  bm_ephemeral :: tbool
  bm_is_flipped :: tbool

record rdpPointer =
  pt_class :: gfx_class
  pt_xPos :: u32
  pt_yPos :: u32
  pt_width :: u32
  pt_height :: u32
  pt_xorBpp :: u32
  pt_lengthAndMask :: u32
  pt_lengthXorMask :: u32
  pt_xorMaskData :: "nat option"
  pt_andMaskData :: "nat option"

record rdpGlyph =
  gl_class :: gfx_class
  gl_x :: int
  gl_y :: int
  gl_cx :: u32
  gl_cy :: u32
  gl_cb :: u32
  gl_aj :: "nat option"

datatype gfx_event =
    Ev_Bitmap_New nat
  | Ev_Bitmap_Free nat
  | Ev_Bitmap_Paint nat
  | Ev_Bitmap_Decompress nat "u8 list" u32 u32 u32 u32 tbool u32
  | Ev_SetSurface "nat option" tbool
  | Ev_Pointer_New nat
  | Ev_Pointer_Free nat
  | Ev_Pointer_Set nat
  | Ev_Glyph_New nat
  | Ev_Glyph_Free nat
  | Ev_Glyph_Draw nat int int
  | Ev_Glyph_BeginDraw int int int int u32 u32
  | Ev_Glyph_EndDraw int int int int u32 u32
  | Ev_MemBlt "nat option"
  | Ev_Mem3Blt "nat option"
  | Ev_PatBlt "nat option" u32 u32

text \<open>The prototypes and the heaps of a context. Addresses are never used twice.\<close>

record rdpContext =
  cx_Bitmap_Prototype :: rdpBitmap
  cx_Pointer_Prototype :: rdpPointer
  cx_Glyph_Prototype :: rdpGlyph
  cx_bitmaps :: "nat \<rightharpoonup> rdpBitmap"
  cx_pointers :: "nat \<rightharpoonup> rdpPointer"
  cx_glyphs :: "nat \<rightharpoonup> rdpGlyph"
  cx_blocks :: "nat \<rightharpoonup> u8 list"
  cx_next :: nat
  cx_events :: "gfx_event list"

definition cx_emit :: "gfx_event \<Rightarrow> rdpContext \<Rightarrow> rdpContext" where
  "cx_emit e c = c\<lparr>cx_events := cx_events c @ [e]\<rparr>"

definition xmalloc_block :: "rdpContext \<Rightarrow> u8 list \<Rightarrow> nat \<times> rdpContext" where
  "xmalloc_block c bs = (cx_next c,
     c\<lparr>cx_blocks := (cx_blocks c)(cx_next c \<mapsto> bs), cx_next := Suc (cx_next c)\<rparr>)"

definition xfree :: "rdpContext \<Rightarrow> nat option \<Rightarrow> rdpContext option" where
  "xfree c p = (case p of
     None \<Rightarrow> Some c
   | Some a \<Rightarrow> (case cx_blocks c a of None \<Rightarrow> None | Some _ \<Rightarrow> Some (c\<lparr>cx_blocks := (cx_blocks c)(a := None)\<rparr>)))"

definition bitmap_zero :: rdpBitmap where
  "bitmap_zero = \<lparr>bm_class = Class_default, bm_left = 0, bm_top = 0, bm_right = 0, bm_bottom = 0, bm_width = 0,
     bm_height = 0, bm_bpp = 0, bm_flags = 0, bm_length = 0, bm_data = None, bm_compressed = False, bm_ephemeral = False,
     bm_is_flipped = False\<rparr>"

definition pointer_zero :: rdpPointer where
  "pointer_zero = \<lparr>pt_class = Class_default, pt_xPos = 0, pt_yPos = 0, pt_width = 0, pt_height = 0, pt_xorBpp = 0,
     pt_lengthAndMask = 0, pt_lengthXorMask = 0, pt_xorMaskData = None, pt_andMaskData = None\<rparr>"

definition glyph_zero :: rdpGlyph where
  "glyph_zero = \<lparr>gl_class = Class_default, gl_x = 0, gl_y = 0, gl_cx = 0, gl_cy = 0, gl_cb = 0, gl_aj = None\<rparr>"

text \<open>\<open>graphics_new\<close>: zeroed prototypes whose function pointers are the functions of this file.\<close>

definition graphics_new :: rdpContext where
  "graphics_new = \<lparr>cx_Bitmap_Prototype = bitmap_zero, cx_Pointer_Prototype = pointer_zero,
     cx_Glyph_Prototype = glyph_zero, cx_bitmaps = Map.empty, cx_pointers = Map.empty, cx_glyphs = Map.empty, cx_blocks = Map.empty,
     cx_next = 0, cx_events = []\<rparr>"

definition graphics_register_bitmap :: "rdpContext \<Rightarrow> rdpBitmap \<Rightarrow> rdpContext" where
  "graphics_register_bitmap c bitmap = c\<lparr>cx_Bitmap_Prototype := bitmap\<rparr>"

definition graphics_register_pointer :: "rdpContext \<Rightarrow> rdpPointer \<Rightarrow> rdpContext" where
  "graphics_register_pointer c pointer = c\<lparr>cx_Pointer_Prototype := pointer\<rparr>"

definition graphics_register_glyph :: "rdpContext \<Rightarrow> rdpGlyph \<Rightarrow> rdpContext" where
  "graphics_register_glyph c glyph = c\<lparr>cx_Glyph_Prototype := glyph\<rparr>"

section \<open>Bitmaps\<close>

definition Bitmap_Alloc :: "rdpContext \<Rightarrow> nat \<times> rdpContext" where
  "Bitmap_Alloc c = (cx_next c,
     c\<lparr>cx_bitmaps := (cx_bitmaps c)(cx_next c \<mapsto> (cx_Bitmap_Prototype c)\<lparr>bm_data := None\<rparr>),
       cx_next := Suc (cx_next c)\<rparr>)"

definition Bitmap_get :: "rdpContext \<Rightarrow> nat \<Rightarrow> rdpBitmap option" where
  "Bitmap_get c a = cx_bitmaps c a"

definition Bitmap_update :: "rdpContext \<Rightarrow> nat \<Rightarrow> (rdpBitmap \<Rightarrow> rdpBitmap) \<Rightarrow> rdpContext option" where
  "Bitmap_update c a f = do {
     b \<leftarrow> cx_bitmaps c a;
     Some (c\<lparr>cx_bitmaps := (cx_bitmaps c)(a \<mapsto> f b)\<rparr>) }"

definition Bitmap_SetRectangle :: "rdpContext \<Rightarrow> nat \<Rightarrow> u16 \<Rightarrow> u16 \<Rightarrow> u16 \<Rightarrow> u16 \<Rightarrow> rdpContext option" where
  "Bitmap_SetRectangle c a l t r b = Bitmap_update c a
     (\<lambda>bm. bm\<lparr>bm_left := ucast l, bm_top := ucast t, bm_right := ucast r, bm_bottom := ucast b\<rparr>)"

definition Bitmap_SetDimensions :: "rdpContext \<Rightarrow> nat \<Rightarrow> u16 \<Rightarrow> u16 \<Rightarrow> rdpContext option" where
  "Bitmap_SetDimensions c a width height = Bitmap_update c a
     (\<lambda>b. b\<lparr>bm_width := ucast width, bm_height := ucast height\<rparr>)"

definition Bitmap_SetSurface :: "rdpContext \<Rightarrow> nat option \<Rightarrow> tbool \<Rightarrow> rdpContext option" where
  "Bitmap_SetSurface c a primary = (case bm_class (cx_Bitmap_Prototype c) of
     Class_default \<Rightarrow> None
   | Class_backend \<Rightarrow> Some (cx_emit (Ev_SetSurface a primary) c))"

text \<open>
  The virtual calls. In the default class \<open>New\<close> is the empty function of this file, \<open>Free\<close> is
  \<open>Bitmap_Free\<close> itself and the others are null pointers.
\<close>

definition bitmap_New :: "rdpContext \<Rightarrow> nat \<Rightarrow> rdpContext option" where
  "bitmap_New c a = do {
     b \<leftarrow> cx_bitmaps c a;
     (case bm_class b of Class_default \<Rightarrow> Some c | Class_backend \<Rightarrow> Some (cx_emit (Ev_Bitmap_New a) c)) }"

definition bitmap_backend_call :: "rdpContext \<Rightarrow> nat \<Rightarrow> gfx_event \<Rightarrow> rdpContext option" where
  "bitmap_backend_call c a e = do {
     b \<leftarrow> cx_bitmaps c a;
     (case bm_class b of Class_default \<Rightarrow> None | Class_backend \<Rightarrow> Some (cx_emit e c)) }"

definition bitmap_release :: "rdpContext \<Rightarrow> nat \<Rightarrow> rdpContext option" where
  "bitmap_release c a = do {
     b \<leftarrow> cx_bitmaps c a;
     c \<leftarrow> xfree c (bm_data b);
     Some (c\<lparr>cx_bitmaps := (cx_bitmaps c)(a := None)\<rparr>) }"

partial_function (option) Bitmap_Free :: "rdpContext \<Rightarrow> nat option \<Rightarrow> rdpContext option" where
  "Bitmap_Free c p = (case p of
     None \<Rightarrow> Some c
   | Some a \<Rightarrow> Option.bind (cx_bitmaps c a) (\<lambda>b.
       case bm_class b of
         Class_default \<Rightarrow> Option.bind (Bitmap_Free c (Some a)) (\<lambda>c. bitmap_release c a)
       | Class_backend \<Rightarrow> bitmap_release (cx_emit (Ev_Bitmap_Free a) c) a))"

section \<open>Pointers\<close>

definition Pointer_Alloc :: "rdpContext \<Rightarrow> nat \<times> rdpContext" where
  "Pointer_Alloc c = (cx_next c,
     c\<lparr>cx_pointers := (cx_pointers c)(cx_next c \<mapsto> cx_Pointer_Prototype c), cx_next := Suc (cx_next c)\<rparr>)"

definition Pointer_update :: "rdpContext \<Rightarrow> nat \<Rightarrow> (rdpPointer \<Rightarrow> rdpPointer) \<Rightarrow> rdpContext option" where
  "Pointer_update c a f = do {
     p \<leftarrow> cx_pointers c a;
     Some (c\<lparr>cx_pointers := (cx_pointers c)(a \<mapsto> f p)\<rparr>) }"

definition pointer_New :: "rdpContext \<Rightarrow> nat \<Rightarrow> rdpContext option" where
  "pointer_New c a = do {
     p \<leftarrow> cx_pointers c a;
     (case pt_class p of Class_default \<Rightarrow> Some c | Class_backend \<Rightarrow> Some (cx_emit (Ev_Pointer_New a) c)) }"

definition pointer_release :: "rdpContext \<Rightarrow> nat \<Rightarrow> rdpContext option" where
  "pointer_release c a = do {
     p \<leftarrow> cx_pointers c a;
     c \<leftarrow> xfree c (pt_xorMaskData p);
     c \<leftarrow> xfree c (pt_andMaskData p);
     Some (c\<lparr>cx_pointers := (cx_pointers c)(a := None)\<rparr>) }"

partial_function (option) Pointer_Free :: "rdpContext \<Rightarrow> nat option \<Rightarrow> rdpContext option" where
  "Pointer_Free c q = (case q of
     None \<Rightarrow> Some c
   | Some a \<Rightarrow> Option.bind (cx_pointers c a) (\<lambda>p.
       case pt_class p of
         Class_default \<Rightarrow> Option.bind (Pointer_Free c (Some a)) (\<lambda>c. pointer_release c a)
       | Class_backend \<Rightarrow> pointer_release (cx_emit (Ev_Pointer_Free a) c) a))"

definition Pointer_Set :: "rdpContext \<Rightarrow> nat \<Rightarrow> rdpContext option" where
  "Pointer_Set c a = (case pt_class (cx_Pointer_Prototype c) of
     Class_default \<Rightarrow> None
   | Class_backend \<Rightarrow> Some (cx_emit (Ev_Pointer_Set a) c))"

section \<open>Glyphs\<close>

definition Glyph_Alloc :: "rdpContext \<Rightarrow> nat \<times> rdpContext" where
  "Glyph_Alloc c = (cx_next c,
     c\<lparr>cx_glyphs := (cx_glyphs c)(cx_next c \<mapsto> cx_Glyph_Prototype c), cx_next := Suc (cx_next c)\<rparr>)"

definition Glyph_update :: "rdpContext \<Rightarrow> nat \<Rightarrow> (rdpGlyph \<Rightarrow> rdpGlyph) \<Rightarrow> rdpContext option" where
  "Glyph_update c a f = do {
     g \<leftarrow> cx_glyphs c a;
     Some (c\<lparr>cx_glyphs := (cx_glyphs c)(a \<mapsto> f g)\<rparr>) }"

text \<open>In the default class \<open>New\<close> and \<open>Free\<close> are these functions again.\<close>

partial_function (option) Glyph_New :: "rdpContext \<Rightarrow> nat \<Rightarrow> rdpContext option" where
  "Glyph_New c a = (case gl_class (cx_Glyph_Prototype c) of
     Class_default \<Rightarrow> Glyph_New c a
   | Class_backend \<Rightarrow> Some (cx_emit (Ev_Glyph_New a) c))"

partial_function (option) Glyph_Free :: "rdpContext \<Rightarrow> nat \<Rightarrow> rdpContext option" where
  "Glyph_Free c a = (case gl_class (cx_Glyph_Prototype c) of
     Class_default \<Rightarrow> Glyph_Free c a
   | Class_backend \<Rightarrow> Some (cx_emit (Ev_Glyph_Free a) c))"

definition Glyph_backend_call :: "rdpContext \<Rightarrow> gfx_event \<Rightarrow> rdpContext option" where
  "Glyph_backend_call c e = (case gl_class (cx_Glyph_Prototype c) of Class_default \<Rightarrow> None | Class_backend \<Rightarrow> Some (cx_emit e c))"

definition Glyph_Draw :: "rdpContext \<Rightarrow> nat \<Rightarrow> int \<Rightarrow> int \<Rightarrow> rdpContext option" where
  "Glyph_Draw c a x y = Glyph_backend_call c (Ev_Glyph_Draw a x y)"

definition Glyph_BeginDraw :: "rdpContext \<Rightarrow> int \<Rightarrow> int \<Rightarrow> int \<Rightarrow> int \<Rightarrow> u32 \<Rightarrow> u32 \<Rightarrow> rdpContext option" where
  "Glyph_BeginDraw c x y width height bgcolor fgcolor =
     Glyph_backend_call c (Ev_Glyph_BeginDraw x y width height bgcolor fgcolor)"

definition Glyph_EndDraw :: "rdpContext \<Rightarrow> int \<Rightarrow> int \<Rightarrow> int \<Rightarrow> int \<Rightarrow> u32 \<Rightarrow> u32 \<Rightarrow> rdpContext option" where
  "Glyph_EndDraw c x y width height bgcolor fgcolor =
     Glyph_backend_call c (Ev_Glyph_EndDraw x y width height bgcolor fgcolor)"

end
