(* ===== verification/Cache_Slots.thy ===== *)
theory Cache_Slots
  imports Graphics
begin

text \<open>
  What the caches of \<^verbatim>\<open>libfreerdp-cache\<close> share: arrays of slots accessed by index, and ownership of
  the objects in them. An access outside the array is a fault.
\<close>

section \<open>Slots\<close>

definition slot_at :: "'a list \<Rightarrow> u32 \<Rightarrow> 'a option" where
  "slot_at es i = (if unat i < length es then Some (es ! unat i) else None)"

definition slot_set :: "'a list \<Rightarrow> u32 \<Rightarrow> 'a \<Rightarrow> 'a list option" where
  "slot_set es i x = (if unat i < length es then Some (es[unat i := x]) else None)"

lemma slot_at_set:
  "slot_set es i x = Some es' \<Longrightarrow> slot_at es' j = (if j = i then Some x else slot_at es j)"
  by (auto simp: slot_set_def slot_at_def nth_list_update word_unat_eq_iff split: if_splits)

text \<open>
  The contract of a bounded cache: a size, a view of its content as a function, a lookup that is
  total and answers \<open>NULL\<close> outside the size, and an insertion that changes one slot and nothing
  outside the size.
\<close>

locale bounded_cache =
  fixes csize :: "'c \<Rightarrow> u32"
    and view :: "'c \<Rightarrow> u32 \<Rightarrow> 'e option"
    and get :: "'c \<Rightarrow> u32 \<Rightarrow> 'e option option"
    and put :: "'h \<Rightarrow> 'c \<Rightarrow> u32 \<Rightarrow> 'e option \<Rightarrow> ('h \<times> 'c) option"
    and inv :: "'h \<Rightarrow> 'c \<Rightarrow> bool"
  assumes get_view: "inv h c \<Longrightarrow> get c i = Some (if i < csize c then view c i else None)"
    and put_view: "inv h c \<Longrightarrow> put h c i e = Some (h', c') \<Longrightarrow>
      csize c' = csize c \<and> view c' = (if i < csize c then (view c)(i := e) else view c)"
begin

lemma get_put:
  assumes "inv h c" and "put h c i e = Some (h', c')" and "inv h'' c'"
  shows "get c' j = (if j = i \<and> i < csize c then Some e else get c j)"
  using put_view [OF assms(1,2)] get_view [OF assms(1)] get_view [OF assms(3)] by auto

end

section \<open>Ownership\<close>

definition owned :: "nat option list \<Rightarrow> nat list" where
  "owned es = List.map_filter id es"

lemma owned_simps [simp]:
  "owned [] = []" "owned (None # es) = owned es" "owned (Some a # es) = a # owned es"
  "owned (es @ fs) = owned es @ owned fs"
  by (simp_all add: owned_def map_filter_def)

lemma owned_replicate [simp]: "owned (replicate n None) = []"
  by (induction n) simp_all

lemma owned_split:
  "i < length es \<Longrightarrow> owned es = owned (take i es) @ owned [es ! i] @ owned (drop (Suc i) es)"
  by (metis append_Cons append_Nil id_take_nth_drop owned_simps(4))

lemma owned_update:
  "i < length es \<Longrightarrow> owned (es[i := e]) = owned (take i es) @ owned [e] @ owned (drop (Suc i) es)"
  by (metis append_Cons append_Nil owned_simps(4) upd_conv_take_nth_drop)

definition owns :: "nat set \<Rightarrow> nat option list \<Rightarrow> bool" where
  "owns L es \<longleftrightarrow> distinct (owned es) \<and> set (owned es) \<subseteq> L"

lemma owns_empty: "owns L (replicate n None)"
  by (simp add: owns_def)

lemma owns_mono: "owns L es \<Longrightarrow> L \<subseteq> L' \<Longrightarrow> owns L' es"
  by (auto simp: owns_def)

lemma owns_fill:
  assumes "owns L es" and "i < length es" and "es ! i = None" and "a \<in> L" and "a \<notin> set (owned es)"
  shows "owns L (es[i := Some a])"
  using assms by (auto simp: owns_def owned_split owned_update)

text \<open>
  A heap of objects and the function that frees one. In a table that owns its objects, all of them
  are live and no two slots hold the same one; freeing and refilling slots keeps that.
\<close>

locale object_heap =
  fixes live :: "'h \<Rightarrow> nat set"
    and release :: "'h \<Rightarrow> nat option \<Rightarrow> 'h option"
  assumes release_null: "release h None = Some h"
    and release_live: "a \<in> live h \<Longrightarrow> \<exists>h'. release h (Some a) = Some h' \<and> live h' = live h - {a}"
begin

lemma release_slot:
  assumes "owns (live h) es" and "i < length es"
  shows "\<exists>h'. release h (es ! i) = Some h' \<and> owns (live h') (es[i := None])
    \<and> live h' = live h - set (owned [es ! i])"
proof (cases "es ! i")
  case None
  with assms show ?thesis by (simp add: release_null owns_def owned_split owned_update)
next
  case (Some a)
  with assms have "a \<in> live h" by (auto simp: owns_def owned_split)
  then obtain h' where "release h (Some a) = Some h'" "live h' = live h - {a}"
    using release_live by blast
  with Some assms show ?thesis by (auto simp: owns_def owned_split owned_update)
qed

end

definition block_live :: "rdpContext \<Rightarrow> nat set" where
  "block_live c = {a. cx_blocks c a \<noteq> None}"

interpretation blocks: object_heap block_live xfree
  by unfold_locales (auto simp: block_live_def xfree_def split: option.split)

text \<open>Bitmaps of a registered backend that has not attached data of its own.\<close>

definition bitmap_live :: "rdpContext \<Rightarrow> nat set" where
  "bitmap_live c = {a. \<exists>b. cx_bitmaps c a = Some b \<and> bm_class b = Class_backend \<and> bm_data b = None}"

lemma Bitmap_Free_backend:
  assumes "a \<in> bitmap_live c"
  shows "Bitmap_Free c (Some a)
    = Some (c\<lparr>cx_events := cx_events c @ [Ev_Bitmap_Free a], cx_bitmaps := (cx_bitmaps c)(a := None)\<rparr>)"
  using assms
  by (subst Bitmap_Free.simps) (auto simp: bitmap_live_def bitmap_release_def cx_emit_def xfree_def)

lemma Bitmap_Free_null [simp]: "Bitmap_Free c None = Some c"
  by (subst Bitmap_Free.simps) simp

interpretation bitmaps: object_heap bitmap_live Bitmap_Free
  by unfold_locales (auto simp: Bitmap_Free_backend, auto simp: bitmap_live_def split: if_splits)

end
