(* ===== verification/Offscreen_Cache.thy ===== *)
theory Offscreen_Cache
  imports Cache_Slots
begin

text \<open>
  Offscreen bitmaps: \<^verbatim>\<open>libfreerdp-cache/offscreen.c\<close>. The orders of the server create bitmaps in the
  slots of the cache, delete others, and select the surface that drawing goes to.
\<close>

section \<open>Operations\<close>

definition SCREEN_BITMAP_SURFACE :: u32 where "SCREEN_BITMAP_SURFACE = 0xFFFF"

record rdpOffscreenCache =
  of_maxSize :: u32
  of_maxEntries :: u32
  of_entries :: "nat option list"
  of_currentSurface :: u32

record CREATE_OFFSCREEN_BITMAP_ORDER =
  cb_id :: u32
  cb_cx :: u32
  cb_cy :: u32
  cb_deleteList :: "u16 list"

definition offscreen_cache_new :: rdpOffscreenCache where
  "offscreen_cache_new = \<lparr>of_maxSize = 7680, of_maxEntries = 2000, of_entries = replicate 2000 None,
     of_currentSurface = SCREEN_BITMAP_SURFACE\<rparr>"

definition offscreen_cache_get :: "rdpOffscreenCache \<Rightarrow> u32 \<Rightarrow> nat option option" where
  "offscreen_cache_get oc index = (if index \<ge> of_maxEntries oc then Some None else slot_at (of_entries oc) index)"

definition offscreen_cache_delete ::
  "rdpContext \<Rightarrow> rdpOffscreenCache \<Rightarrow> u32 \<Rightarrow> (rdpContext \<times> rdpOffscreenCache) option" where
  "offscreen_cache_delete c oc index =
     (if index \<ge> of_maxEntries oc then Some (c, oc)
      else do {
        prevBitmap \<leftarrow> slot_at (of_entries oc) index;
        c \<leftarrow> Bitmap_Free c prevBitmap;
        es \<leftarrow> slot_set (of_entries oc) index None;
        Some (c, oc\<lparr>of_entries := es\<rparr>) })"

definition offscreen_cache_put ::
  "rdpContext \<Rightarrow> rdpOffscreenCache \<Rightarrow> u32 \<Rightarrow> nat option \<Rightarrow> (rdpContext \<times> rdpOffscreenCache) option" where
  "offscreen_cache_put c oc index bitmap =
     (if index \<ge> of_maxEntries oc then Some (c, oc)
      else do {
        (c, oc) \<leftarrow> offscreen_cache_delete c oc index;
        es \<leftarrow> slot_set (of_entries oc) index bitmap;
        Some (c, oc\<lparr>of_entries := es\<rparr>) })"

fun offscreen_delete_list ::
  "rdpContext \<Rightarrow> rdpOffscreenCache \<Rightarrow> u16 list \<Rightarrow> (rdpContext \<times> rdpOffscreenCache) option" where
  "offscreen_delete_list c oc [] = Some (c, oc)"
| "offscreen_delete_list c oc (index # is) = do {
     (c, oc) \<leftarrow> offscreen_cache_delete c oc (ucast index);
     offscreen_delete_list c oc is }"

definition update_gdi_create_offscreen_bitmap ::
  "rdpContext \<Rightarrow> rdpOffscreenCache \<Rightarrow> CREATE_OFFSCREEN_BITMAP_ORDER \<Rightarrow> (rdpContext \<times> rdpOffscreenCache) option" where
  "update_gdi_create_offscreen_bitmap c oc order = do {
     let (bitmap, c) = Bitmap_Alloc c;
     c \<leftarrow> Bitmap_update c bitmap (\<lambda>b. b\<lparr>bm_width := cb_cx order, bm_height := cb_cy order\<rparr>);
     c \<leftarrow> bitmap_New c bitmap;
     (c, oc) \<leftarrow> offscreen_cache_delete c oc (cb_id order);
     (c, oc) \<leftarrow> offscreen_cache_put c oc (cb_id order) (Some bitmap);
     c \<leftarrow> (if of_currentSurface oc = cb_id order then Bitmap_SetSurface c (Some bitmap) False else Some c);
     offscreen_delete_list c oc (cb_deleteList order) }"

definition update_gdi_switch_surface ::
  "rdpContext \<Rightarrow> rdpOffscreenCache \<Rightarrow> u32 \<Rightarrow> (rdpContext \<times> rdpOffscreenCache) option" where
  "update_gdi_switch_surface c oc bitmapId = do {
     c \<leftarrow> (if bitmapId = SCREEN_BITMAP_SURFACE then Bitmap_SetSurface c None True
          else do {
            bitmap \<leftarrow> offscreen_cache_get oc bitmapId;
            Bitmap_SetSurface c bitmap False });
     Some (c, oc\<lparr>of_currentSurface := bitmapId\<rparr>) }"

fun offscreen_free_list :: "rdpContext \<Rightarrow> nat option list \<Rightarrow> rdpContext option" where
  "offscreen_free_list c [] = Some c"
| "offscreen_free_list c (e # es) = do { c \<leftarrow> Bitmap_Free c e; offscreen_free_list c es }"

definition offscreen_cache_free :: "rdpContext \<Rightarrow> rdpOffscreenCache \<Rightarrow> rdpContext option" where
  "offscreen_cache_free c oc = offscreen_free_list c (take (unat (of_maxEntries oc)) (of_entries oc))"

section \<open>Invariant\<close>

text \<open>The array has the size the cache records, and it owns its bitmaps.\<close>

definition offscreen_inv :: "rdpContext \<Rightarrow> rdpOffscreenCache \<Rightarrow> bool" where
  "offscreen_inv c oc \<longleftrightarrow> length (of_entries oc) = unat (of_maxEntries oc)
    \<and> owns (bitmap_live c) (of_entries oc)
    \<and> bm_class (cx_Bitmap_Prototype c) = Class_backend \<and> (\<forall>a \<in> bitmap_live c. a < cx_next c)"

definition offscreen_view :: "rdpOffscreenCache \<Rightarrow> u32 \<Rightarrow> nat option" where
  "offscreen_view oc i = of_entries oc ! unat i"

lemma slot_at_inside: "length es = unat n \<Longrightarrow> i < n \<Longrightarrow> slot_at es i = Some (es ! unat i)"
  by (simp add: slot_at_def word_less_nat_alt)

lemma slot_set_inside: "length es = unat n \<Longrightarrow> i < n \<Longrightarrow> slot_set es i x = Some (es[unat i := x])"
  by (simp add: slot_set_def word_less_nat_alt)

lemma offscreen_get_view:
  "offscreen_inv c oc \<Longrightarrow> offscreen_cache_get oc i = Some (if i < of_maxEntries oc then offscreen_view oc i else None)"
  by (auto simp: offscreen_cache_get_def offscreen_inv_def offscreen_view_def slot_at_inside)

text \<open>Deleting and putting return, keep the invariant and change one slot.\<close>

lemma offscreen_delete_inv:
  assumes "offscreen_inv c oc"
  shows "\<exists>c' oc'. offscreen_cache_delete c oc i = Some (c', oc') \<and> offscreen_inv c' oc'
    \<and> oc' = oc\<lparr>of_entries := (if i < of_maxEntries oc then (of_entries oc)[unat i := None] else of_entries oc)\<rparr>
    \<and> cx_next c' = cx_next c \<and> bitmap_live c' \<subseteq> bitmap_live c
    \<and> (\<forall>a \<in> bitmap_live c. a \<notin> set (owned (of_entries oc)) \<longrightarrow> a \<in> bitmap_live c')"
proof (cases "i < of_maxEntries oc")
  case False
  then show ?thesis using assms by (simp add: offscreen_cache_delete_def not_less)
next
  case True
  let ?es = "of_entries oc"
  have len: "length ?es = unat (of_maxEntries oc)" and own: "owns (bitmap_live c) ?es"
    using assms by (simp_all add: offscreen_inv_def)
  have i: "unat i < length ?es" using True len by (simp add: word_less_nat_alt)
  obtain c' where f: "Bitmap_Free c (?es ! unat i) = Some c'" and o: "owns (bitmap_live c') (?es[unat i := None])"
    and l: "bitmap_live c' = bitmap_live c - set (owned [?es ! unat i])"
    using bitmaps.release_slot [OF own i] by blast
  have "cx_Bitmap_Prototype c' = cx_Bitmap_Prototype c \<and> cx_next c' = cx_next c"
  proof (cases "?es ! unat i")
    case (Some a)
    then have "a \<in> bitmap_live c" using own i by (auto simp: owns_def owned_split)
    with f Some show ?thesis by (auto simp: Bitmap_Free_backend)
  qed (use f in simp)
  then have proto: "cx_Bitmap_Prototype c' = cx_Bitmap_Prototype c" "cx_next c' = cx_next c" by simp_all
  have d: "offscreen_cache_delete c oc i = Some (c', oc\<lparr>of_entries := ?es[unat i := None]\<rparr>)"
    using True by (simp add: offscreen_cache_delete_def slot_at_inside [OF len] slot_set_inside [OF len] f)
  have "offscreen_inv c' (oc\<lparr>of_entries := ?es[unat i := None]\<rparr>)"
    using assms o l proto by (simp add: offscreen_inv_def)
  moreover have "\<forall>a \<in> bitmap_live c. a \<notin> set (owned ?es) \<longrightarrow> a \<in> bitmap_live c'"
    using l i by (auto simp: owned_split [OF i])
  ultimately show ?thesis using d l proto True
    by (intro exI [of _ c'] exI [of _ "oc\<lparr>of_entries := ?es[unat i := None]\<rparr>"]) simp
qed

lemma offscreen_put_inv:
  assumes "offscreen_inv c oc" and "a \<in> bitmap_live c" and "a \<notin> set (owned (of_entries oc))"
  shows "\<exists>c' oc'. offscreen_cache_put c oc i (Some a) = Some (c', oc') \<and> offscreen_inv c' oc'
    \<and> oc' = oc\<lparr>of_entries := (if i < of_maxEntries oc then (of_entries oc)[unat i := Some a] else of_entries oc)\<rparr>
    \<and> cx_next c' = cx_next c"
proof (cases "i < of_maxEntries oc")
  case False
  then show ?thesis using assms by (simp add: offscreen_cache_put_def not_less)
next
  case True
  obtain c' where d: "offscreen_cache_delete c oc i = Some (c', oc\<lparr>of_entries := (of_entries oc)[unat i := None]\<rparr>)"
    and inv: "offscreen_inv c' (oc\<lparr>of_entries := (of_entries oc)[unat i := None]\<rparr>)"
    and n: "cx_next c' = cx_next c"
    and keep: "\<forall>a \<in> bitmap_live c. a \<notin> set (owned (of_entries oc)) \<longrightarrow> a \<in> bitmap_live c'"
    using offscreen_delete_inv [OF assms(1), of i] True by (simp only: if_True) blast
  let ?es = "(of_entries oc)[unat i := None]"
  have len: "length ?es = unat (of_maxEntries oc)" using assms(1) by (simp add: offscreen_inv_def)
  have i: "unat i < length (of_entries oc)" using True len by (simp add: word_less_nat_alt)
  have nin: "a \<notin> set (owned ?es)" using assms(3) i by (auto simp: owned_split [OF i] owned_update)
  have "owns (bitmap_live c') ?es" using inv by (simp add: offscreen_inv_def)
  then have "owns (bitmap_live c') (?es[unat i := Some a])"
    by (rule owns_fill) (use i nin keep assms in auto)
  then have "offscreen_inv c' (oc\<lparr>of_entries := (of_entries oc)[unat i := Some a]\<rparr>)"
    using inv by (simp add: offscreen_inv_def)
  moreover have "offscreen_cache_put c oc i (Some a) = Some (c', oc\<lparr>of_entries := (of_entries oc)[unat i := Some a]\<rparr>)"
    using True by (simp add: offscreen_cache_put_def d slot_set_inside [OF len])
  ultimately show ?thesis using True n
    by (intro exI [of _ c'] exI [of _ "oc\<lparr>of_entries := (of_entries oc)[unat i := Some a]\<rparr>"]) simp
qed

lemma offscreen_delete_list_inv:
  assumes "offscreen_inv c oc"
  shows "\<exists>c' oc'. offscreen_delete_list c oc is = Some (c', oc') \<and> offscreen_inv c' oc'
    \<and> of_maxEntries oc' = of_maxEntries oc \<and> of_currentSurface oc' = of_currentSurface oc"
  using assms
proof (induction "is" arbitrary: c oc)
  case (Cons i "is")
  obtain c' oc' where d: "offscreen_cache_delete c oc (ucast i) = Some (c', oc')" and inv: "offscreen_inv c' oc'"
    and s: "oc' = oc\<lparr>of_entries := (if (ucast i :: u32) < of_maxEntries oc then (of_entries oc)[unat (ucast i :: u32) := None]
        else of_entries oc)\<rparr>"
    using offscreen_delete_inv [OF Cons.prems, of "ucast i"] by blast
  have "of_maxEntries oc' = of_maxEntries oc" "of_currentSurface oc' = of_currentSurface oc"
    using s by simp_all
  with Cons.IH [OF inv] d show ?case by auto
qed auto

text \<open>A fresh bitmap is live, and no table holds it.\<close>

lemma Bitmap_Alloc_inv:
  assumes "offscreen_inv c oc" and "Bitmap_Alloc c = (a, c')"
  shows "offscreen_inv c' oc" and "a \<in> bitmap_live c'" and "a \<notin> set (owned (of_entries oc))"
proof -
  have a: "a = cx_next c" "c' = c\<lparr>cx_bitmaps := (cx_bitmaps c)(a \<mapsto> (cx_Bitmap_Prototype c)\<lparr>bm_data := None\<rparr>),
      cx_next := Suc (cx_next c)\<rparr>"
    using assms(2) by (auto simp: Bitmap_Alloc_def)
  have l: "bitmap_live c' = insert a (bitmap_live c)"
    using assms(1) unfolding a(2) by (auto simp: bitmap_live_def offscreen_inv_def)
  show "a \<in> bitmap_live c'" using l by simp
  show "a \<notin> set (owned (of_entries oc))"
    using assms(1) unfolding a(1) by (auto simp: offscreen_inv_def owns_def)
  have "owns (bitmap_live c') (of_entries oc)"
    using assms(1) l by (auto simp: offscreen_inv_def intro: owns_mono)
  then show "offscreen_inv c' oc"
    using assms(1) l a by (auto simp: offscreen_inv_def)
qed

lemma offscreen_inv_frame:
  assumes "offscreen_inv c oc" and "bitmap_live c' = bitmap_live c" and "cx_next c' = cx_next c"
    and "cx_Bitmap_Prototype c' = cx_Bitmap_Prototype c"
  shows "offscreen_inv c' oc"
  using assms by (simp add: offscreen_inv_def)

lemma bitmap_live_emit [simp]: "bitmap_live (cx_emit e c) = bitmap_live c"
  by (simp add: bitmap_live_def cx_emit_def)

lemma cx_emit_sel [simp]:
  "cx_next (cx_emit e c) = cx_next c" "cx_Bitmap_Prototype (cx_emit e c) = cx_Bitmap_Prototype c"
  "cx_bitmaps (cx_emit e c) = cx_bitmaps c"
  by (simp_all add: cx_emit_def)

lemma Bitmap_update_inv:
  assumes "offscreen_inv c oc" and "a \<in> bitmap_live c"
    and "\<And>b. bm_class (f b) = bm_class b" and "\<And>b. bm_data (f b) = bm_data b"
  shows "\<exists>c'. Bitmap_update c a f = Some c' \<and> offscreen_inv c' oc \<and> bitmap_live c' = bitmap_live c
    \<and> cx_events c' = cx_events c"
proof -
  obtain b where b: "cx_bitmaps c a = Some b" using assms(2) by (auto simp: bitmap_live_def)
  let ?c = "c\<lparr>cx_bitmaps := (cx_bitmaps c)(a \<mapsto> f b)\<rparr>"
  have "bitmap_live ?c = bitmap_live c" using b assms(3,4) by (auto simp: bitmap_live_def)
  then show ?thesis
    using b assms(1) by (intro exI [of _ ?c]) (simp add: Bitmap_update_def offscreen_inv_frame)
qed

lemma bitmap_New_inv:
  assumes "offscreen_inv c oc" and "a \<in> bitmap_live c"
  shows "\<exists>c'. bitmap_New c a = Some c' \<and> offscreen_inv c' oc \<and> bitmap_live c' = bitmap_live c
    \<and> cx_events c' = cx_events c @ [Ev_Bitmap_New a]"
proof -
  obtain b where b: "cx_bitmaps c a = Some b" "bm_class b = Class_backend"
    using assms(2) by (auto simp: bitmap_live_def)
  have "offscreen_inv (cx_emit (Ev_Bitmap_New a) c) oc"
    by (rule offscreen_inv_frame [OF assms(1)]) simp_all
  with b show ?thesis by (simp add: bitmap_New_def cx_emit_def bitmap_live_def)
qed

lemma SetSurface_inv:
  assumes "offscreen_inv c oc"
  shows "\<exists>c'. Bitmap_SetSurface c a p = Some c' \<and> offscreen_inv c' oc \<and> bitmap_live c' = bitmap_live c"
proof -
  have "offscreen_inv (cx_emit (Ev_SetSurface a p) c) oc"
    by (rule offscreen_inv_frame [OF assms]) simp_all
  with assms show ?thesis by (simp add: Bitmap_SetSurface_def offscreen_inv_def)
qed

text \<open>The bitmap drawing goes to, as the calls of \<open>SetSurface\<close> have left it.\<close>

fun surface_of :: "gfx_event list \<Rightarrow> nat option \<Rightarrow> nat option" where
  "surface_of [] s = s"
| "surface_of (Ev_SetSurface a p # es) s = surface_of es a"
| "surface_of (_ # es) s = surface_of es s"

lemma surface_of_append: "surface_of (es @ fs) s = surface_of fs (surface_of es s)"
  by (induction es s rule: surface_of.induct) simp_all

lemma offscreen_delete_events:
  assumes "offscreen_inv c oc" and "offscreen_cache_delete c oc i = Some (c', oc')"
  shows "surface_of (cx_events c') s = surface_of (cx_events c) s"
    and "bitmap_live c' \<subseteq> bitmap_live c"
    and "i < of_maxEntries oc \<Longrightarrow> of_entries oc ! unat i = Some a \<Longrightarrow> a \<notin> bitmap_live c'"
    and "oc' = oc\<lparr>of_entries := (if i < of_maxEntries oc then (of_entries oc)[unat i := None] else of_entries oc)\<rparr>"
    and "offscreen_inv c' oc'"
proof -
  have len: "length (of_entries oc) = unat (of_maxEntries oc)" and own: "owns (bitmap_live c) (of_entries oc)"
    using assms(1) by (simp_all add: offscreen_inv_def)
  have "surface_of (cx_events c') s = surface_of (cx_events c) s
    \<and> (i < of_maxEntries oc \<and> of_entries oc ! unat i = Some a \<longrightarrow> a \<notin> bitmap_live c')"
  proof (cases "i < of_maxEntries oc")
    case False
    then have "of_maxEntries oc \<le> i" by simp
    with assms(2) False show ?thesis by (auto simp: offscreen_cache_delete_def)
  next
    case True
    then have i: "unat i < length (of_entries oc)" using len by (simp add: word_less_nat_alt)
    have nle: "\<not> of_maxEntries oc \<le> i" using True by simp
    show ?thesis
    proof (cases "of_entries oc ! unat i")
      case None
      then show ?thesis
        using assms(2) True nle by (auto simp: offscreen_cache_delete_def slot_at_inside [OF len] slot_set_inside [OF len])
    next
      case (Some b)
      then have "b \<in> bitmap_live c" using own by (auto simp: owns_def owned_split [OF i])
      then show ?thesis
        using assms(2) True nle Some
        by (auto simp: offscreen_cache_delete_def slot_at_inside [OF len] slot_set_inside [OF len]
            Bitmap_Free_backend surface_of_append bitmap_live_def)
    qed
  qed
  then show "surface_of (cx_events c') s = surface_of (cx_events c) s"
    and "i < of_maxEntries oc \<Longrightarrow> of_entries oc ! unat i = Some a \<Longrightarrow> a \<notin> bitmap_live c'"
    by simp_all
  show "bitmap_live c' \<subseteq> bitmap_live c" "offscreen_inv c' oc'"
    "oc' = oc\<lparr>of_entries := (if i < of_maxEntries oc then (of_entries oc)[unat i := None] else of_entries oc)\<rparr>"
    using offscreen_delete_inv [OF assms(1), of i] assms(2) by auto
qed

lemma offscreen_delete_list_frees:
  assumes "offscreen_inv c oc" and "offscreen_delete_list c oc is = Some (c', oc')"
    and "a \<notin> bitmap_live c \<or> (\<exists>i \<in> set is. (ucast i :: u32) < of_maxEntries oc
      \<and> of_entries oc ! unat (ucast i :: u32) = Some a)"
  shows "surface_of (cx_events c') s = surface_of (cx_events c) s \<and> a \<notin> bitmap_live c'"
  using assms
proof (induction "is" arbitrary: c oc)
  case (Cons i "is")
  obtain c1 oc1 where d: "offscreen_cache_delete c oc (ucast i) = Some (c1, oc1)"
    and r: "offscreen_delete_list c1 oc1 is = Some (c', oc')"
    using Cons.prems(2) by (auto simp: bind_eq_Some_iff)
  note e = offscreen_delete_events [OF Cons.prems(1) d]
  have "a \<notin> bitmap_live c1 \<or> (\<exists>i \<in> set is. (ucast i :: u32) < of_maxEntries oc1
      \<and> of_entries oc1 ! unat (ucast i :: u32) = Some a)"
  proof (cases "a \<in> bitmap_live c1")
    case True
    then have live: "a \<in> bitmap_live c" using e(2) by blast
    then obtain j where j: "j \<in> set (i # is)" "(ucast j :: u32) < of_maxEntries oc" "of_entries oc ! unat (ucast j :: u32) = Some a"
      using Cons.prems(3) by blast
    have ne: "(ucast j :: u32) \<noteq> ucast i" using e(3) [of a] j True by auto
    then have "of_entries oc1 ! unat (ucast j :: u32) = Some a" "of_maxEntries oc1 = of_maxEntries oc"
      using j e(4) by (auto simp: nth_list_update word_unat_eq_iff)
    with j ne show ?thesis by auto
  qed simp
  from Cons.IH [OF e(5) r this] e(1) show ?case by simp
qed simp

lemma offscreen_put_events:
  assumes "offscreen_inv c oc" and "offscreen_cache_put c oc i e = Some (c', oc')"
  shows "surface_of (cx_events c') s = surface_of (cx_events c) s"
proof (cases "i < of_maxEntries oc")
  case False
  then have "of_maxEntries oc \<le> i" by simp
  with assms(2) show ?thesis by (auto simp: offscreen_cache_put_def)
next
  case True
  then have "\<not> of_maxEntries oc \<le> i" by simp
  then obtain c1 oc1 where "offscreen_cache_delete c oc i = Some (c1, oc1)" "c' = c1"
    using assms(2) by (auto simp: offscreen_cache_put_def bind_eq_Some_iff)
  then show ?thesis using offscreen_delete_events(1) [OF assms(1)] by simp
qed

text \<open>A create order up to its delete list.\<close>

lemma offscreen_create_steps:
  assumes "offscreen_inv c oc"
  shows "\<exists>n c' oc'. update_gdi_create_offscreen_bitmap c oc ord = offscreen_delete_list c' oc' (cb_deleteList ord)
    \<and> offscreen_inv c' oc'
    \<and> oc' = oc\<lparr>of_entries := (if cb_id ord < of_maxEntries oc then (of_entries oc)[unat (cb_id ord) := Some n]
        else of_entries oc)\<rparr>
    \<and> surface_of (cx_events c') None
      = (if of_currentSurface oc = cb_id ord then Some n else surface_of (cx_events c) None)"
proof -
  obtain a c1 where c1: "Bitmap_Alloc c = (a, c1)" by (cases "Bitmap_Alloc c") simp
  note i1 = Bitmap_Alloc_inv [OF assms c1]
  let ?f = "\<lambda>b. b\<lparr>bm_width := cb_cx ord, bm_height := cb_cy ord\<rparr>"
  obtain c2 where c2: "Bitmap_update c1 a ?f = Some c2"
    and i2: "offscreen_inv c2 oc" "bitmap_live c2 = bitmap_live c1" "cx_events c2 = cx_events c1"
    using Bitmap_update_inv [OF i1(1,2), of ?f] by auto
  have a2: "a \<in> bitmap_live c2" using i1(2) i2(2) by simp
  obtain c3 where c3: "bitmap_New c2 a = Some c3" and i3: "offscreen_inv c3 oc" "bitmap_live c3 = bitmap_live c2"
      "cx_events c3 = cx_events c2 @ [Ev_Bitmap_New a]"
    using bitmap_New_inv [OF i2(1) a2] by blast
  have s3: "surface_of (cx_events c3) None = surface_of (cx_events c) None"
    using c1 i2(3) i3(3) by (auto simp: Bitmap_Alloc_def surface_of_append)
  obtain c4 oc4 where c4: "offscreen_cache_delete c3 oc (cb_id ord) = Some (c4, oc4)"
    and k4: "\<forall>a \<in> bitmap_live c3. a \<notin> set (owned (of_entries oc)) \<longrightarrow> a \<in> bitmap_live c4"
    using offscreen_delete_inv [OF i3(1), of "cb_id ord"] by blast
  note e4 = offscreen_delete_events [OF i3(1) c4]
  have a4: "a \<in> bitmap_live c4" using k4 a2 i3(2) i1(3) by simp
  have n4: "a \<notin> set (owned (of_entries oc4))"
  proof (cases "cb_id ord < of_maxEntries oc")
    case True
    then have "unat (cb_id ord) < length (of_entries oc)"
      using assms by (simp add: offscreen_inv_def word_less_nat_alt)
    then show ?thesis using i1(3) True by (auto simp: e4(4) owned_split [of "unat (cb_id ord)"] owned_update)
  qed (use i1(3) in \<open>simp add: e4(4)\<close>)
  obtain c5 oc5 where c5: "offscreen_cache_put c4 oc4 (cb_id ord) (Some a) = Some (c5, oc5)" and i5: "offscreen_inv c5 oc5"
    and oc5: "oc5 = oc4\<lparr>of_entries := (if cb_id ord < of_maxEntries oc4 then (of_entries oc4)[unat (cb_id ord) := Some a]
        else of_entries oc4)\<rparr>"
    using offscreen_put_inv [OF e4(5) a4 n4, of "cb_id ord"] by blast
  have s5: "surface_of (cx_events c5) None = surface_of (cx_events c) None"
    using offscreen_put_events [OF e4(5) c5] e4(1) s3 by simp
  have oc5': "oc5 = oc\<lparr>of_entries := (if cb_id ord < of_maxEntries oc then (of_entries oc)[unat (cb_id ord) := Some a]
        else of_entries oc)\<rparr>" using oc5 e4(4) by simp
  obtain c6 where c6: "(if of_currentSurface oc5 = cb_id ord then Bitmap_SetSurface c5 (Some a) False else Some c5) = Some c6"
    and i6: "offscreen_inv c6 oc5"
    using SetSurface_inv [OF i5, of "Some a" False] i5 by (cases "of_currentSurface oc5 = cb_id ord") auto
  have s6: "surface_of (cx_events c6) None
      = (if of_currentSurface oc = cb_id ord then Some a else surface_of (cx_events c) None)"
    using c6 s5 oc5' by (auto simp: Bitmap_SetSurface_def cx_emit_def surface_of_append split: gfx_class.splits if_splits)
  have "update_gdi_create_offscreen_bitmap c oc ord = offscreen_delete_list c6 oc5 (cb_deleteList ord)"
    by (simp add: update_gdi_create_offscreen_bitmap_def c1 c2 c3 c4 c5 c6)
  then show ?thesis using i6 oc5' s6
    by (intro exI [of _ a] exI [of _ c6] exI [of _ oc5]) simp
qed

lemma offscreen_create_inv:
  assumes "offscreen_inv c oc"
  shows "\<exists>c' oc'. update_gdi_create_offscreen_bitmap c oc ord = Some (c', oc') \<and> offscreen_inv c' oc'"
  using offscreen_create_steps [OF assms, of ord] offscreen_delete_list_inv by metis

lemma offscreen_switch_inv:
  assumes "offscreen_inv c oc"
  shows "\<exists>c' oc'. update_gdi_switch_surface c oc i = Some (c', oc') \<and> offscreen_inv c' oc'
    \<and> of_currentSurface oc' = i"
proof -
  have g: "\<exists>b. offscreen_cache_get oc i = Some b" using offscreen_get_view [OF assms] by blast
  then obtain b where b: "offscreen_cache_get oc i = Some b" by blast
  obtain c' where c': "(if i = SCREEN_BITMAP_SURFACE then Bitmap_SetSurface c None True
      else Option.bind (offscreen_cache_get oc i) (\<lambda>b. Bitmap_SetSurface c b False)) = Some c'"
    and inv: "offscreen_inv c' oc"
    using SetSurface_inv [OF assms, of None True] SetSurface_inv [OF assms, of b False] b
    by (cases "i = SCREEN_BITMAP_SURFACE") auto
  have "offscreen_inv c' (oc\<lparr>of_currentSurface := i\<rparr>)" using inv by (simp add: offscreen_inv_def)
  then show ?thesis using c' by (simp add: update_gdi_switch_surface_def)
qed

section \<open>Orders\<close>

datatype offscreen_order = Create_offscreen CREATE_OFFSCREEN_BITMAP_ORDER | Switch_surface u32

fun offscreen_run ::
  "rdpContext \<Rightarrow> rdpOffscreenCache \<Rightarrow> offscreen_order list \<Rightarrow> (rdpContext \<times> rdpOffscreenCache) option" where
  "offscreen_run c oc [] = Some (c, oc)"
| "offscreen_run c oc (Create_offscreen ord # os) = do {
     (c, oc) \<leftarrow> update_gdi_create_offscreen_bitmap c oc ord;
     offscreen_run c oc os }"
| "offscreen_run c oc (Switch_surface i # os) = do {
     (c, oc) \<leftarrow> update_gdi_switch_surface c oc i;
     offscreen_run c oc os }"

lemma offscreen_run_inv:
  "offscreen_inv c oc \<Longrightarrow> \<exists>c' oc'. offscreen_run c oc os = Some (c', oc') \<and> offscreen_inv c' oc'"
proof (induction c oc os rule: offscreen_run.induct)
  case (2 c oc ord os)
  obtain c1 oc1 where "update_gdi_create_offscreen_bitmap c oc ord = Some (c1, oc1)" "offscreen_inv c1 oc1"
    using offscreen_create_inv [OF 2(2)] by blast
  with 2(1) show ?case by simp
next
  case (3 c oc i os)
  obtain c1 oc1 where "update_gdi_switch_surface c oc i = Some (c1, oc1)" "offscreen_inv c1 oc1"
    using offscreen_switch_inv [OF 3(2)] by blast
  with 3(1) show ?case by simp
qed simp

lemma offscreen_free_list_returns:
  "owns (bitmap_live c) es \<Longrightarrow>
     \<exists>c'. offscreen_free_list c es = Some c' \<and> bitmap_live c' = bitmap_live c - set (owned es)"
proof (induction es arbitrary: c)
  case (Cons e es)
  obtain c1 where f: "Bitmap_Free c e = Some c1" and l: "bitmap_live c1 = bitmap_live c - set (owned [e])"
    using bitmaps.release_slot [OF Cons.prems, of 0] by auto
  have "owns (bitmap_live c1) es" using Cons.prems l by (cases e) (auto simp: owns_def)
  from Cons.IH [OF this] obtain c2 where "offscreen_free_list c1 es = Some c2"
    "bitmap_live c2 = bitmap_live c1 - set (owned es)" by blast
  with f l show ?case by (cases e) auto
qed simp

interpretation offscreen: bounded_cache of_maxEntries offscreen_view offscreen_cache_get offscreen_cache_put
  offscreen_inv
proof
  fix c oc i e c' oc'
  assume inv: "offscreen_inv c oc" and p: "offscreen_cache_put c oc i e = Some (c', oc')"
  show "of_maxEntries oc' = of_maxEntries oc
    \<and> offscreen_view oc' = (if i < of_maxEntries oc then (offscreen_view oc)(i := e) else offscreen_view oc)"
  proof (cases "i < of_maxEntries oc")
    case False
    then have "of_maxEntries oc \<le> i" by simp
    with p False show ?thesis by (auto simp: offscreen_cache_put_def)
  next
    case True
    have len: "length (of_entries oc) = unat (of_maxEntries oc)" using inv by (simp add: offscreen_inv_def)
    have i: "unat i < length (of_entries oc)" using True len by (simp add: word_less_nat_alt)
    have nle: "\<not> of_maxEntries oc \<le> i" using True by simp
    obtain c1 where "offscreen_cache_delete c oc i = Some (c1, oc\<lparr>of_entries := (of_entries oc)[unat i := None]\<rparr>)"
      using offscreen_delete_inv [OF inv, of i] True by (simp only: if_True) blast
    then have "oc' = oc\<lparr>of_entries := (of_entries oc)[unat i := e]\<rparr>"
      using p True len nle by (auto simp: offscreen_cache_put_def slot_set_inside)
    then show ?thesis
      using True i by (auto simp: offscreen_view_def fun_eq_iff nth_list_update word_unat_eq_iff)
  qed
qed (rule offscreen_get_view)

section \<open>Properties\<close>

lemma offscreen_new_inv:
  assumes "bm_class (cx_Bitmap_Prototype c) = Class_backend" and "\<forall>a \<in> bitmap_live c. a < cx_next c"
  shows "offscreen_inv c offscreen_cache_new"
  using assms by (simp add: offscreen_inv_def offscreen_cache_new_def owns_empty)

text \<open>
  C13: no sequence of offscreen orders of the server makes the cache access a slot outside its array,
  touch a freed bitmap or free one twice, whatever ids, sizes and delete lists they carry, in range
  or not. The cache keeps owning its bitmaps, so that closing it afterwards frees exactly those.
\<close>

theorem offscreen_orders_safe:
  assumes "bm_class (cx_Bitmap_Prototype c) = Class_backend" and "\<forall>a \<in> bitmap_live c. a < cx_next c"
  shows "\<exists>c' oc' c''. offscreen_run c offscreen_cache_new os = Some (c', oc') \<and> offscreen_inv c' oc'
    \<and> offscreen_cache_free c' oc' = Some c''
    \<and> bitmap_live c'' = bitmap_live c' - set (owned (of_entries oc'))"
proof -
  obtain c' oc' where r: "offscreen_run c offscreen_cache_new os = Some (c', oc')" and inv: "offscreen_inv c' oc'"
    using offscreen_run_inv [OF offscreen_new_inv [OF assms]] by blast
  have t: "take (unat (of_maxEntries oc')) (of_entries oc') = of_entries oc'" and o: "owns (bitmap_live c') (of_entries oc')"
    using inv by (simp_all add: offscreen_inv_def)
  obtain c'' where "offscreen_cache_free c' oc' = Some c''"
    "bitmap_live c'' = bitmap_live c' - set (owned (of_entries oc'))"
    using offscreen_free_list_returns [OF o] by (auto simp: offscreen_cache_free_def t)
  with r inv show ?thesis by blast
qed

definition demo_context :: rdpContext where
  "demo_context = graphics_register_bitmap graphics_new (bitmap_zero\<lparr>bm_class := Class_backend\<rparr>)"

theorem offscreen_orders_safe_witness:
  "\<exists>c' oc' c''. offscreen_run demo_context offscreen_cache_new
      [Create_offscreen \<lparr>cb_id = 1, cb_cx = 64, cb_cy = 64, cb_deleteList = [7, 1, 1, 0xFFFF]\<rparr>, Switch_surface 1]
      = Some (c', oc') \<and> offscreen_inv c' oc' \<and> offscreen_cache_free c' oc' = Some c''
    \<and> bitmap_live c'' = bitmap_live c' - set (owned (of_entries oc'))"
  by (rule offscreen_orders_safe)
    (simp_all add: demo_context_def graphics_register_bitmap_def graphics_new_def bitmap_live_def)

text \<open>
  C19: the offscreen cache is a finite map. After \<open>offscreen_cache_put\<close> at an index below the size, a
  lookup there gives the bitmap put and every other lookup is as before; at an index beyond the size
  it changes no lookup.
\<close>

theorem offscreen_get_after_put:
  assumes "offscreen_inv c oc" and "a \<in> bitmap_live c" and "a \<notin> set (owned (of_entries oc))"
  shows "\<exists>c' oc'. offscreen_cache_put c oc i (Some a) = Some (c', oc')
    \<and> (\<forall>j. offscreen_cache_get oc' j
        = (if j = i \<and> i < of_maxEntries oc then Some (Some a) else offscreen_cache_get oc j))"
proof -
  obtain c' oc' where p: "offscreen_cache_put c oc i (Some a) = Some (c', oc')" and inv: "offscreen_inv c' oc'"
    using offscreen_put_inv [OF assms] by blast
  show ?thesis using p offscreen.get_put [OF assms(1) p inv] by blast
qed

theorem offscreen_get_after_put_witness:
  "\<exists>c' oc'. offscreen_cache_put (snd (Bitmap_Alloc demo_context)) offscreen_cache_new 5 (Some 0) = Some (c', oc')
    \<and> offscreen_cache_get oc' 5 = Some (Some 0) \<and> offscreen_cache_get oc' 6 = offscreen_cache_get offscreen_cache_new 6"
proof -
  have inv: "offscreen_inv demo_context offscreen_cache_new"
    by (rule offscreen_new_inv)
      (simp_all add: demo_context_def graphics_register_bitmap_def graphics_new_def bitmap_live_def)
  have al: "Bitmap_Alloc demo_context = (0, snd (Bitmap_Alloc demo_context))"
    by (simp add: Bitmap_Alloc_def demo_context_def graphics_register_bitmap_def graphics_new_def)
  note i = Bitmap_Alloc_inv [OF inv al]
  obtain c' oc' where p: "offscreen_cache_put (snd (Bitmap_Alloc demo_context)) offscreen_cache_new 5 (Some 0) = Some (c', oc')"
    and g: "\<And>j. offscreen_cache_get oc' j
      = (if j = 5 \<and> 5 < of_maxEntries offscreen_cache_new then Some (Some 0) else offscreen_cache_get offscreen_cache_new j)"
    using offscreen_get_after_put [OF i, of 5] by blast
  show ?thesis using p g [of 5] g [of 6]
    by (intro exI [of _ c'] exI [of _ oc']) (simp add: offscreen_cache_new_def)
qed

text \<open>
  C36: a create order can free the surface being drawn to. If its delete list names the current
  surface (and the order does not recreate that surface), the bitmap of the surface is freed, but no
  call of \<open>SetSurface\<close> takes the backend off it: the backend goes on drawing to a freed bitmap.
\<close>

theorem offscreen_surface_dangles:
  assumes "offscreen_inv c oc" and "of_currentSurface oc < of_maxEntries oc"
    and "offscreen_cache_get oc (of_currentSurface oc) = Some (Some a)"
    and "surface_of (cx_events c) None = Some a"
    and "cb_id ord \<noteq> of_currentSurface oc" and "d \<in> set (cb_deleteList ord)" and "ucast d = of_currentSurface oc"
  shows "\<exists>c' oc'. update_gdi_create_offscreen_bitmap c oc ord = Some (c', oc')
    \<and> of_currentSurface oc' = of_currentSurface oc
    \<and> surface_of (cx_events c') None = Some a \<and> a \<notin> bitmap_live c'"
proof -
  obtain n c1 oc1 where c: "update_gdi_create_offscreen_bitmap c oc ord = offscreen_delete_list c1 oc1 (cb_deleteList ord)"
    and i1: "offscreen_inv c1 oc1"
    and oc1: "oc1 = oc\<lparr>of_entries := (if cb_id ord < of_maxEntries oc then (of_entries oc)[unat (cb_id ord) := Some n]
        else of_entries oc)\<rparr>"
    and s1: "surface_of (cx_events c1) None
      = (if of_currentSurface oc = cb_id ord then Some n else surface_of (cx_events c) None)"
    using offscreen_create_steps [OF assms(1), of ord] by blast
  obtain c' oc' where r: "offscreen_delete_list c1 oc1 (cb_deleteList ord) = Some (c', oc')"
    and cur: "of_currentSurface oc' = of_currentSurface oc1"
    using offscreen_delete_list_inv [OF i1] by blast
  have "of_entries oc ! unat (of_currentSurface oc) = Some a"
    using assms(2,3) offscreen_get_view [OF assms(1)] by (simp add: offscreen_view_def)
  then have "of_entries oc1 ! unat (of_currentSurface oc) = Some a" "of_maxEntries oc1 = of_maxEntries oc"
    using assms(5) oc1 by (auto simp: nth_list_update word_unat_eq_iff)
  then have "\<exists>i \<in> set (cb_deleteList ord). (ucast i :: u32) < of_maxEntries oc1
      \<and> of_entries oc1 ! unat (ucast i :: u32) = Some a"
    using assms(2,6,7) by (intro bexI [of _ d]) simp_all
  then have "surface_of (cx_events c') None = surface_of (cx_events c1) None \<and> a \<notin> bitmap_live c'"
    using offscreen_delete_list_frees [OF i1 r] by blast
  with s1 assms(4,5) c r cur oc1 show ?thesis
    by (intro exI [of _ c'] exI [of _ oc']) simp
qed

lemma switch_to_entry:
  assumes "offscreen_inv c oc" and "i < of_maxEntries oc" and "i \<noteq> SCREEN_BITMAP_SURFACE"
    and "of_entries oc ! unat i = Some a"
  shows "\<exists>c'. update_gdi_switch_surface c oc i = Some (c', oc\<lparr>of_currentSurface := i\<rparr>)
    \<and> offscreen_inv c' (oc\<lparr>of_currentSurface := i\<rparr>) \<and> surface_of (cx_events c') None = Some a"
proof -
  have g: "offscreen_cache_get oc i = Some (Some a)"
    using offscreen_get_view [OF assms(1)] assms(2,4) by (simp add: offscreen_view_def)
  have cl: "bm_class (cx_Bitmap_Prototype c) = Class_backend" using assms(1) by (simp add: offscreen_inv_def)
  have s: "update_gdi_switch_surface c oc i
      = Some (cx_emit (Ev_SetSurface (Some a) False) c, oc\<lparr>of_currentSurface := i\<rparr>)"
    using g cl assms(3) by (simp add: update_gdi_switch_surface_def Bitmap_SetSurface_def)
  obtain c' oc' where "update_gdi_switch_surface c oc i = Some (c', oc')" "offscreen_inv c' oc'"
    using offscreen_switch_inv [OF assms(1)] by blast
  with s show ?thesis by (simp add: surface_of_append cx_emit_def)
qed

theorem offscreen_surface_dangles_witness:
  "\<exists>c oc a c' oc'. offscreen_run demo_context offscreen_cache_new
      [Create_offscreen \<lparr>cb_id = 1, cb_cx = 64, cb_cy = 64, cb_deleteList = []\<rparr>, Switch_surface 1] = Some (c, oc)
    \<and> update_gdi_create_offscreen_bitmap c oc \<lparr>cb_id = 2, cb_cx = 8, cb_cy = 8, cb_deleteList = [1]\<rparr> = Some (c', oc')
    \<and> surface_of (cx_events c') None = Some a \<and> a \<notin> bitmap_live c'"
proof -
  let ?o1 = "\<lparr>cb_id = 1, cb_cx = 64, cb_cy = 64, cb_deleteList = []\<rparr>"
  let ?o2 = "\<lparr>cb_id = 2, cb_cx = 8, cb_cy = 8, cb_deleteList = [1]\<rparr>"
  have inv: "offscreen_inv demo_context offscreen_cache_new"
    by (rule offscreen_new_inv)
      (simp_all add: demo_context_def graphics_register_bitmap_def graphics_new_def bitmap_live_def)
  obtain n c1 oc1 where c1: "update_gdi_create_offscreen_bitmap demo_context offscreen_cache_new ?o1 = Some (c1, oc1)"
    and i1: "offscreen_inv c1 oc1"
    and o1: "oc1 = offscreen_cache_new\<lparr>of_entries := (of_entries offscreen_cache_new)[1 := Some n]\<rparr>"
    using offscreen_create_steps [OF inv, of ?o1] by (auto simp: offscreen_cache_new_def)
  have "of_entries oc1 ! unat (1 :: u32) = Some n" "of_maxEntries oc1 = 2000" using o1 by (simp_all add: offscreen_cache_new_def)
  then obtain c2 where c2: "update_gdi_switch_surface c1 oc1 1 = Some (c2, oc1\<lparr>of_currentSurface := 1\<rparr>)"
    and i2: "offscreen_inv c2 (oc1\<lparr>of_currentSurface := 1\<rparr>)" and s2: "surface_of (cx_events c2) None = Some n"
    using switch_to_entry [OF i1, of 1] by (auto simp: SCREEN_BITMAP_SURFACE_def)
  have g: "offscreen_cache_get (oc1\<lparr>of_currentSurface := 1\<rparr>) 1 = Some (Some n)"
    using offscreen_get_view [OF i2] o1 by (simp add: offscreen_view_def offscreen_cache_new_def)
  obtain c' oc' where "update_gdi_create_offscreen_bitmap c2 (oc1\<lparr>of_currentSurface := 1\<rparr>) ?o2 = Some (c', oc')"
    "surface_of (cx_events c') None = Some n" "n \<notin> bitmap_live c'"
    using offscreen_surface_dangles [OF i2, of n ?o2 1] g s2 o1 by (auto simp: offscreen_cache_new_def)
  moreover have "offscreen_run demo_context offscreen_cache_new [Create_offscreen ?o1, Switch_surface 1]
      = Some (c2, oc1\<lparr>of_currentSurface := 1\<rparr>)"
    by (simp add: c1 c2)
  ultimately show ?thesis by blast
qed

end
