(* ===== verification/Refinement.thy ===== *)
theory Refinement
  imports Prelude
begin

text \<open>
  Refinement of a component by runs: the implementation steps in the option monad (\<^term>\<open>None\<close> is a
  fault), the specification is a total function. If every operation keeps the abstraction relation
  and gives the answer of the specification, so does every sequence of operations.
\<close>

fun run_ops :: "('s \<Rightarrow> 'o \<Rightarrow> ('r \<times> 's) option) \<Rightarrow> 's \<Rightarrow> 'o list \<Rightarrow> ('r list \<times> 's) option" where
  "run_ops step s [] = Some ([], s)"
| "run_ops step s (x # xs) = do {
     (r, s) \<leftarrow> step s x;
     (rs, s) \<leftarrow> run_ops step s xs;
     Some (r # rs, s) }"

fun run_spec :: "('a \<Rightarrow> 'o \<Rightarrow> 'r \<times> 'a) \<Rightarrow> 'a \<Rightarrow> 'o list \<Rightarrow> 'r list \<times> 'a" where
  "run_spec spec a [] = ([], a)"
| "run_spec spec a (x # xs) =
     (let (r, a) = spec a x; (rs, a) = run_spec spec a xs in (r # rs, a))"

locale refinement =
  fixes rel :: "'s \<Rightarrow> 'a \<Rightarrow> bool"
    and step :: "'s \<Rightarrow> 'o \<Rightarrow> ('r \<times> 's) option"
    and spec :: "'a \<Rightarrow> 'o \<Rightarrow> 'r \<times> 'a"
  assumes simulate: "rel s a \<Longrightarrow> \<exists>s'. step s x = Some (fst (spec a x), s') \<and> rel s' (snd (spec a x))"
begin

lemma run_refines:
  "rel s a \<Longrightarrow> \<exists>s'. run_ops step s xs = Some (fst (run_spec spec a xs), s') \<and> rel s' (snd (run_spec spec a xs))"
proof (induction xs arbitrary: s a)
  case (Cons x xs)
  obtain s1 where s1: "step s x = Some (fst (spec a x), s1)" "rel s1 (snd (spec a x))"
    using simulate [OF Cons.prems] by blast
  obtain s2 where "run_ops step s1 xs = Some (fst (run_spec spec (snd (spec a x)) xs), s2)"
    "rel s2 (snd (run_spec spec (snd (spec a x)) xs))"
    using Cons.IH [OF s1(2)] by blast
  with s1(1) show ?case by (simp add: split_beta Let_def)
qed simp

end

end
