(* ===== verification/Linked_List.thy ===== *)
theory Linked_List
  imports Refinement
begin

text \<open>
  The doubly linked list of \<^verbatim>\<open>libfreerdp-utils/list.c\<close>. The items live in a heap from addresses to
  records; an access to an address that is not live, and freeing one, is a fault. A data pointer is
  an optional number, \<^term>\<open>None\<close> being \<open>NULL\<close>. Allocation always succeeds.
\<close>

section \<open>Operations\<close>

record LIST_ITEM =
  li_data :: "nat option"
  li_prev :: "nat option"
  li_next :: "nat option"

record LIST =
  l_count :: int
  l_head :: "nat option"
  l_tail :: "nat option"

record list_heap =
  lh_items :: "nat \<rightharpoonup> LIST_ITEM"
  lh_free :: nat

definition item_update :: "list_heap \<Rightarrow> nat \<Rightarrow> (LIST_ITEM \<Rightarrow> LIST_ITEM) \<Rightarrow> list_heap option" where
  "item_update h a f = do {
     it \<leftarrow> lh_items h a;
     Some (h\<lparr>lh_items := (lh_items h)(a \<mapsto> f it)\<rparr>) }"

definition item_free :: "list_heap \<Rightarrow> nat \<Rightarrow> list_heap option" where
  "item_free h a = do {
     it \<leftarrow> lh_items h a;
     Some (h\<lparr>lh_items := (lh_items h)(a := None)\<rparr>) }"

definition list_item_new :: "list_heap \<Rightarrow> nat option \<Rightarrow> nat \<times> list_heap" where
  "list_item_new h data = (lh_free h,
     h\<lparr>lh_items := (lh_items h)(lh_free h \<mapsto> \<lparr>li_data = data, li_prev = None, li_next = None\<rparr>),
       lh_free := Suc (lh_free h)\<rparr>)"

text \<open>The search loop of \<open>list_item_find\<close>, from an item on. On a cyclic list it need not end.\<close>

partial_function (option) item_find :: "list_heap \<Rightarrow> nat option \<Rightarrow> nat option \<Rightarrow> nat option option" where
  "item_find h p data = (case p of
     None \<Rightarrow> Some None
   | Some a \<Rightarrow> Option.bind (lh_items h a) (\<lambda>it.
       if li_data it = data then Some (Some a) else item_find h (li_next it) data))"

definition list_item_find :: "list_heap \<Rightarrow> LIST \<Rightarrow> nat option \<Rightarrow> nat option option" where
  "list_item_find h l data = item_find h (l_head l) data"

definition list_new :: LIST where
  "list_new = \<lparr>l_count = 0, l_head = None, l_tail = None\<rparr>"

definition list_enqueue :: "list_heap \<Rightarrow> LIST \<Rightarrow> nat option \<Rightarrow> (list_heap \<times> LIST) option" where
  "list_enqueue h l data = (let (item, h) = list_item_new h data in
     case l_tail l of
       None \<Rightarrow> Some (h, l\<lparr>l_head := Some item, l_tail := Some item, l_count := l_count l + 1\<rparr>)
     | Some t \<Rightarrow> do {
         h \<leftarrow> item_update h item (\<lambda>it. it\<lparr>li_prev := Some t\<rparr>);
         h \<leftarrow> item_update h t (\<lambda>it. it\<lparr>li_next := Some item\<rparr>);
         Some (h, l\<lparr>l_tail := Some item, l_count := l_count l + 1\<rparr>) })"

definition list_dequeue :: "list_heap \<Rightarrow> LIST \<Rightarrow> (nat option \<times> list_heap \<times> LIST) option" where
  "list_dequeue h l = (case l_head l of
     None \<Rightarrow> Some (None, h, l)
   | Some item \<Rightarrow> do {
       it \<leftarrow> lh_items h item;
       let l = l\<lparr>l_head := li_next it\<rparr>;
       (h, l) \<leftarrow> (case l_head l of
            None \<Rightarrow> Some (h, l\<lparr>l_tail := None\<rparr>)
          | Some b \<Rightarrow> do { h \<leftarrow> item_update h b (\<lambda>it. it\<lparr>li_prev := None\<rparr>); Some (h, l) });
       it \<leftarrow> lh_items h item;
       h \<leftarrow> item_free h item;
       Some (li_data it, h, l\<lparr>l_count := l_count l - 1\<rparr>) })"

partial_function (option) list_free :: "list_heap \<Rightarrow> LIST \<Rightarrow> list_heap option" where
  "list_free h l = (case l_head l of
     None \<Rightarrow> Some h
   | Some _ \<Rightarrow> Option.bind (list_dequeue h l) (\<lambda>(_, h, l). list_free h l))"

definition list_peek :: "list_heap \<Rightarrow> LIST \<Rightarrow> nat option option" where
  "list_peek h l = (case l_head l of
     None \<Rightarrow> Some None
   | Some item \<Rightarrow> do { it \<leftarrow> lh_items h item; Some (li_data it) })"

definition list_next :: "list_heap \<Rightarrow> LIST \<Rightarrow> nat option \<Rightarrow> nat option option" where
  "list_next h l data = do {
     item \<leftarrow> list_item_find h l data;
     (case item of
        None \<Rightarrow> Some None
      | Some a \<Rightarrow> do {
          it \<leftarrow> lh_items h a;
          (case li_next it of
             None \<Rightarrow> Some None
           | Some b \<Rightarrow> do { it \<leftarrow> lh_items h b; Some (li_data it) }) }) }"

definition list_remove :: "list_heap \<Rightarrow> LIST \<Rightarrow> nat option \<Rightarrow> (nat option \<times> list_heap \<times> LIST) option" where
  "list_remove h l data = do {
     item \<leftarrow> list_item_find h l data;
     (case item of
        None \<Rightarrow> Some (None, h, l)
      | Some a \<Rightarrow> do {
          it \<leftarrow> lh_items h a;
          h \<leftarrow> (case li_prev it of None \<Rightarrow> Some h
               | Some b \<Rightarrow> item_update h b (\<lambda>p. p\<lparr>li_next := li_next it\<rparr>));
          it \<leftarrow> lh_items h a;
          h \<leftarrow> (case li_next it of None \<Rightarrow> Some h
               | Some b \<Rightarrow> item_update h b (\<lambda>p. p\<lparr>li_prev := li_prev it\<rparr>));
          it \<leftarrow> lh_items h a;
          let l = (if l_head l = Some a then l\<lparr>l_head := li_next it\<rparr> else l);
          let l = (if l_tail l = Some a then l\<lparr>l_tail := li_prev it\<rparr> else l);
          h \<leftarrow> item_free h a;
          Some (data, h, l\<lparr>l_count := l_count l - 1\<rparr>) }) }"

definition list_size :: "LIST \<Rightarrow> int" where
  "list_size l = l_count l"

section \<open>Segments of a list in the heap\<close>

definition first_of :: "nat list \<Rightarrow> nat option \<Rightarrow> nat option" where
  "first_of as nx = (case as of [] \<Rightarrow> nx | a # _ \<Rightarrow> Some a)"

definition last_of :: "nat option \<Rightarrow> nat list \<Rightarrow> nat option" where
  "last_of pv as = (if as = [] then pv else Some (last as))"

lemma first_of_simps [simp]: "first_of [] nx = nx" "first_of (a # as) nx = Some a"
  "first_of (as @ bs) nx = first_of as (first_of bs nx)"
  by (auto simp: first_of_def split: list.splits)

lemma last_of_simps [simp]: "last_of pv [] = pv" "last_of pv (a # as) = last_of (Some a) as"
  "last_of pv (as @ bs) = last_of (last_of pv as) bs"
  by (auto simp: last_of_def)

text \<open>
  The items at the addresses \<open>as\<close>, holding the data \<open>ds\<close>, are chained in both directions, between
  the neighbours \<open>pv\<close> and \<open>nx\<close>.
\<close>

fun segment :: "(nat \<rightharpoonup> LIST_ITEM) \<Rightarrow> nat option \<Rightarrow> nat list \<Rightarrow> nat option list \<Rightarrow> nat option \<Rightarrow> bool" where
  "segment H pv [] [] nx = True"
| "segment H pv (a # as) (d # ds) nx \<longleftrightarrow>
     H a = Some \<lparr>li_data = d, li_prev = pv, li_next = first_of as nx\<rparr> \<and> segment H (Some a) as ds nx"
| "segment H pv _ _ nx = False"

lemma segment_length: "segment H pv as ds nx \<Longrightarrow> length ds = length as"
  by (induction H pv as ds nx rule: segment.induct) simp_all

lemma segment_Nil [simp]: "segment H pv [] ds nx \<longleftrightarrow> ds = []"
  by (cases ds) simp_all

lemma segment_cong: "\<forall>a \<in> set as. H a = H' a \<Longrightarrow> segment H pv as ds nx = segment H' pv as ds nx"
  by (induction H pv as ds nx rule: segment.induct) auto

lemma segment_append:
  "length ds = length as \<Longrightarrow> segment H pv (as @ bs) (ds @ es) nx
    \<longleftrightarrow> segment H pv as ds (first_of bs nx) \<and> segment H (last_of pv as) bs es nx"
  by (induction as ds arbitrary: pv rule: list_induct2') auto

lemma segment_frame [simp]:
  "a \<notin> set as \<Longrightarrow> segment (H(a := v)) pv as ds nx = segment H pv as ds nx"
  by (induction H pv as ds nx rule: segment.induct) auto

lemma segment_Cons:
  "segment H pv (a # as) ds nx \<longleftrightarrow> (\<exists>d es. ds = d # es
     \<and> H a = Some \<lparr>li_data = d, li_prev = pv, li_next = first_of as nx\<rparr> \<and> segment H (Some a) as es nx)"
  by (cases ds) auto

text \<open>The last item of a segment, and relinking the ends.\<close>

lemma segment_relink_last:
  assumes "segment H pv (as @ [a]) ds nx" and "a \<notin> set as"
  shows "\<exists>it. H a = Some it \<and> segment (H(a \<mapsto> it\<lparr>li_next := nx'\<rparr>)) pv (as @ [a]) ds nx'"
proof -
  have "length ds = length as + 1" using segment_length [OF assms(1)] by simp
  then obtain es d where ds: "ds = es @ [d]" "length es = length as"
    by (metis length_Suc_conv_rev Suc_eq_plus1)
  with assms show ?thesis by (auto simp: segment_append)
qed

lemma segment_relink_first:
  assumes "segment H pv (a # as) ds nx" and "a \<notin> set as"
  shows "\<exists>it. H a = Some it \<and> segment (H(a \<mapsto> it\<lparr>li_prev := pv'\<rparr>)) pv' (a # as) ds nx"
  using assms by (auto simp: segment_Cons)

text \<open>The search ends at the first item with the data.\<close>

lemma item_find_segment:
  assumes "segment (lh_items h) pv as ds None"
  shows "item_find h (first_of as None) data
    = Some (map_option fst (List.find (\<lambda>(a, d). d = data) (zip as ds)))"
  using assms
proof (induction as ds arbitrary: pv rule: list_induct2')
  case 1
  then show ?case by (subst item_find.simps) simp
next
  case (4 a as d ds)
  then show ?case by (subst item_find.simps) (auto simp: 4(1))
qed auto

section \<open>The list as a sequence\<close>

definition heap_fresh :: "list_heap \<Rightarrow> bool" where
  "heap_fresh h \<longleftrightarrow> dom (lh_items h) \<subseteq> {..<lh_free h}"

text \<open>
  The list \<open>l\<close> holds the data \<open>ds\<close> in the items \<open>as\<close>, on top of a part \<open>R\<close> of the heap that belongs
  to others.
\<close>

definition list_at :: "(nat \<rightharpoonup> LIST_ITEM) \<Rightarrow> list_heap \<Rightarrow> LIST \<Rightarrow> nat list \<Rightarrow> nat option list \<Rightarrow> bool" where
  "list_at R h l as ds \<longleftrightarrow> distinct as \<and> segment (lh_items h) None as ds None
    \<and> l_head l = first_of as None \<and> l_tail l = last_of None as \<and> l_count l = int (length as)
    \<and> heap_fresh h \<and> (\<forall>x. R x = (if x \<in> set as then None else lh_items h x))"

definition list_rel :: "(nat \<rightharpoonup> LIST_ITEM) \<Rightarrow> list_heap \<times> LIST \<Rightarrow> nat option list \<Rightarrow> bool" where
  "list_rel R s ds \<longleftrightarrow> (\<exists>as. list_at R (fst s) (snd s) as ds)"

lemma list_relI: "list_at R h l as ds \<Longrightarrow> list_rel R (h, l) ds"
  by (auto simp: list_rel_def)

lemma list_relE:
  assumes "list_rel R s ds"
  obtains h l as where "s = (h, l)" "list_at R h l as ds"
  using assms by (cases s) (auto simp: list_rel_def)

lemma list_new_at: "heap_fresh h \<Longrightarrow> list_at (lh_items h) h list_new [] []"
  by (simp add: list_at_def list_new_def)

lemma segment_live: "segment H pv as ds nx \<Longrightarrow> a \<in> set as \<Longrightarrow> H a \<noteq> None"
  by (induction H pv as ds nx rule: segment.induct) auto

lemma list_at_fresh: "list_at R h l as ds \<Longrightarrow> lh_free h \<notin> set as \<and> lh_items h (lh_free h) = None"
proof -
  assume at: "list_at R h l as ds"
  then have n: "lh_items h (lh_free h) = None" by (auto simp: list_at_def heap_fresh_def)
  with at show ?thesis by (auto simp: list_at_def dest!: segment_live)
qed

lemma list_enqueue_at:
  assumes "list_at R h l as ds"
  shows "\<exists>h' l'. list_enqueue h l d = Some (h', l') \<and> list_at R h' l' (as @ [lh_free h]) (ds @ [d])"
proof (cases as rule: rev_cases)
  case Nil
  let ?n = "lh_free h"
  let ?h = "h\<lparr>lh_items := (lh_items h)(?n \<mapsto> \<lparr>li_data = d, li_prev = None, li_next = None\<rparr>), lh_free := Suc ?n\<rparr>"
  have ds: "ds = []" using assms Nil by (auto simp: list_at_def dest: segment_length)
  have R: "\<forall>x. R x = (if x = ?n then None else lh_items ?h x)"
    using assms list_at_fresh [OF assms] Nil by (auto simp: list_at_def)
  have "heap_fresh ?h" using assms by (auto simp: list_at_def heap_fresh_def less_Suc_eq)
  then show ?thesis using assms Nil R ds
    by (simp add: list_enqueue_def list_item_new_def list_at_def)
next
  case (snoc bs t)
  let ?n = "lh_free h" and ?H = "lh_items h"
  note fresh = list_at_fresh [OF assms]
  have t: "t \<notin> set bs" "?n \<noteq> t" using assms fresh snoc by (auto simp: list_at_def)
  have seg: "segment ?H None (bs @ [t]) ds None" using assms snoc by (simp add: list_at_def)
  obtain it where it: "?H t = Some it" and seg': "segment (?H(t \<mapsto> it\<lparr>li_next := Some ?n\<rparr>)) None (bs @ [t]) ds (Some ?n)"
    using segment_relink_last [OF seg t(1)] by blast
  let ?h = "h\<lparr>lh_items := ?H(?n \<mapsto> \<lparr>li_data = d, li_prev = Some t, li_next = None\<rparr>, t \<mapsto> it\<lparr>li_next := Some ?n\<rparr>),
      lh_free := Suc ?n\<rparr>"
  let ?l = "l\<lparr>l_tail := Some ?n, l_count := l_count l + 1\<rparr>"
  have e: "list_enqueue h l d = Some (?h, ?l)"
    using assms snoc it t by (simp add: list_enqueue_def list_item_new_def list_at_def item_update_def)
  have "segment (lh_items ?h) None as ds (Some ?n)"
    using seg' fresh snoc t by (simp add: fun_upd_twist [of "?n" t])
  then have s: "segment (lh_items ?h) None (as @ [?n]) (ds @ [d]) None"
    using segment_length [OF seg] snoc t
    by (simp add: segment_append [where bs = "[?n]" and as = "bs @ [t]", simplified])
  have R: "\<forall>x. R x = (if x \<in> set (as @ [?n]) then None else lh_items ?h x)"
    using assms fresh snoc by (auto simp: list_at_def)
  have "heap_fresh ?h" using assms it by (auto simp: list_at_def heap_fresh_def less_Suc_eq)
  then have "list_at R ?h ?l (as @ [?n]) (ds @ [d])"
    using assms s R fresh snoc by (simp add: list_at_def)
  with e show ?thesis by blast
qed

text \<open>Taking an item out: its neighbours are linked with each other.\<close>

lemma list_dequeue_at:
  assumes "list_at R h l (a # as) (d # ds)"
  shows "\<exists>h' l'. list_dequeue h l = Some (d, h', l') \<and> list_at R h' l' as ds
    \<and> lh_free h' = lh_free h"
proof (cases as)
  case Nil
  let ?h = "h\<lparr>lh_items := (lh_items h)(a := None)\<rparr>"
  have "\<forall>x. R x = (if x \<in> set as then None else lh_items ?h x)" using assms Nil by (auto simp: list_at_def)
  then show ?thesis using assms Nil
    by (auto simp: list_dequeue_def list_at_def item_free_def heap_fresh_def)
next
  case (Cons b bs)
  let ?H = "lh_items h"
  have seg: "segment ?H (Some a) (b # bs) ds None" and d: "b \<notin> set bs" "a \<noteq> b" "a \<notin> set bs"
    using assms Cons by (auto simp: list_at_def)
  obtain it where it: "?H b = Some it" and seg': "segment (?H(b \<mapsto> it\<lparr>li_prev := None\<rparr>)) None (b # bs) ds None"
    using segment_relink_first [OF seg d(1)] by blast
  let ?h = "h\<lparr>lh_items := ?H(b \<mapsto> it\<lparr>li_prev := None\<rparr>, a := None)\<rparr>"
  let ?l = "l\<lparr>l_head := Some b, l_count := l_count l - 1\<rparr>"
  have e: "list_dequeue h l = Some (d, ?h, ?l)"
    using assms Cons it d by (simp add: list_dequeue_def list_at_def item_update_def item_free_def)
  have "segment (lh_items ?h) None as ds None"
    using seg' Cons d segment_frame [of a "b # bs" "?H(b \<mapsto> it\<lparr>li_prev := None\<rparr>)" None None ds None] by simp
  moreover have "\<forall>x. R x = (if x \<in> set as then None else lh_items ?h x)"
    using assms Cons by (auto simp: list_at_def)
  moreover have "heap_fresh ?h" using assms it by (auto simp: list_at_def heap_fresh_def)
  ultimately have "list_at R ?h ?l as ds" using assms Cons by (simp add: list_at_def)
  with e show ?thesis by (intro exI [of _ ?h] exI [of _ ?l]) simp
qed

lemma list_free_at:
  "list_at R h l as ds \<Longrightarrow> \<exists>h'. list_free h l = Some h' \<and> lh_items h' = R"
proof (induction as arbitrary: h l ds)
  case Nil
  then show ?case by (subst list_free.simps) (auto simp: list_at_def)
next
  case (Cons a as)
  then obtain d es where ds: "ds = d # es" by (auto simp: list_at_def segment_Cons)
  obtain h' l' where d: "list_dequeue h l = Some (d, h', l')" "list_at R h' l' as es"
    using list_dequeue_at Cons.prems ds by blast
  have hd: "l_head l = Some a" using Cons.prems by (simp add: list_at_def)
  show ?case using Cons.IH [OF d(2)] by (subst list_free.simps) (simp add: hd d(1))
qed

text \<open>Taking an item out of the middle: its neighbours are linked with each other.\<close>

definition same_elsewhere :: "nat set \<Rightarrow> list_heap \<Rightarrow> list_heap \<Rightarrow> bool" where
  "same_elsewhere A h h' \<longleftrightarrow> lh_free h' = lh_free h \<and> (\<forall>x. x \<notin> A \<longrightarrow> lh_items h' x = lh_items h x)
    \<and> dom (lh_items h') = dom (lh_items h)"

lemma relink_next:
  assumes "segment (lh_items h) None bs es nx" and "distinct bs"
  shows "\<exists>h'. (case last_of None bs of None \<Rightarrow> Some h | Some b \<Rightarrow> item_update h b (\<lambda>p. p\<lparr>li_next := nx'\<rparr>)) = Some h'
    \<and> segment (lh_items h') None bs es nx' \<and> same_elsewhere (set bs) h h'"
proof (cases bs rule: rev_cases)
  case (snoc cs b)
  obtain it where "lh_items h b = Some it"
    and "segment ((lh_items h)(b \<mapsto> it\<lparr>li_next := nx'\<rparr>)) None (cs @ [b]) es nx'"
    using segment_relink_last [of "lh_items h" None cs b es nx nx'] assms snoc by auto
  then show ?thesis using snoc by (auto simp: item_update_def same_elsewhere_def)
qed (use assms in \<open>simp add: same_elsewhere_def\<close>)

lemma relink_prev:
  assumes "segment (lh_items h) pv cs fs None" and "distinct cs"
  shows "\<exists>h'. (case first_of cs None of None \<Rightarrow> Some h | Some b \<Rightarrow> item_update h b (\<lambda>p. p\<lparr>li_prev := pv'\<rparr>)) = Some h'
    \<and> segment (lh_items h') pv' cs fs None \<and> same_elsewhere (set cs) h h'"
proof (cases cs)
  case (Cons b bs)
  obtain it where "lh_items h b = Some it"
    and "segment ((lh_items h)(b \<mapsto> it\<lparr>li_prev := pv'\<rparr>)) pv' (b # bs) fs None"
    using segment_relink_first [of "lh_items h" pv b bs fs None pv'] assms Cons by auto
  then show ?thesis using Cons by (auto simp: item_update_def same_elsewhere_def)
qed (use assms in \<open>simp add: same_elsewhere_def\<close>)

lemma find_first:
  assumes "length es = length bs" and "d \<notin> set es"
  shows "List.find (\<lambda>(a, e). e = d) (zip (bs @ as) (es @ ds)) = List.find (\<lambda>(a, e). e = d) (zip as ds)"
  using assms by (induction es bs rule: list_induct2) auto

lemma split_at_data:
  assumes "segment H pv as ds nx" and "d \<in> set ds"
  obtains bs a cs es fs where "as = bs @ a # cs" "ds = es @ d # fs" "length es = length bs" "d \<notin> set es"
    "segment H pv bs es (Some a)" "H a = Some \<lparr>li_data = d, li_prev = last_of pv bs, li_next = first_of cs nx\<rparr>"
    "segment H (Some a) cs fs nx"
proof -
  obtain es fs where ds: "ds = es @ d # fs" "d \<notin> set es"
    using split_list_first [OF assms(2)] by blast
  have "length es < length as" using segment_length [OF assms(1)] ds by simp
  then obtain bs a cs where as: "as = bs @ a # cs" "length es = length bs"
    by (metis id_take_nth_drop length_take min.absorb4)
  show thesis
    using that [OF as(1) ds(1) as(2) ds(2)] assms(1) ds(1) as by (auto simp: segment_append)
qed

lemma find_none: "d \<notin> set ds \<Longrightarrow> List.find (\<lambda>(a, e). e = d) (zip as ds) = None"
  by (auto simp: find_None_iff dest: set_zip_rightD)

lemma list_find_at:
  assumes "list_at R h l as ds"
  shows "list_item_find h l d = Some (map_option fst (List.find (\<lambda>(a, e). e = d) (zip as ds)))"
  using assms item_find_segment by (auto simp: list_item_find_def list_at_def)

lemma unlink_ends:
  assumes "l_head l = first_of bs (Some a)" and "l_tail l = last_of (Some a) cs" and "a \<notin> set bs" and "a \<notin> set cs"
  defines "k \<equiv> (if l_head l = Some a then l\<lparr>l_head := first_of cs None\<rparr> else l)"
  shows "(if l_tail k = Some a then k\<lparr>l_tail := last_of None bs\<rparr> else k)
    = l\<lparr>l_head := first_of (bs @ cs) None, l_tail := last_of None (bs @ cs)\<rparr>"
  using assms(1-4) unfolding k_def
  by (cases l; cases bs; cases cs rule: rev_cases) auto

lemma list_remove_at:
  assumes "list_at R h l as ds" and "d \<in> set ds"
  shows "\<exists>h' l' as'. list_remove h l d = Some (d, h', l') \<and> list_at R h' l' as' (remove1 d ds)"
proof -
  let ?H = "lh_items h"
  have seg: "segment ?H None as ds None" and dist: "distinct as" using assms(1) by (simp_all add: list_at_def)
  obtain bs a cs es fs where as: "as = bs @ a # cs" and ds: "ds = es @ d # fs" and len: "length es = length bs"
    and d: "d \<notin> set es" and s1: "segment ?H None bs es (Some a)"
    and it: "?H a = Some \<lparr>li_data = d, li_prev = last_of None bs, li_next = first_of cs None\<rparr>"
    and s2: "segment ?H (Some a) cs fs None"
    using split_at_data [OF seg assms(2)] by blast
  have dis: "a \<notin> set bs" "a \<notin> set cs" "set bs \<inter> set cs = {}" "distinct bs" "distinct cs"
    using dist as by auto
  have f: "list_item_find h l d = Some (Some a)"
    using list_find_at [OF assms(1)] by (simp add: as ds find_first [OF len d])
  obtain h1 where h1: "(case last_of None bs of None \<Rightarrow> Some h
      | Some b \<Rightarrow> item_update h b (\<lambda>p. p\<lparr>li_next := first_of cs None\<rparr>)) = Some h1"
    and n1: "segment (lh_items h1) None bs es (first_of cs None)" and e1: "same_elsewhere (set bs) h h1"
    using relink_next [OF s1 dis(4)] by blast
  have it1: "lh_items h1 a = ?H a" using e1 dis by (simp add: same_elsewhere_def)
  have "segment (lh_items h1) (Some a) cs fs None = segment ?H (Some a) cs fs None"
    using e1 dis by (intro segment_cong) (auto simp: same_elsewhere_def)
  with s2 have s2': "segment (lh_items h1) (Some a) cs fs None" by simp
  obtain h2 where h2: "(case first_of cs None of None \<Rightarrow> Some h1
      | Some b \<Rightarrow> item_update h1 b (\<lambda>p. p\<lparr>li_prev := last_of None bs\<rparr>)) = Some h2"
    and n2: "segment (lh_items h2) (last_of None bs) cs fs None" and e2: "same_elsewhere (set cs) h1 h2"
    using relink_prev [OF s2' dis(5)] by blast
  have it2: "lh_items h2 a = ?H a" using e2 it1 dis by (simp add: same_elsewhere_def)
  have "segment (lh_items h2) None bs es (first_of cs None) = segment (lh_items h1) None bs es (first_of cs None)"
    using e2 dis by (intro segment_cong) (auto simp: same_elsewhere_def)
  with n1 n2 have n: "segment (lh_items h2) None (bs @ cs) (es @ fs) None" by (simp add: segment_append [OF len])
  let ?h = "h2\<lparr>lh_items := (lh_items h2)(a := None)\<rparr>"
  let ?l = "l\<lparr>l_head := first_of (bs @ cs) None, l_tail := last_of None (bs @ cs), l_count := l_count l - 1\<rparr>"
  have "l_head l = first_of bs (Some a)" "l_tail l = last_of (Some a) cs"
    using assms(1) as by (simp_all add: list_at_def)
  note ends = unlink_ends [OF this dis(1,2)]
  let ?k = "if l_head l = Some a then l\<lparr>l_head := first_of cs None\<rparr> else l"
  let ?m = "if l_tail ?k = Some a then ?k\<lparr>l_tail := last_of None bs\<rparr> else ?k"
  have "list_remove h l d = Some (d, ?h, ?m\<lparr>l_count := l_count ?m - 1\<rparr>)"
    using h1 h2 by (simp add: list_remove_def item_free_def f it it1 it2 Let_def cong: option.case_cong)
  then have "list_remove h l d = Some (d, ?h, ?l)" unfolding ends by simp
  moreover have "heap_fresh ?h"
    using assms(1) e1 e2 by (auto simp: list_at_def same_elsewhere_def heap_fresh_def)
  then have "list_at R ?h ?l (bs @ cs) (remove1 d ds)"
    using assms(1) n dis ds d e1 e2
    by (auto simp: list_at_def as remove1_append same_elsewhere_def)
  ultimately show ?thesis by blast
qed

text \<open>The element behind the first occurrence.\<close>

definition after :: "nat option \<Rightarrow> nat option list \<Rightarrow> nat option" where
  "after d ds = (case dropWhile (\<lambda>e. e \<noteq> d) ds of _ # e # _ \<Rightarrow> e | _ \<Rightarrow> None)"

lemma after_split: "d \<notin> set es \<Longrightarrow> after d (es @ d # fs) = (case fs of [] \<Rightarrow> None | e # _ \<Rightarrow> e)"
  by (induction es) (auto simp: after_def split: list.split)

lemma after_absent: "d \<notin> set ds \<Longrightarrow> after d ds = None"
  by (induction ds) (auto simp: after_def)

lemma list_next_at:
  assumes "list_at R h l as ds"
  shows "list_next h l d = Some (after d ds)"
proof (cases "d \<in> set ds")
  case True
  have seg: "segment (lh_items h) None as ds None" using assms by (simp add: list_at_def)
  obtain bs a cs es fs where as: "as = bs @ a # cs" and ds: "ds = es @ d # fs" and len: "length es = length bs"
    and d: "d \<notin> set es" and s1: "segment (lh_items h) None bs es (Some a)"
    and it: "lh_items h a = Some \<lparr>li_data = d, li_prev = last_of None bs, li_next = first_of cs None\<rparr>"
    and s2: "segment (lh_items h) (Some a) cs fs None"
    using split_at_data [OF seg True] by blast
  have "list_item_find h l d = Some (Some a)"
    using list_find_at [OF assms] by (simp add: as ds find_first [OF len d])
  moreover have "after d ds = (case fs of [] \<Rightarrow> None | e # _ \<Rightarrow> e)"
    unfolding ds by (rule after_split [OF d])
  ultimately show ?thesis using it s2 by (cases cs; cases fs) (simp_all add: list_next_def)
qed (simp add: list_next_def list_find_at [OF assms] find_none after_absent)

section \<open>Refinement\<close>

datatype list_op = Enqueue "nat option" | Dequeue | Peek | Next "nat option" | Remove "nat option" | Size

datatype list_answer = Done | Data "nat option" | Count int

definition list_step :: "list_heap \<times> LIST \<Rightarrow> list_op \<Rightarrow> (list_answer \<times> list_heap \<times> LIST) option" where
  "list_step s x = (case x of
     Enqueue d \<Rightarrow> map_option (Pair Done) (list_enqueue (fst s) (snd s) d)
   | Dequeue \<Rightarrow> map_option (\<lambda>(d, s). (Data d, s)) (list_dequeue (fst s) (snd s))
   | Peek \<Rightarrow> map_option (\<lambda>d. (Data d, s)) (list_peek (fst s) (snd s))
   | Next d \<Rightarrow> map_option (\<lambda>d. (Data d, s)) (list_next (fst s) (snd s) d)
   | Remove d \<Rightarrow> map_option (\<lambda>(d, s). (Data d, s)) (list_remove (fst s) (snd s) d)
   | Size \<Rightarrow> Some (Count (list_size (snd s)), s))"

fun seq_step :: "nat option list \<Rightarrow> list_op \<Rightarrow> list_answer \<times> nat option list" where
  "seq_step ds (Enqueue d) = (Done, ds @ [d])"
| "seq_step [] Dequeue = (Data None, [])"
| "seq_step (d # ds) Dequeue = (Data d, ds)"
| "seq_step ds Peek = (Data (case ds of [] \<Rightarrow> None | d # _ \<Rightarrow> d), ds)"
| "seq_step ds (Next d) = (Data (after d ds), ds)"
| "seq_step ds (Remove d) = (Data (if d \<in> set ds then d else None), remove1 d ds)"
| "seq_step ds Size = (Count (int (length ds)), ds)"

lemma list_step_at:
  assumes at: "list_at R h l as ds"
  shows "\<exists>s'. list_step (h, l) x = Some (fst (seq_step ds x), s') \<and> list_rel R s' (snd (seq_step ds x))"
proof (cases x)
  case (Enqueue d)
  then show ?thesis using list_enqueue_at [OF at, of d] by (auto simp: list_step_def intro: list_relI)
next
  case Dequeue
  show ?thesis
  proof (cases ds)
    case Nil
    then have "as = []" using at by (cases as) (auto simp: list_at_def segment_Cons)
    then have "l_head l = None" using at by (simp add: list_at_def)
    with Nil Dequeue show ?thesis using list_relI [OF at] by (simp add: list_step_def list_dequeue_def)
  next
    case (Cons d es)
    then obtain a bs where "as = a # bs" using at by (cases as) (auto simp: list_at_def)
    with Cons Dequeue show ?thesis
      using list_dequeue_at [of R h l a bs d es] at by (auto simp: list_step_def intro: list_relI)
  qed
next
  case Peek
  have "list_peek h l = Some (case ds of [] \<Rightarrow> None | d # _ \<Rightarrow> d)"
    using at by (cases as; cases ds) (auto simp: list_at_def list_peek_def segment_Cons)
  with Peek show ?thesis using list_relI [OF at] by (simp add: list_step_def)
next
  case (Next d)
  with at show ?thesis using list_relI [OF at] by (simp add: list_step_def list_next_at)
next
  case (Remove d)
  show ?thesis
  proof (cases "d \<in> set ds")
    case True
    then show ?thesis using list_remove_at [OF at True] Remove by (auto simp: list_step_def intro: list_relI)
  next
    case False
    then have "list_remove h l d = Some (None, h, l)"
      by (simp add: list_remove_def list_find_at [OF at] find_none)
    with False Remove show ?thesis using list_relI [OF at] by (simp add: list_step_def remove1_idem)
  qed
next
  case Size
  have "list_size l = int (length ds)"
    using at segment_length [of "lh_items h" None as ds None] by (simp add: list_at_def list_size_def)
  with Size show ?thesis using list_relI [OF at] by (simp add: list_step_def)
qed

lemma list_step_refines:
  assumes "list_rel R s ds"
  shows "\<exists>s'. list_step s x = Some (fst (seq_step ds x), s') \<and> list_rel R s' (snd (seq_step ds x))"
proof -
  from assms obtain h l as where "s = (h, l)" "list_at R h l as ds" by (rule list_relE)
  then show ?thesis using list_step_at [of R h l as ds x] by (simp only:)
qed

interpretation linked: refinement "list_rel R" list_step seq_step for R
  by unfold_locales (rule list_step_refines)

text \<open>
  C8: the doubly linked list implements a sequence. Starting from \<open>list_new\<close>, every sequence of
  enqueue, dequeue, peek, next, remove and size calls runs without touching memory that is not live
  and gives the answers of the operations on sequences; \<open>list_free\<close> then returns, and leaves the heap
  exactly as it was: all items are freed, each once, and nothing else was changed.
\<close>

theorem list_refines_sequence:
  assumes "\<forall>a. lh_items h a \<noteq> None \<longrightarrow> a < lh_free h"
  shows "\<exists>h' l' h''. run_ops list_step (h, list_new) ops = Some (fst (run_spec seq_step [] ops), (h', l'))
    \<and> l_count l' = int (length (snd (run_spec seq_step [] ops)))
    \<and> list_free h' l' = Some h'' \<and> lh_items h'' = lh_items h"
proof -
  have "list_rel (lh_items h) (h, list_new) []"
    using assms by (intro list_relI [OF list_new_at]) (auto simp: heap_fresh_def)
  then obtain s where r: "run_ops list_step (h, list_new) ops = Some (fst (run_spec seq_step [] ops), s)"
    and s: "list_rel (lh_items h) s (snd (run_spec seq_step [] ops))"
    using linked.run_refines by blast
  from s obtain h' l' as where s': "s = (h', l')" and at: "list_at (lh_items h) h' l' as (snd (run_spec seq_step [] ops))"
    by (rule list_relE)
  have "l_count l' = int (length (snd (run_spec seq_step [] ops)))"
    using at segment_length [of "lh_items h'" None as "snd (run_spec seq_step [] ops)" None] by (simp add: list_at_def)
  with r s' list_free_at [OF at] show ?thesis by blast
qed

theorem list_refines_sequence_witness:
  "\<exists>h' l' h''. run_ops list_step (\<lparr>lh_items = [7 \<mapsto> \<lparr>li_data = Some 0, li_prev = None, li_next = None\<rparr>], lh_free = 8\<rparr>, list_new)
      [Enqueue (Some 10), Enqueue (Some 20), Enqueue (Some 10), Next (Some 10), Remove (Some 20), Size, Dequeue, Next (Some 10)]
    = Some ([Done, Done, Done, Data (Some 20), Data (Some 20), Count 2, Data (Some 10), Data None], (h', l'))
    \<and> list_free h' l' = Some h'' \<and> lh_items h'' = [7 \<mapsto> \<lparr>li_data = Some 0, li_prev = None, li_next = None\<rparr>]"
proof -
  let ?h = "\<lparr>lh_items = [7 \<mapsto> \<lparr>li_data = Some 0, li_prev = None, li_next = None\<rparr>], lh_free = 8\<rparr>"
  let ?ops = "[Enqueue (Some 10), Enqueue (Some 20), Enqueue (Some 10), Next (Some 10), Remove (Some 20), Size, Dequeue,
    Next (Some 10)]"
  have "\<forall>a. lh_items ?h a \<noteq> None \<longrightarrow> a < lh_free ?h" by simp
  from list_refines_sequence [OF this, of ?ops] obtain h' l' h'' where
    "run_ops list_step (?h, list_new) ?ops = Some (fst (run_spec seq_step [] ?ops), (h', l'))"
    "list_free h' l' = Some h''" "lh_items h'' = lh_items ?h" by blast
  moreover have "fst (run_spec seq_step [] ?ops)
      = [Done, Done, Done, Data (Some 20), Data (Some 20), Count 2, Data (Some 10), Data None]"
    by (simp add: after_def)
  ultimately show ?thesis by (intro exI [of _ h'] exI [of _ l'] exI [of _ h'']) (simp only: list_heap.simps)
qed

end
