(* ===== verification/Rfx_Bitstream.thy ===== *)
theory Rfx_Bitstream
  imports Prelude
begin

text \<open>
  The bit stream of the RemoteFX codec: \<^verbatim>\<open>libfreerdp-codec/rfx_bitstream.h\<close>. Bits are read and written
  from the most significant end of each byte. The counters, which the code never lets become
  negative, are natural numbers; an access outside the buffer is a fault.
\<close>

section \<open>Operations\<close>

record RFX_BITSTREAM =
  bs_buffer :: "u8 list"
  bs_nbytes :: nat
  bs_byte_pos :: nat
  bs_bits_left :: nat

definition rfx_bitstream_attach :: "u8 list \<Rightarrow> nat \<Rightarrow> RFX_BITSTREAM" where
  "rfx_bitstream_attach buffer nbytes =
     \<lparr>bs_buffer = buffer, bs_nbytes = nbytes, bs_byte_pos = 0, bs_bits_left = 8\<rparr>"

definition bitstream_advance :: "RFX_BITSTREAM \<Rightarrow> nat \<Rightarrow> RFX_BITSTREAM" where
  "bitstream_advance bs b =
     (if bs_bits_left bs - b = 0 then bs\<lparr>bs_bits_left := 8, bs_byte_pos := bs_byte_pos bs + 1\<rparr>
      else bs\<lparr>bs_bits_left := bs_bits_left bs - b\<rparr>)"

partial_function (option) get_bits_loop :: "RFX_BITSTREAM \<Rightarrow> nat \<Rightarrow> u16 \<Rightarrow> (u16 \<times> RFX_BITSTREAM) option" where
  "get_bits_loop bs nbits n =
     (if bs_byte_pos bs < bs_nbytes bs \<and> 0 < nbits then
        let b = (if nbits > bs_bits_left bs then bs_bits_left bs else nbits);
            n = (if n \<noteq> 0 then push_bit b n else n)
        in if bs_byte_pos bs < length (bs_buffer bs) then
             get_bits_loop (bitstream_advance bs b) (nbits - b)
               (n OR (ucast (drop_bit (bs_bits_left bs - b) (bs_buffer bs ! bs_byte_pos bs)) AND mask b))
           else None
      else Some (n, bs))"

definition rfx_bitstream_get_bits :: "RFX_BITSTREAM \<Rightarrow> nat \<Rightarrow> (u16 \<times> RFX_BITSTREAM) option" where
  "rfx_bitstream_get_bits bs nbits = get_bits_loop bs nbits 0"

definition put_bits_byte :: "u8 \<Rightarrow> nat \<Rightarrow> nat \<Rightarrow> u16 \<Rightarrow> u8" where
  "put_bits_byte x left b v =
     (x AND NOT (push_bit (left - b) (mask b))) OR push_bit (left - b) (ucast (v AND mask b))"

partial_function (option) put_bits_loop :: "RFX_BITSTREAM \<Rightarrow> u16 \<Rightarrow> nat \<Rightarrow> RFX_BITSTREAM option" where
  "put_bits_loop bs bits nbits =
     (if bs_byte_pos bs < bs_nbytes bs \<and> 0 < nbits then
        let b = (if nbits > bs_bits_left bs then bs_bits_left bs else nbits)
        in if bs_byte_pos bs < length (bs_buffer bs) then
             put_bits_loop
               (bitstream_advance
                 (bs\<lparr>bs_buffer := (bs_buffer bs)[bs_byte_pos bs :=
                    put_bits_byte (bs_buffer bs ! bs_byte_pos bs) (bs_bits_left bs) b (drop_bit (nbits - b) bits)]\<rparr>) b)
               bits (nbits - b)
           else None
      else Some bs)"

definition rfx_bitstream_put_bits :: "RFX_BITSTREAM \<Rightarrow> u16 \<Rightarrow> nat \<Rightarrow> RFX_BITSTREAM option" where
  "rfx_bitstream_put_bits bs bits nbits = put_bits_loop bs bits nbits"

definition rfx_bitstream_eos :: "RFX_BITSTREAM \<Rightarrow> bool" where
  "rfx_bitstream_eos bs \<longleftrightarrow> bs_byte_pos bs \<ge> bs_nbytes bs"

definition rfx_bitstream_left :: "RFX_BITSTREAM \<Rightarrow> nat" where
  "rfx_bitstream_left bs = (if bs_byte_pos bs \<ge> bs_nbytes bs then 0
     else (bs_nbytes bs - bs_byte_pos bs - 1) * 8 + bs_bits_left bs)"

definition rfx_bitstream_get_processed_bytes :: "RFX_BITSTREAM \<Rightarrow> nat" where
  "rfx_bitstream_get_processed_bytes bs =
     (if bs_bits_left bs < 8 then bs_byte_pos bs + 1 else bs_byte_pos bs)"

section \<open>Bit lists\<close>

text \<open>The low \<open>n\<close> bits of a word, most significant first, and back.\<close>

definition bits_of :: "nat \<Rightarrow> 'a::len word \<Rightarrow> bool list" where
  "bits_of n w = rev (map (bit w) [0..<n])"

definition word_of_bits :: "bool list \<Rightarrow> 'a::len word" where
  "word_of_bits bs = horner_sum of_bool 2 (rev bs)"

lemma length_bits_of [simp]: "length (bits_of n w) = n"
  by (simp add: bits_of_def)

lemma bits_of_0 [simp]: "bits_of 0 w = []"
  by (simp add: bits_of_def)

lemma word_of_bits_of: "word_of_bits (bits_of n w) = take_bit n w"
  by (simp add: word_of_bits_def bits_of_def horner_sum_bit_eq_take_bit)

lemma bits_of_split: "bits_of (m + n) w = bits_of m (drop_bit n w) @ bits_of n w"
  by (rule nth_equalityI) (auto simp: bits_of_def nth_append rev_nth bit_drop_bit_eq add.commute)

lemma bits_of_take_bit [simp]: "n \<le> m \<Longrightarrow> bits_of n (take_bit m w) = bits_of n w"
  by (auto simp: bits_of_def bit_take_bit_iff)

lemma bit_word_of_bits [bit_simps]:
  "bit (word_of_bits bs :: 'a::len word) i \<longleftrightarrow> i < LENGTH('a) \<and> i < length bs \<and> bs ! (length bs - Suc i)"
  by (auto simp: word_of_bits_def bit_horner_sum_bit_word_iff rev_nth)

lemma word_of_bits_append:
  "word_of_bits (as @ bs) = push_bit (length bs) (word_of_bits as) OR word_of_bits bs"
  by (rule bit_word_eqI) (auto simp: bit_simps nth_append not_less)

lemma drop_bits_of [simp]: "drop k (bits_of n w) = bits_of (n - k) w"
proof (cases "k \<le> n")
  case True
  then have "bits_of n w = bits_of k (drop_bit (n - k) w) @ bits_of (n - k) w"
    using bits_of_split [of k "n - k" w] by simp
  then show ?thesis by simp
qed simp

lemma bits_of_ucast: "n \<le> LENGTH('b) \<Longrightarrow> bits_of n (ucast (w :: 'a::len word) :: 'b::len word) = bits_of n w"
  by (auto simp: bits_of_def bit_simps)

text \<open>All the bits of a buffer, and the position of a stream in them.\<close>

definition buffer_bits :: "u8 list \<Rightarrow> bool list" where
  "buffer_bits buf = concat (map (bits_of 8) buf)"

definition bit_pos :: "RFX_BITSTREAM \<Rightarrow> nat" where
  "bit_pos bs = 8 * bs_byte_pos bs + (8 - bs_bits_left bs)"

definition bitstream_ok :: "RFX_BITSTREAM \<Rightarrow> bool" where
  "bitstream_ok bs \<longleftrightarrow> bs_nbytes bs = length (bs_buffer bs) \<and> 0 < bs_bits_left bs \<and> bs_bits_left bs \<le> 8
    \<and> bit_pos bs \<le> 8 * length (bs_buffer bs)"

lemma buffer_bits_simps [simp]:
  "buffer_bits [] = []" "buffer_bits (x # xs) = bits_of 8 x @ buffer_bits xs"
  "buffer_bits (xs @ ys) = buffer_bits xs @ buffer_bits ys"
  by (simp_all add: buffer_bits_def)

lemma length_buffer_bits [simp]: "length (buffer_bits xs) = 8 * length xs"
  by (induction xs) simp_all

lemma bitstream_ok_attach: "bitstream_ok (rfx_bitstream_attach buf (length buf))"
  by (simp add: bitstream_ok_def rfx_bitstream_attach_def bit_pos_def)

section \<open>Reading\<close>

definition remaining :: "RFX_BITSTREAM \<Rightarrow> bool list" where
  "remaining bs = drop (bit_pos bs) (buffer_bits (bs_buffer bs))"

lemma eos_iff: "bitstream_ok bs \<Longrightarrow> rfx_bitstream_eos bs \<longleftrightarrow> bit_pos bs = 8 * length (bs_buffer bs)"
  by (auto simp: bitstream_ok_def rfx_bitstream_eos_def bit_pos_def)

lemma length_remaining: "length (remaining bs) = 8 * length (bs_buffer bs) - bit_pos bs"
  by (simp add: remaining_def)

lemma eos_remaining: "bitstream_ok bs \<Longrightarrow> rfx_bitstream_eos bs \<longleftrightarrow> remaining bs = []"
  by (auto simp: eos_iff remaining_def bitstream_ok_def)

lemma buffer_bits_split:
  "i < length buf \<Longrightarrow> buffer_bits buf = buffer_bits (take i buf) @ bits_of 8 (buf ! i) @ buffer_bits (drop (Suc i) buf)"
  by (metis append_Cons append_Nil buffer_bits_simps(2,3) id_take_nth_drop)

lemma remaining_byte:
  assumes "bitstream_ok bs" and "bs_byte_pos bs < length (bs_buffer bs)"
  shows "remaining bs = bits_of (bs_bits_left bs) (bs_buffer bs ! bs_byte_pos bs)
    @ buffer_bits (drop (Suc (bs_byte_pos bs)) (bs_buffer bs))"
proof -
  have "bit_pos bs = 8 * bs_byte_pos bs + (8 - bs_bits_left bs)" by (simp add: bit_pos_def)
  moreover have "8 - (8 - bs_bits_left bs) = bs_bits_left bs" using assms(1) by (simp add: bitstream_ok_def)
  ultimately show ?thesis
    using assms(2) by (simp add: remaining_def buffer_bits_split [OF assms(2)] del: diff_diff_left)
qed

lemma advance_step:
  assumes "bitstream_ok bs" and "bs_byte_pos bs < length (bs_buffer bs)" and "0 < b" and "b \<le> bs_bits_left bs"
  shows "bitstream_ok (bitstream_advance bs b)" and "bs_buffer (bitstream_advance bs b) = bs_buffer bs"
    and "bit_pos (bitstream_advance bs b) = bit_pos bs + b"
    and "remaining bs = bits_of b (drop_bit (bs_bits_left bs - b) (bs_buffer bs ! bs_byte_pos bs))
      @ remaining (bitstream_advance bs b)"
proof -
  show pos: "bit_pos (bitstream_advance bs b) = bit_pos bs + b"
    using assms by (auto simp: bitstream_ok_def bitstream_advance_def bit_pos_def)
  show buf: "bs_buffer (bitstream_advance bs b) = bs_buffer bs"
    by (simp add: bitstream_advance_def)
  have "bit_pos bs + b \<le> 8 * length (bs_buffer bs)"
    using assms by (auto simp: bitstream_ok_def bit_pos_def)
  then show "bitstream_ok (bitstream_advance bs b)"
    using assms pos by (auto simp: bitstream_ok_def buf) (auto simp: bitstream_advance_def)
  have "take b (remaining bs) = bits_of b (drop_bit (bs_bits_left bs - b) (bs_buffer bs ! bs_byte_pos bs))"
    using assms bits_of_split [of b "bs_bits_left bs - b" "bs_buffer bs ! bs_byte_pos bs"]
    by (simp add: remaining_byte)
  moreover have "drop b (remaining bs) = remaining (bitstream_advance bs b)"
    by (simp add: remaining_def pos buf add.commute)
  ultimately show "remaining bs = bits_of b (drop_bit (bs_bits_left bs - b) (bs_buffer bs ! bs_byte_pos bs))
      @ remaining (bitstream_advance bs b)"
    by (metis append_take_drop_id)
qed

lemma get_bits_loop_reads:
  assumes "bitstream_ok bs"
  shows "\<exists>bs'. get_bits_loop bs k n
      = Some (push_bit (min k (length (remaining bs))) n OR word_of_bits (take k (remaining bs)), bs')
    \<and> bitstream_ok bs' \<and> bs_buffer bs' = bs_buffer bs \<and> remaining bs' = drop k (remaining bs)"
  using assms
proof (induction k arbitrary: bs n rule: less_induct)
  case (less k)
  show ?case
  proof (cases "bs_byte_pos bs < bs_nbytes bs \<and> 0 < k")
    case False
    then have "remaining bs = [] \<or> k = 0" using less.prems by (auto simp: eos_remaining [symmetric] rfx_bitstream_eos_def)
    then show ?thesis using False less.prems by (subst get_bits_loop.simps) (auto simp: word_of_bits_def)
  next
    case True
    define b where b_def: "b = (if k > bs_bits_left bs then bs_bits_left bs else k)"
    let ?c = "bits_of b (drop_bit (bs_bits_left bs - b) (bs_buffer bs ! bs_byte_pos bs))"
    have pos: "bs_byte_pos bs < length (bs_buffer bs)" and b: "0 < b" "b \<le> bs_bits_left bs" "b \<le> k" "b \<le> 8"
      using True less.prems by (auto simp: bitstream_ok_def b_def)
    note s = advance_step [OF less.prems pos b(1,2)]
    have w: "ucast (drop_bit (bs_bits_left bs - b) (bs_buffer bs ! bs_byte_pos bs)) AND mask b = (word_of_bits ?c :: u16)"
      using b(4) word_of_bits_of [of b "ucast (drop_bit (bs_bits_left bs - b) (bs_buffer bs ! bs_byte_pos bs)) :: u16"]
      by (simp add: take_bit_eq_mask bits_of_ucast)
    let ?n = "push_bit b n OR word_of_bits ?c"
    have step: "get_bits_loop bs k n = get_bits_loop (bitstream_advance bs b) (k - b) ?n"
      using True pos w by (subst get_bits_loop.simps) (auto simp: Let_def b_def)
    obtain bs' where r: "get_bits_loop (bitstream_advance bs b) (k - b) ?n
        = Some (push_bit (min (k - b) (length (remaining (bitstream_advance bs b)))) ?n
            OR word_of_bits (take (k - b) (remaining (bitstream_advance bs b))), bs')"
      and ok: "bitstream_ok bs'" "bs_buffer bs' = bs_buffer (bitstream_advance bs b)"
        "remaining bs' = drop (k - b) (remaining (bitstream_advance bs b))"
      using less.IH [OF _ s(1), of "k - b" ?n] b by (meson diff_less order.strict_trans2)
    let ?R = "remaining (bitstream_advance bs b)"
    have R: "remaining bs = ?c @ ?R" by (rule s(4))
    have m: "min k (length (remaining bs)) = b + min (k - b) (length ?R)"
      using b by (auto simp: R min_def)
    have "push_bit (min (k - b) (length ?R)) ?n OR word_of_bits (take (k - b) ?R)
        = push_bit (min k (length (remaining bs))) n OR word_of_bits (take k (remaining bs))"
      unfolding m using b by (simp add: R word_of_bits_append push_bit_or or.assoc add.commute min.commute)
    then show ?thesis using step r ok s(2) R b by (intro exI [of _ bs']) simp
  qed
qed

text \<open>Reading a field of at most 16 bits that is there.\<close>

lemma get_bits_field:
  assumes "bitstream_ok bs" and "remaining bs = bits_of k w @ rest"
  shows "\<exists>bs'. rfx_bitstream_get_bits bs k = Some (take_bit k w, bs') \<and> bitstream_ok bs' \<and> remaining bs' = rest
    \<and> bs_buffer bs' = bs_buffer bs"
  using get_bits_loop_reads [OF assms(1), of k 0] assms(2)
  by (auto simp: rfx_bitstream_get_bits_def word_of_bits_of)

lemma get_bits_any:
  assumes "bitstream_ok bs"
  shows "\<exists>r bs'. rfx_bitstream_get_bits bs k = Some (r, bs') \<and> bitstream_ok bs' \<and> bs_buffer bs' = bs_buffer bs
    \<and> remaining bs' = drop k (remaining bs)"
  using get_bits_loop_reads [OF assms, of k 0] by (auto simp: rfx_bitstream_get_bits_def)

lemma get_bit:
  assumes "bitstream_ok bs" and "remaining bs = b # rest"
  shows "\<exists>bs'. rfx_bitstream_get_bits bs 1 = Some (of_bool b, bs') \<and> bitstream_ok bs' \<and> remaining bs' = rest
    \<and> bs_buffer bs' = bs_buffer bs"
  using get_bits_loop_reads [OF assms(1), of 1 0] assms(2)
  by (auto simp: rfx_bitstream_get_bits_def word_of_bits_def)

section \<open>Writing\<close>

definition written :: "RFX_BITSTREAM \<Rightarrow> bool list" where
  "written bs = take (bit_pos bs) (buffer_bits (bs_buffer bs))"

lemma put_bits_byte_bits:
  assumes "b \<le> left" and "left \<le> 8"
  shows "bits_of 8 (put_bits_byte x left b v) = take (8 - left) (bits_of 8 x) @ bits_of b v @ bits_of (left - b) x"
  using assms
  by (intro nth_equalityI) (auto simp: bits_of_def rev_nth nth_append put_bits_byte_def bit_simps)

lemma put_step:
  fixes v :: u16
  assumes "bitstream_ok bs" and "bs_byte_pos bs < length (bs_buffer bs)" and "0 < b" and "b \<le> bs_bits_left bs"
  defines "bs1 \<equiv> bs\<lparr>bs_buffer := (bs_buffer bs)[bs_byte_pos bs :=
      put_bits_byte (bs_buffer bs ! bs_byte_pos bs) (bs_bits_left bs) b v]\<rparr>"
  shows "bitstream_ok (bitstream_advance bs1 b)" and "length (bs_buffer (bitstream_advance bs1 b)) = length (bs_buffer bs)"
    and "written (bitstream_advance bs1 b) = written bs @ bits_of b v"
proof -
  let ?i = "bs_byte_pos bs" and ?buf = "bs_buffer bs" and ?l = "bs_bits_left bs"
  have l: "?l \<le> 8" using assms(1) by (simp add: bitstream_ok_def)
  have ok1: "bitstream_ok bs1" and i1: "bs_byte_pos bs1 < length (bs_buffer bs1)" and b1: "b \<le> bs_bits_left bs1"
    using assms by (simp_all add: bs1_def bitstream_ok_def bit_pos_def)
  note s = advance_step [OF ok1 i1 assms(3) b1]
  show "bitstream_ok (bitstream_advance bs1 b)" by (rule s(1))
  show "length (bs_buffer (bitstream_advance bs1 b)) = length ?buf" by (simp add: s(2)) (simp add: bs1_def)
  have pos: "bit_pos bs1 = 8 * ?i + (8 - ?l)" "bit_pos bs = 8 * ?i + (8 - ?l)" by (simp_all add: bit_pos_def bs1_def)
  have "buffer_bits (bs_buffer bs1) = buffer_bits (take ?i ?buf)
      @ (take (8 - ?l) (bits_of 8 (?buf ! ?i)) @ bits_of b v @ bits_of (?l - b) (?buf ! ?i)) @ buffer_bits (drop (Suc ?i) ?buf)"
    using assms(2) by (simp add: bs1_def upd_conv_take_nth_drop put_bits_byte_bits [OF assms(4) l])
  then have "written (bitstream_advance bs1 b)
      = buffer_bits (take ?i ?buf) @ take (8 - ?l) (bits_of 8 (?buf ! ?i)) @ bits_of b v"
    using assms(2) l by (simp add: written_def s(2,3) pos(1))
  moreover have "written bs = buffer_bits (take ?i ?buf) @ take (8 - ?l) (bits_of 8 (?buf ! ?i))"
    using assms(2) by (simp add: written_def buffer_bits_split [OF assms(2)] pos(2))
  ultimately show "written (bitstream_advance bs1 b) = written bs @ bits_of b v" by simp
qed

lemma length_written: "bitstream_ok bs \<Longrightarrow> length (written bs) = bit_pos bs"
  by (simp add: written_def bitstream_ok_def)

lemma put_bits_writes:
  assumes "bitstream_ok bs"
  shows "\<exists>bs'. rfx_bitstream_put_bits bs w k = Some bs' \<and> bitstream_ok bs'
    \<and> length (bs_buffer bs') = length (bs_buffer bs)
    \<and> written bs' = take (8 * length (bs_buffer bs)) (written bs @ bits_of k w)"
  unfolding rfx_bitstream_put_bits_def using assms
proof (induction k arbitrary: bs rule: less_induct)
  case (less k)
  have le: "length (written bs) \<le> 8 * length (bs_buffer bs)"
    using less.prems by (simp add: length_written) (simp add: bitstream_ok_def)
  show ?case
  proof (cases "bs_byte_pos bs < bs_nbytes bs \<and> 0 < k")
    case False
    then have "length (written bs) = 8 * length (bs_buffer bs) \<or> k = 0"
      using less.prems by (auto simp: length_written eos_iff [symmetric] rfx_bitstream_eos_def)
    then show ?thesis using False less.prems le by (subst put_bits_loop.simps) auto
  next
    case True
    define b where b_def: "b = (if k > bs_bits_left bs then bs_bits_left bs else k)"
    have pos: "bs_byte_pos bs < length (bs_buffer bs)" and b: "0 < b" "b \<le> bs_bits_left bs" "b \<le> k"
      using True less.prems by (auto simp: bitstream_ok_def b_def)
    let ?bs = "bitstream_advance (bs\<lparr>bs_buffer := (bs_buffer bs)[bs_byte_pos bs :=
      put_bits_byte (bs_buffer bs ! bs_byte_pos bs) (bs_bits_left bs) b (drop_bit (k - b) w)]\<rparr>) b"
    note s = put_step [OF less.prems pos b(1,2), of "drop_bit (k - b) w"]
    have step: "put_bits_loop bs w k = put_bits_loop ?bs w (k - b)"
      using True pos by (subst put_bits_loop.simps) (auto simp: Let_def b_def)
    obtain bs' where r: "put_bits_loop ?bs w (k - b) = Some bs'"
      and ok: "bitstream_ok bs'" "length (bs_buffer bs') = length (bs_buffer ?bs)"
        "written bs' = take (8 * length (bs_buffer ?bs)) (written ?bs @ bits_of (k - b) w)"
      using less.IH [OF _ s(1), of "k - b"] b by (meson diff_less order.strict_trans2)
    have "bits_of k w = bits_of b (drop_bit (k - b) w) @ bits_of (k - b) w"
      using bits_of_split [of b "k - b" w] b by simp
    then show ?thesis using step r ok s(2,3) by (intro exI [of _ bs']) simp
  qed
qed


section \<open>The representation\<close>

lemma left_remaining: "bitstream_ok bs \<Longrightarrow> rfx_bitstream_left bs = length (remaining bs)"
  by (auto simp: bitstream_ok_def rfx_bitstream_left_def length_remaining bit_pos_def)



end
