(* ===== verification/Rfx_Rlgr.thy ===== *)
theory Rfx_Rlgr
  imports Rfx_Bitstream
begin

text \<open>
  The entropy coder of RemoteFX: \<^verbatim>\<open>libfreerdp-codec/rfx_rlgr.c\<close>. Coefficients are 16-bit words read as
  signed numbers. The output of the decoder is the list of the values written from the start of its
  buffer; \<open>buffer_size\<close>, which runs below zero in the code, is an integer.
\<close>

type_synonym i16 = "16 word"

section \<open>Parameters\<close>

datatype RLGR_MODE = RLGR1 | RLGR3

definition KPMAX :: int where "KPMAX = 80"
definition LSGR :: nat where "LSGR = 3"
definition UP_GR :: int where "UP_GR = 4"
definition DN_GR :: int where "DN_GR = 6"
definition UQ_GR :: int where "UQ_GR = 3"
definition DQ_GR :: int where "DQ_GR = 3"

function GetMinBits :: "u32 \<Rightarrow> nat \<Rightarrow> nat" where
  "GetMinBits v nbits = (if v \<noteq> 0 then GetMinBits (drop_bit 1 v) (nbits + 1) else nbits)"
  by auto
termination
proof (relation "measure (\<lambda>(v, n). unat v)")
  fix v :: u32 and n :: nat
  assume "v \<noteq> 0"
  then have "0 < unat v" by (simp add: unat_gt_0)
  then show "((drop_bit 1 v, n + 1), v, n) \<in> measure (\<lambda>(v, n). unat v)"
    by (simp add: drop_bit_eq_div unat_div_distrib)
qed simp

definition GetIntFrom2MagSign :: "u32 \<Rightarrow> i16" where
  "GetIntFrom2MagSign twoMs =
     (if twoMs AND 1 \<noteq> 0 then - ucast (drop_bit 1 (twoMs + 1)) else ucast (drop_bit 1 twoMs))"

definition Get2MagSign :: "int \<Rightarrow> u32" where
  "Get2MagSign input = word_of_int (if input \<ge> 0 then 2 * input else -2 * input - 1)"

definition UpdateParam :: "int \<Rightarrow> int \<Rightarrow> int \<times> int" where
  "UpdateParam param delta =
     (let param = param + delta;
          param = (if param > KPMAX then KPMAX else param);
          param = (if param < 0 then 0 else param)
      in (param, drop_bit LSGR param))"

section \<open>The decoder\<close>

record rlgr_decoder =
  rd_bs :: RFX_BITSTREAM
  rd_k :: int
  rd_kp :: int
  rd_kr :: int
  rd_krp :: int
  rd_dst :: "i16 list"
  rd_size :: int

definition WriteValue :: "rlgr_decoder \<Rightarrow> i16 \<Rightarrow> rlgr_decoder" where
  "WriteValue d v =
     (if rd_size d > 0 then d\<lparr>rd_dst := rd_dst d @ [v], rd_size := rd_size d - 1\<rparr>
      else d\<lparr>rd_size := rd_size d - 1\<rparr>)"

definition WriteZeroes :: "rlgr_decoder \<Rightarrow> int \<Rightarrow> rlgr_decoder" where
  "WriteZeroes d nZeroes =
     (let nZeroesWritten = (if nZeroes > rd_size d then rd_size d else nZeroes);
          d = (if nZeroesWritten > 0 then d\<lparr>rd_dst := rd_dst d @ replicate (nat nZeroesWritten) 0\<rparr> else d)
      in d\<lparr>rd_size := rd_size d - nZeroes\<rparr>)"

definition update_kp :: "rlgr_decoder \<Rightarrow> int \<Rightarrow> rlgr_decoder" where
  "update_kp d delta = (let (kp, k) = UpdateParam (rd_kp d) delta in d\<lparr>rd_kp := kp, rd_k := k\<rparr>)"

definition update_krp :: "rlgr_decoder \<Rightarrow> int \<Rightarrow> rlgr_decoder" where
  "update_krp d delta = (let (krp, kr) = UpdateParam (rd_krp d) delta in d\<lparr>rd_krp := krp, rd_kr := kr\<rparr>)"

definition GetBits :: "rlgr_decoder \<Rightarrow> int \<Rightarrow> (u16 \<times> rlgr_decoder) option" where
  "GetBits d nBits = do {
     (r, bs) \<leftarrow> rfx_bitstream_get_bits (rd_bs d) (nat nBits);
     Some (r, d\<lparr>rd_bs := bs\<rparr>) }"

text \<open>The leading ones of a Golomb-Rice code, with the zero behind them.\<close>

partial_function (option) count_ones :: "rlgr_decoder \<Rightarrow> int \<Rightarrow> (int \<times> rlgr_decoder) option" where
  "count_ones d vk = Option.bind (GetBits d 1) (\<lambda>(r, d). if r = 1 then count_ones d (vk + 1) else Some (vk, d))"

definition GetGRCode :: "rlgr_decoder \<Rightarrow> (u16 \<times> rlgr_decoder) option" where
  "GetGRCode d = do {
     (vk, d) \<leftarrow> count_ones d 0;
     (mag, d) \<leftarrow> GetBits d (rd_kr d);
     let mag = mag OR word_of_int (push_bit (nat (rd_kr d)) vk);
     let d = (if vk = 0 then update_krp d (-2) else if vk \<noteq> 1 then update_krp d vk else d);
     Some (mag, d) }"

partial_function (option) decode_zero_runs :: "rlgr_decoder \<Rightarrow> rlgr_decoder option" where
  "decode_zero_runs d =
     (if rfx_bitstream_eos (rd_bs d) then Some d
      else Option.bind (GetBits d 1) (\<lambda>(r, d).
        if r \<noteq> 0 then Some d
        else decode_zero_runs (update_kp (WriteZeroes d (push_bit (nat (rd_k d)) 1)) UP_GR)))"

definition decode_rl :: "rlgr_decoder \<Rightarrow> rlgr_decoder option" where
  "decode_rl d = do {
     d \<leftarrow> decode_zero_runs d;
     (run, d) \<leftarrow> GetBits d (rd_k d);
     let d = WriteZeroes d (uint run);
     (sign, d) \<leftarrow> GetBits d 1;
     (mag16, d) \<leftarrow> GetGRCode d;
     let mag = uint mag16 + 1;
     let d = WriteValue d (word_of_int (if sign \<noteq> 0 then - mag else mag));
     Some (update_kp d (- DN_GR)) }"

definition decode_gr :: "RLGR_MODE \<Rightarrow> rlgr_decoder \<Rightarrow> rlgr_decoder option" where
  "decode_gr mode d = do {
     (mag16, d) \<leftarrow> GetGRCode d;
     let mag = (ucast mag16 :: u32);
     (case mode of
        RLGR1 \<Rightarrow>
          if mag = 0 then Some (update_kp (WriteValue d 0) UQ_GR)
          else Some (update_kp (WriteValue d (GetIntFrom2MagSign mag)) (- DQ_GR))
      | RLGR3 \<Rightarrow> do {
          (v, d) \<leftarrow> GetBits d (int (GetMinBits mag 0));
          let val1 = (ucast v :: u32);
          let val2 = mag - val1;
          let d = (if val1 \<noteq> 0 \<and> val2 \<noteq> 0 then update_kp d (-2 * DQ_GR)
                   else if val1 = 0 \<and> val2 = 0 then update_kp d (2 * UQ_GR) else d);
          Some (WriteValue (WriteValue d (GetIntFrom2MagSign val1)) (GetIntFrom2MagSign val2)) }) }"

partial_function (option) rlgr_decode_loop :: "RLGR_MODE \<Rightarrow> rlgr_decoder \<Rightarrow> rlgr_decoder option" where
  "rlgr_decode_loop mode d =
     (if \<not> rfx_bitstream_eos (rd_bs d) \<and> rd_size d > 0
      then Option.bind (if rd_k d \<noteq> 0 then decode_rl d else decode_gr mode d) (\<lambda>d. rlgr_decode_loop mode d)
      else Some d)"

definition rfx_rlgr_decode :: "RLGR_MODE \<Rightarrow> u8 list \<Rightarrow> int \<Rightarrow> i16 list option" where
  "rfx_rlgr_decode mode data buffer_size = do {
     d \<leftarrow> rlgr_decode_loop mode \<lparr>rd_bs = rfx_bitstream_attach data (length data), rd_k = 1, rd_kp = push_bit LSGR 1,
            rd_kr = 1, rd_krp = push_bit LSGR 1, rd_dst = [], rd_size = buffer_size\<rparr>;
     Some (rd_dst d) }"

section \<open>The encoder\<close>

fun GetNextInput :: "i16 list \<Rightarrow> int \<times> i16 list" where
  "GetNextInput [] = (0, [])"
| "GetNextInput (x # xs) = (sint x, xs)"

definition OutputBits :: "RFX_BITSTREAM \<Rightarrow> int \<Rightarrow> u16 \<Rightarrow> RFX_BITSTREAM option" where
  "OutputBits bs numBits bitPattern = rfx_bitstream_put_bits bs bitPattern (nat numBits)"

partial_function (option) OutputBit :: "RFX_BITSTREAM \<Rightarrow> int \<Rightarrow> bool \<Rightarrow> RFX_BITSTREAM option" where
  "OutputBit bs c b =
     (if c > 0 then
        Option.bind (rfx_bitstream_put_bits bs (if b then 0xFFFF else 0) (nat (if c > 16 then 16 else c)))
          (\<lambda>bs. OutputBit bs (c - 16) b)
      else Some bs)"

definition rfx_rlgr_code_gr :: "RFX_BITSTREAM \<Rightarrow> int \<Rightarrow> u32 \<Rightarrow> (int \<times> RFX_BITSTREAM) option" where
  "rfx_rlgr_code_gr bs krp val = do {
     let kr = drop_bit LSGR krp;
     let vk = drop_bit (nat kr) val;
     bs \<leftarrow> OutputBit bs (sint vk) True;
     bs \<leftarrow> OutputBit bs 1 False;
     bs \<leftarrow> (if kr \<noteq> 0 then OutputBits bs kr (ucast (val AND mask (nat kr))) else Some bs);
     let krp = (if vk = 0 then fst (UpdateParam krp (-2)) else if vk > 1 then fst (UpdateParam krp (sint vk)) else krp);
     Some (krp, bs) }"

record rlgr_encoder =
  re_bs :: RFX_BITSTREAM
  re_k :: int
  re_kp :: int
  re_krp :: int

fun collect_zeros :: "int \<Rightarrow> int \<Rightarrow> i16 list \<Rightarrow> int \<times> int \<times> i16 list" where
  "collect_zeros numZeros input [] = (numZeros, input, [])"
| "collect_zeros numZeros input (x # xs) =
     (if input = 0 then collect_zeros (numZeros + 1) (sint x) xs else (numZeros, input, x # xs))"

definition encode_kp :: "rlgr_encoder \<Rightarrow> int \<Rightarrow> rlgr_encoder" where
  "encode_kp e delta = (let (kp, k) = UpdateParam (re_kp e) delta in e\<lparr>re_kp := kp, re_k := k\<rparr>)"

partial_function (option) encode_zero_runs :: "rlgr_encoder \<Rightarrow> int \<Rightarrow> (int \<times> rlgr_encoder) option" where
  "encode_zero_runs e numZeros = (let runmax = push_bit (nat (re_k e)) 1 in
     if numZeros \<ge> runmax then
       Option.bind (OutputBit (re_bs e) 1 False) (\<lambda>bs. encode_zero_runs (encode_kp (e\<lparr>re_bs := bs\<rparr>) UP_GR) (numZeros - runmax))
     else Some (numZeros, e))"

definition encode_rl :: "rlgr_encoder \<Rightarrow> i16 list \<Rightarrow> (rlgr_encoder \<times> i16 list) option" where
  "encode_rl e data = do {
     let (input, data) = GetNextInput data;
     let (numZeros, input, data) = collect_zeros 0 input data;
     (numZeros, e) \<leftarrow> encode_zero_runs e numZeros;
     bs \<leftarrow> OutputBit (re_bs e) 1 True;
     bs \<leftarrow> OutputBits bs (re_k e) (word_of_int numZeros);
     let mag = (if input < 0 then - input else input);
     bs \<leftarrow> OutputBit bs 1 (input < 0);
     (krp, bs) \<leftarrow> rfx_rlgr_code_gr bs (re_krp e) (word_of_int (if mag \<noteq> 0 then mag - 1 else 0));
     Some (encode_kp (e\<lparr>re_bs := bs, re_krp := krp\<rparr>) (- DN_GR), data) }"

definition encode_gr :: "RLGR_MODE \<Rightarrow> rlgr_encoder \<Rightarrow> i16 list \<Rightarrow> (rlgr_encoder \<times> i16 list) option" where
  "encode_gr mode e data = (case mode of
     RLGR1 \<Rightarrow> do {
       let (input, data) = GetNextInput data;
       let twoMs = Get2MagSign input;
       (krp, bs) \<leftarrow> rfx_rlgr_code_gr (re_bs e) (re_krp e) twoMs;
       Some (encode_kp (e\<lparr>re_bs := bs, re_krp := krp\<rparr>) (if twoMs \<noteq> 0 then - DQ_GR else UQ_GR), data) }
   | RLGR3 \<Rightarrow> do {
       let (input, data) = GetNextInput data;
       let twoMs1 = Get2MagSign input;
       let (input, data) = GetNextInput data;
       let twoMs2 = Get2MagSign input;
       let sum2Ms = twoMs1 + twoMs2;
       (krp, bs) \<leftarrow> rfx_rlgr_code_gr (re_bs e) (re_krp e) sum2Ms;
       bs \<leftarrow> OutputBits bs (int (GetMinBits sum2Ms 0)) (ucast twoMs1);
       let e = e\<lparr>re_bs := bs, re_krp := krp\<rparr>;
       Some (if twoMs1 \<noteq> 0 \<and> twoMs2 \<noteq> 0 then encode_kp e (-2 * DQ_GR)
             else if twoMs1 = 0 \<and> twoMs2 = 0 then encode_kp e (2 * UQ_GR) else e, data) })"

partial_function (option) rlgr_encode_loop :: "RLGR_MODE \<Rightarrow> rlgr_encoder \<Rightarrow> i16 list \<Rightarrow> rlgr_encoder option" where
  "rlgr_encode_loop mode e data =
     (if data \<noteq> [] then
        Option.bind (if re_k e \<noteq> 0 then encode_rl e data else encode_gr mode e data)
          (\<lambda>(e, data). rlgr_encode_loop mode e data)
      else Some e)"

definition rfx_rlgr_encode :: "RLGR_MODE \<Rightarrow> i16 list \<Rightarrow> u8 list \<Rightarrow> (nat \<times> u8 list) option" where
  "rfx_rlgr_encode mode data buffer = do {
     e \<leftarrow> rlgr_encode_loop mode \<lparr>re_bs = rfx_bitstream_attach buffer (length buffer), re_k = 1, re_kp = push_bit LSGR 1,
            re_krp = push_bit LSGR 1\<rparr> data;
     Some (rfx_bitstream_get_processed_bytes (re_bs e), bs_buffer (re_bs e)) }"

end
