(* ===== verification/Rfx_Dwt.thy ===== *)
theory Rfx_Dwt
  imports Rfx_Rlgr
begin

text \<open>
  The wavelet transform, the quantization and the differential coding of a RemoteFX tile:
  \<^verbatim>\<open>libfreerdp-codec/rfx_dwt.c\<close>, \<^verbatim>\<open>rfx_quantization.c\<close> and \<^verbatim>\<open>rfx_differential.c\<close>. A pointer into an array is
  the index it points to; a read or write outside the array has the value None. The operands are promoted
  to \<open>int\<close>, and a store takes the low 16 bits.
\<close>

section \<open>Arrays and loops\<close>

definition at16 :: "i16 list \<Rightarrow> nat \<Rightarrow> int option" where
  "at16 xs i = (if i < length xs then Some (sint (xs ! i)) else None)"

definition put16 :: "i16 list \<Rightarrow> nat \<Rightarrow> int \<Rightarrow> i16 list option" where
  "put16 xs i v = (if i < length xs then Some (xs[i := word_of_int v]) else None)"

primrec for_each :: "nat list \<Rightarrow> (nat \<Rightarrow> 's \<Rightarrow> 's option) \<Rightarrow> 's \<Rightarrow> 's option" where
  "for_each [] f s = Some s"
| "for_each (n # ns) f s = Option.bind (f n s) (for_each ns f)"

section \<open>Inverse transform\<close>

text \<open>Even, odd and last odd element of a row at \<open>dst\<close> from the low band at \<open>lo\<close> and the high band at \<open>hi\<close>.\<close>

definition idwt_even :: "i16 list \<Rightarrow> nat \<Rightarrow> nat \<Rightarrow> nat \<Rightarrow> nat \<Rightarrow> i16 list \<Rightarrow> i16 list option" where
  "idwt_even buffer lo hi dst n d = do {
     l \<leftarrow> at16 buffer (lo + n);
     a \<leftarrow> at16 buffer (hi + (n - 1));
     b \<leftarrow> at16 buffer (hi + n);
     put16 d (dst + 2 * n) (l - drop_bit 1 (a + b + 1)) }"

definition idwt_odd :: "i16 list \<Rightarrow> nat \<Rightarrow> nat \<Rightarrow> nat \<Rightarrow> i16 list \<Rightarrow> i16 list option" where
  "idwt_odd buffer hi dst n d = do {
     h \<leftarrow> at16 buffer (hi + n);
     a \<leftarrow> at16 d (dst + 2 * n);
     b \<leftarrow> at16 d (dst + 2 * n + 2);
     put16 d (dst + 2 * n + 1) (push_bit 1 h + drop_bit 1 (a + b)) }"

definition idwt_last :: "i16 list \<Rightarrow> nat \<Rightarrow> nat \<Rightarrow> nat \<Rightarrow> i16 list \<Rightarrow> i16 list option" where
  "idwt_last buffer hi dst n d = do {
     h \<leftarrow> at16 buffer (hi + n);
     a \<leftarrow> at16 d (dst + 2 * n);
     put16 d (dst + 2 * n + 1) (push_bit 1 h + a) }"

definition idwt_row :: "i16 list \<Rightarrow> nat \<Rightarrow> nat \<Rightarrow> nat \<Rightarrow> i16 list \<Rightarrow> i16 list option" where
  "idwt_row buffer base subband_width y idwt = (
     let total_width = 2 * subband_width;
         ll = base + subband_width * subband_width * 3 + y * subband_width;
         hl = base + y * subband_width;
         l_dst = y * total_width;
         lh = base + subband_width * subband_width + y * subband_width;
         hh = base + subband_width * subband_width * 2 + y * subband_width;
         h_dst = subband_width * subband_width * 2 + y * total_width
     in do {
       idwt \<leftarrow> idwt_even buffer ll hl l_dst 0 idwt;
       idwt \<leftarrow> idwt_even buffer lh hh h_dst 0 idwt;
       idwt \<leftarrow> for_each [1..<subband_width] (\<lambda>n idwt. do {
           idwt \<leftarrow> idwt_even buffer ll hl l_dst n idwt;
           idwt_even buffer lh hh h_dst n idwt }) idwt;
       idwt \<leftarrow> for_each [0..<subband_width - 1] (\<lambda>n idwt. do {
           idwt \<leftarrow> idwt_odd buffer hl l_dst n idwt;
           idwt_odd buffer hh h_dst n idwt }) idwt;
       let n = subband_width - 1;
       idwt \<leftarrow> idwt_last buffer hl l_dst n idwt;
       idwt_last buffer hh h_dst n idwt })"

definition idwt_column_even :: "i16 list \<Rightarrow> nat \<Rightarrow> nat \<Rightarrow> nat \<Rightarrow> nat \<Rightarrow> i16 list \<Rightarrow> i16 list option" where
  "idwt_column_even idwt base subband_width x n buffer = (
     let total_width = 2 * subband_width;
         dst = base + 2 * n * total_width + x;
         l = n * total_width + x;
         h = l + subband_width * total_width
     in do {
       v \<leftarrow> at16 idwt l;
       a \<leftarrow> at16 idwt (if n > 0 then h - total_width else h);
       b \<leftarrow> at16 idwt h;
       put16 buffer dst (v - drop_bit 1 (a + b + 1)) })"

definition idwt_column_odd :: "i16 list \<Rightarrow> nat \<Rightarrow> nat \<Rightarrow> nat \<Rightarrow> nat \<Rightarrow> i16 list \<Rightarrow> i16 list option" where
  "idwt_column_odd idwt base subband_width x n buffer = (
     let total_width = 2 * subband_width;
         dst = base + 2 * n * total_width + x;
         h = n * total_width + x + subband_width * total_width
     in do {
       v \<leftarrow> at16 idwt h;
       a \<leftarrow> at16 buffer dst;
       b \<leftarrow> at16 buffer (dst + (if n < subband_width - 1 then 2 * total_width else 0));
       put16 buffer (dst + total_width) (push_bit 1 v + drop_bit 1 (a + b)) })"

definition rfx_dwt_2d_decode_block ::
  "nat \<Rightarrow> nat \<Rightarrow> i16 list \<times> i16 list \<Rightarrow> (i16 list \<times> i16 list) option" where
  "rfx_dwt_2d_decode_block base subband_width mem = (
     let (buffer, idwt) = mem; total_width = 2 * subband_width
     in do {
       idwt \<leftarrow> for_each [0..<subband_width] (\<lambda>y. idwt_row buffer base subband_width y) idwt;
       buffer \<leftarrow> for_each [0..<total_width] (\<lambda>x buffer. do {
           buffer \<leftarrow> for_each [0..<subband_width] (\<lambda>n. idwt_column_even idwt base subband_width x n) buffer;
           for_each [0..<subband_width] (\<lambda>n. idwt_column_odd idwt base subband_width x n) buffer }) buffer;
       Some (buffer, idwt) })"

definition rfx_dwt_2d_decode :: "i16 list \<times> i16 list \<Rightarrow> (i16 list \<times> i16 list) option" where
  "rfx_dwt_2d_decode mem = do {
     mem \<leftarrow> rfx_dwt_2d_decode_block 3840 8 mem;
     mem \<leftarrow> rfx_dwt_2d_decode_block 3072 16 mem;
     rfx_dwt_2d_decode_block 0 32 mem }"

section \<open>Forward transform\<close>

definition dwt_column :: "i16 list \<Rightarrow> nat \<Rightarrow> nat \<Rightarrow> nat \<Rightarrow> nat \<Rightarrow> i16 list \<Rightarrow> i16 list option" where
  "dwt_column buffer base subband_width x n dwt = (
     let total_width = 2 * subband_width;
         l = n * total_width + x;
         h = l + subband_width * total_width;
         src = base + 2 * n * total_width + x
     in do {
       o1 \<leftarrow> at16 buffer (src + total_width);
       e0 \<leftarrow> at16 buffer src;
       e2 \<leftarrow> at16 buffer (src + (if n < subband_width - 1 then 2 * total_width else 0));
       dwt \<leftarrow> put16 dwt h (drop_bit 1 (o1 - drop_bit 1 (e0 + e2)));
       b \<leftarrow> at16 dwt h;
       a \<leftarrow> (if n = 0 then Some b else at16 dwt (h - total_width));
       put16 dwt l (e0 + (if n = 0 then b else drop_bit 1 (a + b))) })"

definition dwt_row_pair :: "i16 list \<Rightarrow> nat \<Rightarrow> nat \<Rightarrow> nat \<Rightarrow> nat \<Rightarrow> nat \<Rightarrow> i16 list \<Rightarrow> i16 list option" where
  "dwt_row_pair dwt src lo hi subband_width n buffer = (
     let x = 2 * n
     in do {
       o1 \<leftarrow> at16 dwt (src + x + 1);
       e0 \<leftarrow> at16 dwt (src + x);
       e2 \<leftarrow> at16 dwt (src + (if n < subband_width - 1 then x + 2 else x));
       buffer \<leftarrow> put16 buffer (hi + n) (drop_bit 1 (o1 - drop_bit 1 (e0 + e2)));
       b \<leftarrow> at16 buffer (hi + n);
       a \<leftarrow> (if n = 0 then Some b else at16 buffer (hi + n - 1));
       put16 buffer (lo + n) (e0 + (if n = 0 then b else drop_bit 1 (a + b))) })"

definition dwt_row :: "i16 list \<Rightarrow> nat \<Rightarrow> nat \<Rightarrow> nat \<Rightarrow> i16 list \<Rightarrow> i16 list option" where
  "dwt_row dwt base subband_width y buffer = (
     let total_width = 2 * subband_width;
         ll = base + subband_width * subband_width * 3 + y * subband_width;
         hl = base + y * subband_width;
         l_src = y * total_width;
         lh = base + subband_width * subband_width + y * subband_width;
         hh = base + subband_width * subband_width * 2 + y * subband_width;
         h_src = subband_width * subband_width * 2 + y * total_width
     in do {
       buffer \<leftarrow> for_each [0..<subband_width] (\<lambda>n. dwt_row_pair dwt l_src ll hl subband_width n) buffer;
       for_each [0..<subband_width] (\<lambda>n. dwt_row_pair dwt h_src lh hh subband_width n) buffer })"

definition rfx_dwt_2d_encode_block ::
  "nat \<Rightarrow> nat \<Rightarrow> i16 list \<times> i16 list \<Rightarrow> (i16 list \<times> i16 list) option" where
  "rfx_dwt_2d_encode_block base subband_width mem = (
     let (buffer, dwt) = mem; total_width = 2 * subband_width
     in do {
       dwt \<leftarrow> for_each [0..<total_width] (\<lambda>x.
         for_each [0..<subband_width] (\<lambda>n. dwt_column buffer base subband_width x n)) dwt;
       buffer \<leftarrow> for_each [0..<subband_width] (\<lambda>y. dwt_row dwt base subband_width y) buffer;
       Some (buffer, dwt) })"

definition rfx_dwt_2d_encode :: "i16 list \<times> i16 list \<Rightarrow> (i16 list \<times> i16 list) option" where
  "rfx_dwt_2d_encode mem = do {
     mem \<leftarrow> rfx_dwt_2d_encode_block 0 32 mem;
     mem \<leftarrow> rfx_dwt_2d_encode_block 3072 16 mem;
     rfx_dwt_2d_encode_block 3840 8 mem }"

section \<open>Quantization\<close>

text \<open>
  The factors are unsigned, so a quantization value below 6 gives a shift of nearly \<open>2 ^ 32\<close>; a shift by the
  width of \<open>int\<close> or more is undefined and has the value None.
\<close>

definition shift_elements :: "(nat \<Rightarrow> int \<Rightarrow> int) \<Rightarrow> nat \<Rightarrow> nat \<Rightarrow> u32 \<Rightarrow> i16 list \<Rightarrow> i16 list option" where
  "shift_elements f base buffer_size factor buffer =
     (if factor = 0 then Some buffer
      else if factor \<ge> 32 then None
      else for_each [base..<base + buffer_size] (\<lambda>dst buffer. do {
             v \<leftarrow> at16 buffer dst;
             put16 buffer dst (f (unat factor) v) }) buffer)"

definition rfx_quantization_decode_block :: "nat \<Rightarrow> nat \<Rightarrow> u32 \<Rightarrow> i16 list \<Rightarrow> i16 list option" where
  "rfx_quantization_decode_block = shift_elements (\<lambda>factor v. push_bit factor v)"

definition rfx_quantization_encode_block :: "nat \<Rightarrow> nat \<Rightarrow> u32 \<Rightarrow> i16 list \<Rightarrow> i16 list option" where
  "rfx_quantization_encode_block = shift_elements (\<lambda>factor v.
     let half = sint (word_of_int (push_bit (factor - 1) 1) :: i16) in drop_bit factor (v + half))"

text \<open>The sub-bands of a tile: first element, size and index of the quantization value.\<close>

definition tile_bands :: "(nat \<times> nat \<times> nat) list" where
  "tile_bands = [(0, 1024, 8), (1024, 1024, 7), (2048, 1024, 9), (3072, 256, 5), (3328, 256, 4), (3584, 256, 6),
     (3840, 64, 2), (3904, 64, 1), (3968, 64, 3), (4032, 64, 0)]"

primrec over_bands :: "(nat \<times> nat \<times> nat) list \<Rightarrow> (nat \<Rightarrow> nat \<Rightarrow> u32 \<Rightarrow> i16 list \<Rightarrow> i16 list option) \<Rightarrow> u32 list \<Rightarrow>
    i16 list \<Rightarrow> i16 list option" where
  "over_bands [] f quantization_values buffer = Some buffer"
| "over_bands (b # bs) f quantization_values buffer = (case b of (base, n, q) \<Rightarrow>
     if q < length quantization_values then do {
       buffer \<leftarrow> f base n (quantization_values ! q - 6) buffer;
       over_bands bs f quantization_values buffer }
     else None)"

definition rfx_quantization_decode :: "u32 list \<Rightarrow> i16 list \<Rightarrow> i16 list option" where
  "rfx_quantization_decode quantization_values buffer = do {
     buffer \<leftarrow> rfx_quantization_decode_block 0 4096 5 buffer;
     over_bands tile_bands rfx_quantization_decode_block quantization_values buffer }"

definition rfx_quantization_encode :: "u32 list \<Rightarrow> i16 list \<Rightarrow> i16 list option" where
  "rfx_quantization_encode quantization_values buffer = do {
     buffer \<leftarrow> over_bands tile_bands rfx_quantization_encode_block quantization_values buffer;
     rfx_quantization_encode_block 0 4096 5 buffer }"

section \<open>Differential coding\<close>

definition rfx_differential_decode :: "nat \<Rightarrow> nat \<Rightarrow> i16 list \<Rightarrow> i16 list option" where
  "rfx_differential_decode base buffer_size buffer =
     for_each [base..<base + (buffer_size - 1)] (\<lambda>src buffer. do {
       a \<leftarrow> at16 buffer src;
       b \<leftarrow> at16 buffer (src + 1);
       put16 buffer (src + 1) (b + a) }) buffer"

definition rfx_differential_encode :: "nat \<Rightarrow> nat \<Rightarrow> i16 list \<Rightarrow> i16 list option" where
  "rfx_differential_encode base buffer_size buffer = do {
     n1 \<leftarrow> at16 buffer base;
     (n1, buffer) \<leftarrow> for_each [base + 1..<base + buffer_size] (\<lambda>dst (n1, buffer). do {
         n2 \<leftarrow> at16 buffer dst;
         buffer \<leftarrow> put16 buffer dst (n2 - n1);
         Some (n2, buffer) }) (n1, buffer);
     Some buffer }"

end
