(* ===== verification/Rfx_Dwt_Correct.thy ===== *)
theory Rfx_Dwt_Correct
  imports Rfx_Dwt
begin

text \<open>
  What the loops of the wavelet transform compute. A loop fills a set of array cells from a target function
  (\<open>fill\<close>); the lemmas below give the target of each loop nest. The transform of a block is then the transform
  of a line (\<open>fwd_l\<close>, \<open>fwd_h\<close>, \<open>inv1\<close>) applied to columns and rows.
\<close>

section \<open>Filling an array\<close>

definition fill :: "(nat \<Rightarrow> i16) \<Rightarrow> nat set \<Rightarrow> i16 list \<Rightarrow> i16 list" where
  "fill G A d = map (\<lambda>i. if i \<in> A then G i else d ! i) [0..<length d]"

lemma length_fill [simp]: "length (fill G A d) = length d"
  by (simp add: fill_def)

lemma nth_fill [simp]: "i < length d \<Longrightarrow> fill G A d ! i = (if i \<in> A then G i else d ! i)"
  by (simp add: fill_def)

lemma fill_empty [simp]: "fill G {} d = d"
  by (simp add: list_eq_iff_nth_eq)

lemma put16_fill:
  assumes "i < length d" and "G i = word_of_int v"
  shows "put16 (fill G A d) i v = Some (fill G (insert i A) d)"
  using assms by (auto simp: put16_def list_eq_iff_nth_eq nth_list_update)

lemma at16_fill: "i < length d \<Longrightarrow> at16 (fill G A d) i = Some (if i \<in> A then sint (G i) else sint (d ! i))"
  by (simp add: at16_def)

lemma at16_inside: "i < length d \<Longrightarrow> at16 d i = Some (sint (d ! i))"
  by (simp add: at16_def)

lemma for_each_snoc: "for_each (ns @ [n]) f s = Option.bind (for_each ns f s) (f n)"
proof (induction ns arbitrary: s)
  case Nil
  then show ?case by (cases "f n s") simp_all
next
  case (Cons m ns)
  then show ?case by (cases "f m s") simp_all
qed

lemma for_each_states:
  assumes "a \<le> b" and "\<And>n. a \<le> n \<Longrightarrow> n < b \<Longrightarrow> f n (T n) = Some (T (Suc n))"
  shows "for_each [a..<b] f (T a) = Some (T b)"
  using assms
proof (induction b)
  case 0
  then show ?case by simp
next
  case (Suc b)
  show ?case
  proof (cases "a = Suc b")
    case False
    with Suc.prems(1) have "a \<le> b" by simp
    with Suc have "for_each [a..<b] f (T a) = Some (T b)" by simp
    with Suc.prems(2) [of b] \<open>a \<le> b\<close> show ?thesis by (simp add: for_each_snoc)
  qed simp
qed

lemma for_each_fill:
  assumes "a \<le> b" and "\<And>n. a \<le> n \<Longrightarrow> n < b \<Longrightarrow> f n (fill G (S n) d) = Some (fill G (S (Suc n)) d)"
  shows "for_each [a..<b] f (fill G (S a) d) = Some (fill G (S b) d)"
  by (rule for_each_states [where T = "\<lambda>n. fill G (S n) d"]) (use assms in simp_all)

text \<open>Cells at equal distances.\<close>

definition steps :: "nat \<Rightarrow> nat \<Rightarrow> nat \<Rightarrow> nat set" where
  "steps D s k = (\<lambda>m. D + s * m) ` {..<k}"

lemma steps_0 [simp]: "steps D s 0 = {}"
  by (simp add: steps_def)

lemma steps_Suc: "steps D s (Suc k) = insert (D + s * k) (steps D s k)"
  by (auto simp: steps_def lessThan_Suc)

lemma mem_steps [simp]: "0 < s \<Longrightarrow> D + s * m \<in> steps D s k \<longleftrightarrow> m < k"
  by (auto simp: steps_def)

lemma steps_interleave: "steps D 2 k \<union> steps (Suc D) 2 k = {D..<D + 2 * k}"
proof (induction k)
  case (Suc k)
  have "{D..<D + 2 * Suc k} = insert (Suc D + 2 * k) (insert (D + 2 * k) {D..<D + 2 * k})"
    by (simp add: atLeastLessThanSuc)
  then show ?case by (simp only: Suc [symmetric] steps_Suc Un_insert_left Un_insert_right)
qed simp

section \<open>The transform of a line\<close>

definition s16 :: "int \<Rightarrow> int" where "s16 v = sint (word_of_int v :: i16)"

lemma word_of_s16 [simp]: "word_of_int (s16 v) = (word_of_int v :: i16)"
  by (simp add: s16_def)

definition ev :: "(nat \<Rightarrow> int) \<Rightarrow> (nat \<Rightarrow> int) \<Rightarrow> nat \<Rightarrow> int" where
  "ev l h n = s16 (l n - (h (n - 1) + h n + 1) div 2)"

definition od :: "nat \<Rightarrow> (nat \<Rightarrow> int) \<Rightarrow> (nat \<Rightarrow> int) \<Rightarrow> nat \<Rightarrow> int" where
  "od w l h n = s16 (2 * h n + (ev l h n + ev l h (if n < w - 1 then n + 1 else n)) div 2)"

definition inv1 :: "nat \<Rightarrow> (nat \<Rightarrow> int) \<Rightarrow> (nat \<Rightarrow> int) \<Rightarrow> nat \<Rightarrow> int" where
  "inv1 w l h x = (if even x then ev l h (x div 2) else od w l h (x div 2))"

definition fwd_h :: "nat \<Rightarrow> (nat \<Rightarrow> int) \<Rightarrow> nat \<Rightarrow> int" where
  "fwd_h w f n = s16 ((f (2 * n + 1) - (f (2 * n) + f (if n < w - 1 then 2 * n + 2 else 2 * n)) div 2) div 2)"

definition fwd_l :: "nat \<Rightarrow> (nat \<Rightarrow> int) \<Rightarrow> nat \<Rightarrow> int" where
  "fwd_l w f n = s16 (f (2 * n) + (if n = 0 then fwd_h w f 0 else (fwd_h w f (n - 1) + fwd_h w f n) div 2))"

lemma inv1_even [simp]: "inv1 w l h (2 * n) = ev l h n"
  by (simp add: inv1_def)

lemma inv1_odd [simp]: "inv1 w l h (Suc (2 * n)) = od w l h n"
  by (simp add: inv1_def)

abbreviation val :: "i16 list \<Rightarrow> nat \<Rightarrow> int" where "val xs i \<equiv> sint (xs ! i)"

section \<open>Rows of the inverse transform\<close>

lemma idwt_even_fill:
  assumes "lo + n < length buffer" and "hi + n < length buffer" and "dst + 2 * n < length d"
    and "G (dst + 2 * n) = word_of_int (ev (\<lambda>k. val buffer (lo + k)) (\<lambda>k. val buffer (hi + k)) n)"
  shows "idwt_even buffer lo hi dst n (fill G A d) = Some (fill G (insert (dst + 2 * n) A) d)"
  using assms by (simp add: idwt_even_def at16_inside drop_bit_eq_div put16_fill ev_def)

lemma idwt_odd_fill:
  assumes "hi + n < length buffer" and "dst + 2 * n + 2 < length d" and "n < w - 1"
    and "\<And>x. x < 2 * w \<Longrightarrow> G (dst + x) = word_of_int (inv1 w l (\<lambda>k. val buffer (hi + k)) x)"
    and "dst + 2 * n \<in> A" and "dst + 2 * n + 2 \<in> A"
  shows "idwt_odd buffer hi dst n (fill G A d) = Some (fill G (insert (dst + 2 * n + 1) A) d)"
  using assms assms(4) [of "2 * n"] assms(4) [of "2 * n + 1"] assms(4) [of "2 * Suc n"] inv1_even [of w l _ "Suc n"]
  by (simp add: idwt_odd_def at16_inside at16_fill drop_bit_eq_div push_bit_eq_mult put16_fill od_def s16_def ev_def)

lemma idwt_last_fill:
  assumes "hi + n < length buffer" and "dst + 2 * n + 1 < length d" and "n = w - 1" and "0 < w"
    and "\<And>x. x < 2 * w \<Longrightarrow> G (dst + x) = word_of_int (inv1 w l (\<lambda>k. val buffer (hi + k)) x)"
    and "dst + 2 * n \<in> A"
  shows "idwt_last buffer hi dst n (fill G A d) = Some (fill G (insert (dst + 2 * n + 1) A) d)"
  using assms assms(5) [of "2 * n"] assms(5) [of "2 * n + 1"]
  by (simp add: idwt_last_def at16_inside at16_fill push_bit_eq_mult put16_fill od_def s16_def ev_def)

lemma idwt_row_fill:
  fixes w y base :: nat and buffer :: "i16 list" and G :: "nat \<Rightarrow> i16"
  defines "ll \<equiv> base + w * w * 3 + y * w" and "hl \<equiv> base + y * w"
    and "lh \<equiv> base + w * w + y * w" and "hh \<equiv> base + w * w * 2 + y * w"
    and "l \<equiv> y * (2 * w)" and "h \<equiv> w * w * 2 + y * (2 * w)"
  assumes w: "0 < w" and b: "ll + w \<le> length buffer" and d: "h + 2 * w \<le> length d"
    and gl: "\<And>x. x < 2 * w \<Longrightarrow> G (l + x) = word_of_int (inv1 w (\<lambda>k. val buffer (ll + k)) (\<lambda>k. val buffer (hl + k)) x)"
    and gh: "\<And>x. x < 2 * w \<Longrightarrow> G (h + x) = word_of_int (inv1 w (\<lambda>k. val buffer (lh + k)) (\<lambda>k. val buffer (hh + k)) x)"
  shows "idwt_row buffer base w y (fill G B d) = Some (fill G (B \<union> {l..<l + 2 * w} \<union> {h..<h + 2 * w}) d)"
proof -
  have bands: "hl \<le> ll" "lh \<le> ll" "hh \<le> ll" and lh: "l \<le> h"
    by (simp_all add: ll_def hl_def lh_def hh_def l_def h_def)
  define S where "S n = B \<union> steps l 2 n \<union> steps h 2 n" for n
  define T where "T n = S w \<union> steps (Suc l) 2 n \<union> steps (Suc h) 2 n" for n
  have even: "Option.bind (idwt_even buffer ll hl l n (fill G (S n) d)) (idwt_even buffer lh hh h n)
      = Some (fill G (S (Suc n)) d)" if "n < w" for n
    using that bands lh b d gl [of "2 * n"] gh [of "2 * n"]
    by (simp add: idwt_even_fill S_def steps_Suc insert_commute)
  have odd: "Option.bind (idwt_odd buffer hl l n (fill G (T n) d)) (idwt_odd buffer hh h n)
      = Some (fill G (T (Suc n)) d)" if n: "n < w - 1" for n
  proof -
    from n have "n < w" "Suc n < w" by simp_all
    then have "l + 2 * n \<in> T n" "l + 2 * n + 2 \<in> T n" "h + 2 * n \<in> T n" "h + 2 * n + 2 \<in> T n"
      using mem_steps [of 2 l "Suc n" w] mem_steps [of 2 h "Suc n" w] by (simp_all add: T_def S_def)
    then have "idwt_odd buffer hl l n (fill G (T n) d) = Some (fill G (insert (l + 2 * n + 1) (T n)) d)"
      and "idwt_odd buffer hh h n (fill G (insert (l + 2 * n + 1) (T n)) d)
        = Some (fill G (insert (h + 2 * n + 1) (insert (l + 2 * n + 1) (T n))) d)"
      using n bands lh b d idwt_odd_fill [OF _ _ n gl] idwt_odd_fill [OF _ _ n gh] by simp_all
    then show ?thesis by (simp add: T_def steps_Suc insert_commute)
  qed
  have last: "Option.bind (idwt_last buffer hl l (w - 1) (fill G (T (w - 1)) d)) (idwt_last buffer hh h (w - 1))
      = Some (fill G (T w) d)"
  proof -
    have "l + 2 * (w - 1) \<in> T (w - 1)" "h + 2 * (w - 1) \<in> T (w - 1)"
      using w mem_steps [of 2 l "w - 1" w] mem_steps [of 2 h "w - 1" w] by (simp_all add: T_def S_def)
    then have "idwt_last buffer hl l (w - 1) (fill G (T (w - 1)) d) = Some (fill G (insert (l + 2 * (w - 1) + 1) (T (w - 1))) d)"
      and "idwt_last buffer hh h (w - 1) (fill G (insert (l + 2 * (w - 1) + 1) (T (w - 1))) d)
        = Some (fill G (insert (h + 2 * (w - 1) + 1) (insert (l + 2 * (w - 1) + 1) (T (w - 1)))) d)"
      using w bands lh b d idwt_last_fill [OF _ _ refl w gl] idwt_last_fill [OF _ _ refl w gh] by simp_all
    then show ?thesis using w steps_Suc [of _ 2 "w - 1"] by (simp add: T_def insert_commute)
  qed
  have "T w = B \<union> (steps l 2 w \<union> steps (Suc l) 2 w) \<union> (steps h 2 w \<union> steps (Suc h) 2 w)"
    by (auto simp: T_def S_def)
  then have T: "T w = B \<union> {l..<l + 2 * w} \<union> {h..<h + 2 * w}" by (simp only: steps_interleave)
  have S1: "S 0 = B" and T0: "T 0 = S w" by (simp_all add: S_def T_def)
  have evens: "for_each [1..<w] (\<lambda>n d. Option.bind (idwt_even buffer ll hl l n d) (idwt_even buffer lh hh h n)) (fill G (S 1) d)
      = Some (fill G (S w) d)"
    by (rule for_each_fill) (use w even in simp_all)
  have odds: "for_each [0..<w - 1] (\<lambda>n d. Option.bind (idwt_odd buffer hl l n d) (idwt_odd buffer hh h n)) (fill G (T 0) d)
      = Some (fill G (T (w - 1)) d)"
    by (rule for_each_fill) (use odd in simp_all)
  have bind3: "Option.bind (Option.bind m f) g = Option.bind m (\<lambda>x. Option.bind (f x) g)" for m :: "i16 list option" and f g
    by (cases m) simp_all
  have "idwt_row buffer base w y (fill G B d) =
      Option.bind (Option.bind (Option.bind (Option.bind (idwt_even buffer ll hl l 0 (fill G B d)) (idwt_even buffer lh hh h 0))
        (for_each [1..<w] (\<lambda>n d. Option.bind (idwt_even buffer ll hl l n d) (idwt_even buffer lh hh h n))))
        (for_each [0..<w - 1] (\<lambda>n d. Option.bind (idwt_odd buffer hl l n d) (idwt_odd buffer hh h n))))
        (\<lambda>d. Option.bind (idwt_last buffer hl l (w - 1) d) (idwt_last buffer hh h (w - 1)))"
    by (simp only: idwt_row_def Let_def bind3 ll_def hl_def lh_def hh_def l_def h_def)
  then show ?thesis using even [OF w] last evens odds by (simp only: S1 T0 T Option.bind.simps One_nat_def)
qed

section \<open>Columns of the inverse transform\<close>

lemma steps_double: "steps D (2 * s) k \<union> steps (D + s) (2 * s) k = steps D s (2 * k)"
proof (induction k)
  case (Suc k)
  have "steps D s (2 * Suc k) = insert (D + s + 2 * s * k) (insert (D + 2 * s * k) (steps D s (2 * k)))"
    by (simp add: steps_Suc algebra_simps)
  then show ?case by (simp only: Suc [symmetric] steps_Suc Un_insert_left Un_insert_right)
qed simp

lemma cell_less: "y < (w :: nat) \<Longrightarrow> x < t \<Longrightarrow> y * t + x < w * t"
proof -
  assume y: "y < w" and x: "x < t"
  have "y * t + x < Suc y * t" using x by simp
  also have "\<dots> \<le> w * t" using y by (intro mult_le_mono1) simp
  finally show ?thesis .
qed

lemma idwt_column_fill:
  fixes w x base :: nat and idwt :: "i16 list" and G :: "nat \<Rightarrow> i16"
  assumes w: "0 < w" and x: "x < 2 * w" and i: "4 * w * w \<le> length idwt" and d: "base + 4 * w * w \<le> length d"
    and l: "\<And>n. n < w \<Longrightarrow> val idwt (n * (2 * w) + x) = L n"
    and h: "\<And>n. n < w \<Longrightarrow> val idwt (n * (2 * w) + x + w * (2 * w)) = H n"
    and g: "\<And>y. y < 2 * w \<Longrightarrow> G (base + x + (2 * w) * y) = word_of_int (inv1 w L H y)"
  shows "Option.bind (for_each [0..<w] (\<lambda>n. idwt_column_even idwt base w x n) (fill G B d))
      (for_each [0..<w] (\<lambda>n. idwt_column_odd idwt base w x n)) = Some (fill G (B \<union> steps (base + x) (2 * w) (2 * w)) d)"
proof -
  define T where "T n = B \<union> steps (base + x) (2 * (2 * w)) n" for n
  define U where "U n = T w \<union> steps (base + x + 2 * w) (2 * (2 * w)) n" for n
  have dst: "base + 2 * n * (2 * w) + x = base + x + 2 * (2 * w) * n" for n by simp
  have inb: "n * (2 * w) + x + w * (2 * w) < length idwt" "n * (2 * w) + x < length idwt"
      "base + x + 2 * (2 * w) * n + 2 * w < length d" if "n < w" for n
  proof -
    show "n * (2 * w) + x + w * (2 * w) < length idwt" "n * (2 * w) + x < length idwt"
      using cell_less [OF that x] i by simp_all
    have "Suc (2 * n) * (2 * w) + x < (2 * w) * (2 * w)" using that x by (intro cell_less) simp_all
    then show "base + x + 2 * (2 * w) * n + 2 * w < length d" using d by (simp add: algebra_simps)
  qed
  have al: "at16 idwt (n * (2 * w) + x) = Some (L n)"
    and ah: "at16 idwt (n * (2 * w) + x + w * (2 * w)) = Some (H n)" if "n < w" for n
    using inb(1,2) [OF that] l [OF that] h [OF that] by (simp_all add: at16_inside)
  have ge: "G (base + x + 2 * (2 * w) * n) = word_of_int (ev L H n)"
    and go: "G (base + x + 2 * (2 * w) * n + 2 * w) = word_of_int (od w L H n)" if "n < w" for n
    using g [of "2 * n"] g [of "Suc (2 * n)"] that by (simp_all add: inv1_def algebra_simps)
  have TS: "T (Suc n) = insert (base + x + 2 * (2 * w) * n) (T n)" 
    and US: "U (Suc n) = insert (base + x + 2 * w + 2 * (2 * w) * n) (U n)" for n by (simp_all add: T_def U_def steps_Suc)
  have even: "idwt_column_even idwt base w x n (fill G (T n) d) = Some (fill G (T (Suc n)) d)" if n: "n < w" for n
  proof -
    have a: "(if n > 0 then n * (2 * w) + x + w * (2 * w) - 2 * w else n * (2 * w) + x + w * (2 * w))
        = (n - 1) * (2 * w) + x + w * (2 * w)"
      by (cases n) simp_all
    have n1: "n - 1 < w" using n by simp
    show ?thesis
      unfolding idwt_column_even_def Let_def a dst al [OF n] ah [OF n] ah [OF n1] Option.bind.simps TS
      using inb(3) [OF n] ge [OF n] by (intro put16_fill) (simp_all add: ev_def drop_bit_eq_div)
  qed
  have odd: "idwt_column_odd idwt base w x n (fill G (U n) d) = Some (fill G (U (Suc n)) d)" if n: "n < w" for n
  proof -
    let ?m = "if n < w - 1 then n + 1 else n"
    have m: "?m < w" using n by auto
    have b: "base + x + 2 * (2 * w) * n + (if n < w - 1 then 2 * (2 * w) else 0) = base + x + 2 * (2 * w) * ?m" by simp
    have at: "at16 (fill G (U n) d) (base + x + 2 * (2 * w) * k) = Some (ev L H k)" if "k < w" for k
      using inb(3) [OF that] ge [OF that] that w by (simp add: at16_fill U_def T_def ev_def s16_def)
    show ?thesis
      unfolding idwt_column_odd_def Let_def dst b at [OF n] at [OF m] ah [OF n] Option.bind.simps US
      using inb(3) [OF n] go [OF n]
      by (subst put16_fill) (simp_all add: od_def drop_bit_eq_div push_bit_eq_mult algebra_simps)
  qed
  have "for_each [0..<w] (\<lambda>n. idwt_column_even idwt base w x n) (fill G (T 0) d) = Some (fill G (T w) d)"
    and "for_each [0..<w] (\<lambda>n. idwt_column_odd idwt base w x n) (fill G (U 0) d) = Some (fill G (U w) d)"
    by (rule for_each_fill; use even odd in simp)+
  then show ?thesis using steps_double [of "base + x" "2 * w" w] by (simp add: T_def U_def Un_assoc)
qed

section \<open>The inverse transform of a block\<close>

definition row_l :: "i16 list \<Rightarrow> nat \<Rightarrow> nat \<Rightarrow> nat \<Rightarrow> nat \<Rightarrow> int" where
  "row_l buffer base w y = inv1 w (\<lambda>k. val buffer (base + w * w * 3 + y * w + k)) (\<lambda>k. val buffer (base + y * w + k))"

definition row_h :: "i16 list \<Rightarrow> nat \<Rightarrow> nat \<Rightarrow> nat \<Rightarrow> nat \<Rightarrow> int" where
  "row_h buffer base w y = inv1 w (\<lambda>k. val buffer (base + w * w + y * w + k)) (\<lambda>k. val buffer (base + w * w * 2 + y * w + k))"

definition block_inv :: "i16 list \<Rightarrow> nat \<Rightarrow> nat \<Rightarrow> nat \<Rightarrow> nat \<Rightarrow> int" where
  "block_inv buffer base w y x = inv1 w (\<lambda>n. row_l buffer base w n x) (\<lambda>n. row_h buffer base w n x) y"

lemma inv1_s16: "\<exists>v. inv1 w l h x = s16 v"
  by (auto simp: inv1_def ev_def od_def)

lemma s16_idem [simp]: "s16 (s16 v) = s16 v"
  by (simp add: s16_def)

lemma sint_inv1 [simp]: "sint (word_of_int (inv1 w l h x) :: i16) = inv1 w l h x"
  using inv1_s16 [of w l h x] s16_idem by (auto simp: s16_def)

definition idwt_target :: "i16 list \<Rightarrow> nat \<Rightarrow> nat \<Rightarrow> nat \<Rightarrow> i16" where
  "idwt_target buffer base w i = word_of_int
     (if i < w * w * 2 then row_l buffer base w (i div (2 * w)) (i mod (2 * w))
      else row_h buffer base w ((i - w * w * 2) div (2 * w)) ((i - w * w * 2) mod (2 * w)))"

lemma idwt_rows:
  assumes "0 < w" and "base + 4 * w * w \<le> length buffer" and "4 * w * w \<le> length d"
  shows "for_each [0..<w] (\<lambda>y. idwt_row buffer base w y) d = Some (fill (idwt_target buffer base w) {0..<4 * w * w} d)"
proof -
  let ?G = "idwt_target buffer base w"
  define S where "S y = {0..<y * (2 * w)} \<union> {w * w * 2..<w * w * 2 + y * (2 * w)}" for y
  have "for_each [0..<w] (\<lambda>y. idwt_row buffer base w y) (fill ?G (S 0) d) = Some (fill ?G (S w) d)"
  proof (rule for_each_fill)
    fix y assume y: "y < w"
    have c: "y * (2 * w) + x < w * w * 2" if "x < 2 * w" for x using cell_less [OF y that] by simp
    have y1: "y * w + w \<le> w * w" using y by (metis Suc_leI add.commute mult_Suc mult_le_mono1)
    have "idwt_row buffer base w y (fill ?G (S y) d)
        = Some (fill ?G (S y \<union> {y * (2 * w)..<y * (2 * w) + 2 * w} \<union> {w * w * 2 + y * (2 * w)..<w * w * 2 + y * (2 * w) + 2 * w}) d)"
      using assms c y1 by (intro idwt_row_fill) (simp_all add: idwt_target_def row_l_def row_h_def)
    also have "S y \<union> {y * (2 * w)..<y * (2 * w) + 2 * w} \<union> {w * w * 2 + y * (2 * w)..<w * w * 2 + y * (2 * w) + 2 * w} = S (Suc y)"
      by (auto simp: S_def)
    finally show "idwt_row buffer base w y (fill ?G (S y) d) = Some (fill ?G (S (Suc y)) d)" .
  qed simp
  moreover have "S w = {0..<4 * w * w}" "S 0 = {}" by (auto simp: S_def)
  ultimately show ?thesis by simp
qed

lemma columns_cover:
  fixes t :: nat
  assumes "0 < t"
  shows "(\<Union>x<t. steps (base + x) t k) = {base..<base + t * k}"
proof (intro subset_antisym subsetI)
  fix i assume "i \<in> (\<Union>x<t. steps (base + x) t k)"
  then obtain x m where "x < t" "m < k" "i = base + x + t * m" by (auto simp: steps_def)
  then show "i \<in> {base..<base + t * k}" using cell_less [of m k x t] by (simp add: mult.commute)
next
  fix i assume i: "i \<in> {base..<base + t * k}"
  let ?x = "(i - base) mod t" and ?m = "(i - base) div t"
  have "i = base + ?x + t * ?m" using i mod_mult_div_eq [of "i - base" t] by simp
  moreover have "?m < k" using i assms by (simp add: div_less_iff_less_mult mult.commute less_diff_conv2)
  ultimately have "i \<in> steps (base + ?x) t k" using mem_steps [OF assms, of "base + ?x" ?m k] by simp
  then show "i \<in> (\<Union>x<t. steps (base + x) t k)" using assms by (intro UN_I [of ?x]) simp_all
qed

definition block_target :: "(nat \<Rightarrow> nat \<Rightarrow> int) \<Rightarrow> nat \<Rightarrow> nat \<Rightarrow> nat \<Rightarrow> i16" where
  "block_target P base t i = word_of_int (P ((i - base) div t) ((i - base) mod t))"

lemma decode_block:
  assumes w: "0 < w" and b: "base + 4 * w * w \<le> length buffer" and d: "4 * w * w \<le> length d"
  shows "rfx_dwt_2d_decode_block base w (buffer, d) =
    Some (fill (block_target (block_inv buffer base w) base (2 * w)) {base..<base + 4 * w * w} buffer,
          fill (idwt_target buffer base w) {0..<4 * w * w} d)"
proof -
  define G where "G = block_target (block_inv buffer base w) base (2 * w)"
  define d' where "d' = fill (idwt_target buffer base w) {0..<4 * w * w} d"
  define S where "S x = (\<Union>x'<x. steps (base + x') (2 * w) (2 * w))" for x
  have vl: "val d' (n * (2 * w) + x) = row_l buffer base w n x"
    and vh: "val d' (n * (2 * w) + x + w * (2 * w)) = row_h buffer base w n x" if "n < w" "x < 2 * w" for n x
  proof -
    have c: "n * (2 * w) + x < w * w * 2" using cell_less [OF that] by simp
    then have "n * (2 * w) + x < length d" "n * (2 * w) + x + w * (2 * w) < length d" using d by simp_all
    then show "val d' (n * (2 * w) + x) = row_l buffer base w n x"
      "val d' (n * (2 * w) + x + w * (2 * w)) = row_h buffer base w n x"
      using c that by (simp_all add: d'_def idwt_target_def row_l_def row_h_def)
  qed
  have "for_each [0..<2 * w] (\<lambda>x buffer. Option.bind (for_each [0..<w] (\<lambda>n. idwt_column_even d' base w x n) buffer)
      (for_each [0..<w] (\<lambda>n. idwt_column_odd d' base w x n))) (fill G (S 0) buffer) = Some (fill G (S (2 * w)) buffer)"
  proof (rule for_each_fill)
    fix x assume x: "x < 2 * w"
    have "S (Suc x) = S x \<union> steps (base + x) (2 * w) (2 * w)" by (auto simp: S_def lessThan_Suc)
    moreover have "G (base + x + 2 * w * y) = word_of_int (inv1 w (\<lambda>n. row_l buffer base w n x) (\<lambda>n. row_h buffer base w n x) y)" for y
      using x by (simp add: G_def block_target_def block_inv_def add.assoc)
    ultimately show "Option.bind (for_each [0..<w] (\<lambda>n. idwt_column_even d' base w x n) (fill G (S x) buffer))
        (for_each [0..<w] (\<lambda>n. idwt_column_odd d' base w x n)) = Some (fill G (S (Suc x)) buffer)"
      using idwt_column_fill [OF w x, of d' base buffer "\<lambda>n. row_l buffer base w n x" "\<lambda>n. row_h buffer base w n x" G "S x"]
        d b vl x vh by (simp add: d'_def)
  qed simp
  moreover have "S (2 * w) = {base..<base + 4 * w * w}" "S 0 = {}"
    using w columns_cover [of "2 * w" base "2 * w"] by (simp_all add: S_def mult.assoc)
  ultimately show ?thesis
    using idwt_rows [OF w b d] by (simp add: rfx_dwt_2d_decode_block_def Let_def G_def d'_def)
qed

section \<open>The forward transform of a block\<close>

lemma sint_of_s16: "sint (word_of_int (s16 v) :: i16) = s16 v"
  by (simp only: word_of_s16) (simp only: s16_def)

lemma sint_fwd [simp]: "sint (word_of_int (fwd_h w f n) :: i16) = fwd_h w f n"
  "sint (word_of_int (fwd_l w f n) :: i16) = fwd_l w f n"
  by (simp_all only: fwd_h_def fwd_l_def sint_of_s16)

lemma steps_add: "steps D s (k + m) = steps D s k \<union> steps (D + s * k) s m"
  by (induction m) (simp_all add: steps_Suc algebra_simps)

lemma dwt_column_fill:
  fixes w x base :: nat and buffer :: "i16 list" and G :: "nat \<Rightarrow> i16"
  defines "f \<equiv> \<lambda>y. val buffer (base + y * (2 * w) + x)"
  assumes w: "0 < w" and x: "x < 2 * w" and b: "base + 4 * w * w \<le> length buffer" and d: "4 * w * w \<le> length d"
    and gl: "\<And>n. n < w \<Longrightarrow> G (n * (2 * w) + x) = word_of_int (fwd_l w f n)"
    and gh: "\<And>n. n < w \<Longrightarrow> G (n * (2 * w) + x + w * (2 * w)) = word_of_int (fwd_h w f n)"
  shows "for_each [0..<w] (\<lambda>n. dwt_column buffer base w x n) (fill G B d) = Some (fill G (B \<union> steps x (2 * w) (2 * w)) d)"
proof -
  define T where "T n = B \<union> steps x (2 * w) n \<union> steps (x + w * (2 * w)) (2 * w) n" for n
  have TS: "T (Suc n) = insert (n * (2 * w) + x) (insert (n * (2 * w) + x + w * (2 * w)) (T n))" for n
    by (simp add: T_def steps_Suc ac_simps insert_commute)
  have step: "dwt_column buffer base w x n (fill G (T n) d) = Some (fill G (T (Suc n)) d)" if n: "n < w" for n
  proof -
    let ?h = "n * (2 * w) + x + w * (2 * w)"
    have inb: "m * (2 * w) + x + w * (2 * w) < length d" "m * (2 * w) + x < length d" if "m < w" for m
      using cell_less [OF that x] d by simp_all
    have src: "at16 buffer (base + y * (2 * w) + x) = Some (f y)" if "y < 2 * w" for y
      using cell_less [OF that x] b by (simp add: f_def at16_inside)
    have i1: "base + 2 * n * (2 * w) + x + 2 * w = base + Suc (2 * n) * (2 * w) + x" by simp
    have i2: "base + 2 * n * (2 * w) + x + (if n < w - 1 then 2 * (2 * w) else 0)
        = base + (if n < w - 1 then 2 * n + 2 else 2 * n) * (2 * w) + x" by (simp add: algebra_simps)
    have r: "at16 buffer (base + Suc (2 * n) * (2 * w) + x) = Some (f (Suc (2 * n)))"
      "at16 buffer (base + 2 * n * (2 * w) + x) = Some (f (2 * n))"
      "at16 buffer (base + (if n < w - 1 then 2 * n + 2 else 2 * n) * (2 * w) + x) = Some (f (if n < w - 1 then 2 * n + 2 else 2 * n))"
      using n by (intro src; auto)+
    have p: "put16 (fill G (T n) d) ?h (drop_bit 1 (f (Suc (2 * n)) - drop_bit 1 (f (2 * n) + f (if n < w - 1 then 2 * n + 2 else 2 * n))))
        = Some (fill G (insert ?h (T n)) d)"
      using inb(1) [OF n] gh [OF n] by (intro put16_fill) (simp_all add: fwd_h_def drop_bit_eq_div)
    have rb: "at16 (fill G (insert ?h (T n)) d) ?h = Some (fwd_h w f n)"
      using inb(1) [OF n] gh [OF n] by (simp add: at16_fill)
    have ra: "(if n = 0 then Some (fwd_h w f n) else at16 (fill G (insert ?h (T n)) d) (?h - 2 * w)) = Some (fwd_h w f (n - 1))"
    proof (cases n)
      case (Suc m)
      have "x + w * (2 * w) + 2 * w * m \<in> T n" using w mem_steps [of "2 * w" "x + w * (2 * w)" m n] Suc by (simp add: T_def)
      then show ?thesis using inb(1) [of m] gh [of m] n Suc by (simp add: at16_fill algebra_simps)
    qed simp
    show ?thesis
      unfolding dwt_column_def Let_def i1 i2 r Option.bind.simps p rb ra TS
      using inb(2) [OF n] gl [OF n] by (intro put16_fill) (auto simp: fwd_l_def drop_bit_eq_div)
  qed
  have "for_each [0..<w] (\<lambda>n. dwt_column buffer base w x n) (fill G (T 0) d) = Some (fill G (T w) d)"
    by (rule for_each_fill) (use step in simp_all)
  moreover have "steps x (2 * w) w \<union> steps (x + w * (2 * w)) (2 * w) w = steps x (2 * w) (2 * w)"
    using steps_add [of x "2 * w" w w] by (simp add: mult_2 [symmetric] mult.commute)
  ultimately show ?thesis by (simp add: T_def Un_assoc)
qed

lemma dwt_row_pair_fill:
  fixes src w :: nat and dwt :: "i16 list"
  defines "f \<equiv> \<lambda>x. val dwt (src + x)"
  assumes d: "src + 2 * w \<le> length dwt" and b: "lo + w \<le> length d" "hi + w \<le> length d"
    and gl: "\<And>n. n < w \<Longrightarrow> G (lo + n) = word_of_int (fwd_l w f n)"
    and gh: "\<And>n. n < w \<Longrightarrow> G (hi + n) = word_of_int (fwd_h w f n)"
  shows "for_each [0..<w] (\<lambda>n. dwt_row_pair dwt src lo hi w n) (fill G B d)
    = Some (fill G (B \<union> {lo..<lo + w} \<union> {hi..<hi + w}) d)"
proof -
  define T where "T n = B \<union> {lo..<lo + n} \<union> {hi..<hi + n}" for n
  have TS: "T (Suc n) = insert (lo + n) (insert (hi + n) (T n))" for n by (auto simp: T_def)
  have step: "dwt_row_pair dwt src lo hi w n (fill G (T n) d) = Some (fill G (T (Suc n)) d)" if n: "n < w" for n
  proof -
    have src: "at16 dwt (src + x) = Some (f x)" if "x < 2 * w" for x
      using that d by (simp add: f_def at16_inside)
    have i1: "src + 2 * n + 1 = src + Suc (2 * n)" by simp
    have r: "at16 dwt (src + Suc (2 * n)) = Some (f (Suc (2 * n)))" "at16 dwt (src + 2 * n) = Some (f (2 * n))"
      "at16 dwt (src + (if n < w - 1 then 2 * n + 2 else 2 * n)) = Some (f (if n < w - 1 then 2 * n + 2 else 2 * n))"
      using n by (intro src; auto)+
    have p: "put16 (fill G (T n) d) (hi + n) (drop_bit 1 (f (Suc (2 * n)) - drop_bit 1 (f (2 * n) + f (if n < w - 1 then 2 * n + 2 else 2 * n))))
        = Some (fill G (insert (hi + n) (T n)) d)"
      using b gh [OF n] n by (intro put16_fill) (simp_all add: fwd_h_def drop_bit_eq_div)
    have rb: "at16 (fill G (insert (hi + n) (T n)) d) (hi + n) = Some (fwd_h w f n)"
      using b gh [OF n] n by (simp add: at16_fill)
    have ra: "(if n = 0 then Some (fwd_h w f n) else at16 (fill G (insert (hi + n) (T n)) d) (hi + n - 1)) = Some (fwd_h w f (n - 1))"
    proof (cases n)
      case (Suc m)
      then have "hi + m \<in> T n" by (simp add: T_def)
      then show ?thesis using b gh [of m] n Suc by (simp add: at16_fill)
    qed simp
    show ?thesis
      unfolding dwt_row_pair_def Let_def i1 r Option.bind.simps p rb ra TS
      using b gl [OF n] n by (intro put16_fill) (auto simp: fwd_l_def drop_bit_eq_div)
  qed
  have "for_each [0..<w] (\<lambda>n. dwt_row_pair dwt src lo hi w n) (fill G (T 0) d) = Some (fill G (T w) d)"
    by (rule for_each_fill) (use step in simp_all)
  then show ?thesis by (simp add: T_def)
qed

definition col_l :: "i16 list \<Rightarrow> nat \<Rightarrow> nat \<Rightarrow> nat \<Rightarrow> nat \<Rightarrow> int" where
  "col_l buffer base w n x = fwd_l w (\<lambda>y. val buffer (base + y * (2 * w) + x)) n"

definition col_h :: "i16 list \<Rightarrow> nat \<Rightarrow> nat \<Rightarrow> nat \<Rightarrow> nat \<Rightarrow> int" where
  "col_h buffer base w n x = fwd_h w (\<lambda>y. val buffer (base + y * (2 * w) + x)) n"

definition dwt_target :: "i16 list \<Rightarrow> nat \<Rightarrow> nat \<Rightarrow> nat \<Rightarrow> i16" where
  "dwt_target buffer base w i = word_of_int
     (if i < w * w * 2 then col_l buffer base w (i div (2 * w)) (i mod (2 * w))
      else col_h buffer base w ((i - w * w * 2) div (2 * w)) ((i - w * w * 2) mod (2 * w)))"

text \<open>The four bands of a block, in the order HL, LH, HH, LL.\<close>

definition band_of :: "i16 list \<Rightarrow> nat \<Rightarrow> nat \<Rightarrow> nat \<Rightarrow> nat \<Rightarrow> nat \<Rightarrow> int" where
  "band_of buffer base w k y n =
     (if k = 0 then fwd_h w (col_l buffer base w y) n
      else if k = 1 then fwd_l w (col_h buffer base w y) n
      else if k = 2 then fwd_h w (col_h buffer base w y) n
      else fwd_l w (col_l buffer base w y) n)"

definition bands_target :: "i16 list \<Rightarrow> nat \<Rightarrow> nat \<Rightarrow> nat \<Rightarrow> i16" where
  "bands_target buffer base w i = word_of_int
     (band_of buffer base w ((i - base) div (w * w)) ((i - base) mod (w * w) div w) ((i - base) mod (w * w) mod w))"

lemma bands_target_at:
  assumes "y < w" and "n < w"
  shows "bands_target buffer base w (base + w * w * k + y * w + n) = word_of_int (band_of buffer base w k y n)"
proof -
  have "y * w + n < w * w" using cell_less [OF assms] .
  then have "(w * w * k + y * w + n) div (w * w) = k" "(w * w * k + y * w + n) mod (w * w) = y * w + n"
    using assms by (simp_all add: add.assoc)
  then show ?thesis using assms by (simp add: bands_target_def add.assoc)
qed

lemma fwd_cong:
  assumes "\<And>x. x < 2 * w \<Longrightarrow> f x = g x" and n: "n < w"
  shows "fwd_h w f n = fwd_h w g n" "fwd_l w f n = fwd_l w g n"
proof -
  have h: "fwd_h w f m = fwd_h w g m" if "m < w" for m
    using that assms(1) [of "2 * m"] assms(1) [of "2 * m + 1"] assms(1) [of "2 * m + 2"] by (auto simp: fwd_h_def)
  have "n - 1 < w" using n by simp
  with h n assms(1) [of "2 * n"] show "fwd_h w f n = fwd_h w g n" "fwd_l w f n = fwd_l w g n"
    by (simp_all add: fwd_l_def)
qed

lemma dwt_columns:
  assumes "0 < w" and "base + 4 * w * w \<le> length buffer" and "4 * w * w \<le> length d"
  shows "for_each [0..<2 * w] (\<lambda>x. for_each [0..<w] (\<lambda>n. dwt_column buffer base w x n)) d
    = Some (fill (dwt_target buffer base w) {0..<4 * w * w} d)"
proof -
  let ?G = "dwt_target buffer base w"
  define S where "S x = (\<Union>x'<x. steps (0 + x') (2 * w) (2 * w))" for x
  have "for_each [0..<2 * w] (\<lambda>x. for_each [0..<w] (\<lambda>n. dwt_column buffer base w x n)) (fill ?G (S 0) d)
      = Some (fill ?G (S (2 * w)) d)"
  proof (rule for_each_fill)
    fix x assume x: "x < 2 * w"
    have "S (Suc x) = S x \<union> steps x (2 * w) (2 * w)" by (auto simp: S_def lessThan_Suc)
    moreover have "?G (n * (2 * w) + x) = word_of_int (col_l buffer base w n x)"
        "?G (n * (2 * w) + x + w * (2 * w)) = word_of_int (col_h buffer base w n x)" if "n < w" for n
      using cell_less [OF that x] x by (simp_all add: dwt_target_def)
    ultimately show "for_each [0..<w] (\<lambda>n. dwt_column buffer base w x n) (fill ?G (S x) d) = Some (fill ?G (S (Suc x)) d)"
      using dwt_column_fill [OF assms(1) x assms(2,3), of ?G "S x"] by (simp add: col_l_def col_h_def)
  qed simp
  moreover have "S (2 * w) = {0..<4 * w * w}" "S 0 = {}"
    using assms(1) columns_cover [of "2 * w" 0 "2 * w"] by (simp_all add: S_def mult.assoc)
  ultimately show ?thesis by simp
qed

lemma dwt_row_fill:
  assumes w: "0 < w" and y: "y < w" and b: "base + 4 * w * w \<le> length buffer" and d: "4 * w * w \<le> length d"
  defines "G \<equiv> bands_target buffer base w" and "d' \<equiv> fill (dwt_target buffer base w) {0..<4 * w * w} d"
  shows "dwt_row d' base w y (fill G B buffer) = Some (fill G (B \<union> (\<Union>k<4. {base + w * w * k + y * w..<base + w * w * k + y * w + w})) buffer)"
proof -
  have vl: "val d' (y * (2 * w) + x) = col_l buffer base w y x"
    and vh: "val d' (w * w * 2 + y * (2 * w) + x) = col_h buffer base w y x" if "x < 2 * w" for x
  proof -
    have c: "y * (2 * w) + x < w * w * 2" using cell_less [OF y that] by simp
    then have "y * (2 * w) + x < length d" "w * w * 2 + y * (2 * w) + x < length d" using d by simp_all
    then show "val d' (y * (2 * w) + x) = col_l buffer base w y x"
      "val d' (w * w * 2 + y * (2 * w) + x) = col_h buffer base w y x"
      using c that by (simp_all add: d'_def dwt_target_def col_l_def col_h_def)
  qed
  have y1: "y * w + w \<le> w * w" using y by (metis Suc_leI add.commute mult_Suc mult_le_mono1)
  have G: "G (base + w * w * k + y * w + n) = word_of_int (band_of buffer base w k y n)" if "n < w" for k n
    using bands_target_at [OF y that] by (simp add: G_def)
  have l: "for_each [0..<w] (\<lambda>n. dwt_row_pair d' (y * (2 * w)) (base + w * w * 3 + y * w) (base + y * w) w n) (fill G B buffer)
      = Some (fill G (B \<union> {base + w * w * 3 + y * w..<base + w * w * 3 + y * w + w} \<union> {base + y * w..<base + y * w + w}) buffer)"
    for B
    using b d y1 G [of _ 0] G [of _ 3] fwd_cong [of w "\<lambda>x. val d' (y * (2 * w) + x)" "col_l buffer base w y", OF vl]
    by (intro dwt_row_pair_fill) (simp_all add: d'_def band_of_def)
  have h: "for_each [0..<w] (\<lambda>n. dwt_row_pair d' (w * w * 2 + y * (2 * w)) (base + w * w + y * w) (base + w * w * 2 + y * w) w n)
      (fill G B buffer)
      = Some (fill G (B \<union> {base + w * w + y * w..<base + w * w + y * w + w} \<union> {base + w * w * 2 + y * w..<base + w * w * 2 + y * w + w}) buffer)"
    for B
    using b d y1 G [of _ 1] G [of _ 2] fwd_cong [of w "\<lambda>x. val d' (w * w * 2 + y * (2 * w) + x)" "col_h buffer base w y", OF vh]
    by (intro dwt_row_pair_fill) (simp_all add: d'_def band_of_def)
  have four: "{..<4 :: nat} = {0, 1, 2, 3}" by auto
  show ?thesis unfolding dwt_row_def Let_def l Option.bind.simps h four
    by (simp add: Un_ac)
qed

lemma encode_block:
  assumes w: "0 < w" and b: "base + 4 * w * w \<le> length buffer" and d: "4 * w * w \<le> length d"
  shows "rfx_dwt_2d_encode_block base w (buffer, d) =
    Some (fill (bands_target buffer base w) {base..<base + 4 * w * w} buffer,
          fill (dwt_target buffer base w) {0..<4 * w * w} d)"
proof -
  let ?G = "bands_target buffer base w" and ?d = "fill (dwt_target buffer base w) {0..<4 * w * w} d"
  define S where "S y = (\<Union>k<4. {base + w * w * k..<base + w * w * k + y * w})" for y
  have "for_each [0..<w] (\<lambda>y. dwt_row ?d base w y) (fill ?G (S 0) buffer) = Some (fill ?G (S w) buffer)"
  proof (rule for_each_fill)
    fix y assume y: "y < w"
    have "{base + w * w * k..<base + w * w * k + Suc y * w}
        = {base + w * w * k..<base + w * w * k + y * w} \<union> {base + w * w * k + y * w..<base + w * w * k + y * w + w}" for k
      by auto
    then have "S (Suc y) = S y \<union> (\<Union>k<4. {base + w * w * k + y * w..<base + w * w * k + y * w + w})"
      unfolding S_def by (simp only: UN_Un_distrib)
    then show "dwt_row ?d base w y (fill ?G (S y) buffer) = Some (fill ?G (S (Suc y)) buffer)"
      using dwt_row_fill [OF w y b d] by simp
  qed simp
  moreover have "S w = {base..<base + 4 * w * w}"
  proof -
    have four: "{..<4 :: nat} = {0, 1, 2, 3}" by auto
    show ?thesis unfolding S_def four by auto
  qed
  moreover have "S 0 = {}" by (simp add: S_def)
  ultimately show ?thesis
    using dwt_columns [OF w b d] by (simp add: rfx_dwt_2d_encode_block_def Let_def)
qed

section \<open>The error of a line\<close>

text \<open>The low band before it is cut to 16 bits.\<close>

definition lift :: "nat \<Rightarrow> (nat \<Rightarrow> int) \<Rightarrow> nat \<Rightarrow> int" where
  "lift w f n = f (2 * n) + (if n = 0 then fwd_h w f 0 else (fwd_h w f (n - 1) + fwd_h w f n) div 2)"

lemma fwd_l_lift: "fwd_l w f n = s16 (lift w f n)"
  by (simp add: fwd_l_def lift_def)

lemma s16_id: "- 32768 \<le> v \<Longrightarrow> v < 32768 \<Longrightarrow> s16 v = v"
  by (simp add: s16_def signed_of_int signed_take_bit_int_eq_self)

lemma s16_add: "s16 (s16 a + b) = s16 (a + b)"
  by (simp add: s16_def)

lemma s16_diff: "s16 (s16 a - b) = s16 (a - b)"
  by (simp add: s16_def)

lemma div2: "2 * (v div 2) \<le> v" "v \<le> 2 * (v div 2) + 1" for v :: int
  by presburger+

lemma div2_shift: "a - 2 * k \<le> b \<Longrightarrow> a div 2 - k \<le> b div 2" for a b k :: int
  by presburger

lemma fwd_h_exact:
  assumes "\<And>x. x < 2 * w \<Longrightarrow> \<bar>f x\<bar> \<le> M" and "M \<le> 32000" and "n < w"
  shows "fwd_h w f n = (f (2 * n + 1) - (f (2 * n) + f (if n < w - 1 then 2 * n + 2 else 2 * n)) div 2) div 2"
    and "\<bar>fwd_h w f n\<bar> \<le> M"
proof -
  define a b c where "a = f (2 * n)" and "b = f (2 * n + 1)" and "c = f (if n < w - 1 then 2 * n + 2 else 2 * n)"
  have "\<bar>a\<bar> \<le> M" "\<bar>b\<bar> \<le> M" "\<bar>c\<bar> \<le> M"
    using assms(1) [of "2 * n"] assms(1) [of "2 * n + 1"] assms(1) [of "2 * n + 2"] assms(3) by (auto simp: a_def b_def c_def)
  then have M: "a \<le> M" "b \<le> M" "c \<le> M" "- M \<le> a" "- M \<le> b" "- M \<le> c" by (simp_all add: abs_le_iff)
  define p where "p = (a + c) div 2"
  have p: "p \<le> M" "- M \<le> p" using M div2 [of "a + c"] unfolding p_def by linarith+
  define q where "q = (b - p) div 2"
  have q: "q \<le> M" "- M \<le> q" using M p div2 [of "b - p"] unfolding q_def by linarith+
  then have r: "\<bar>(b - (a + c) div 2) div 2\<bar> \<le> M" by (simp add: p_def q_def abs_le_iff)
  have "s16 ((b - (a + c) div 2) div 2) = (b - (a + c) div 2) div 2"
    using q assms(2) unfolding p_def q_def by (intro s16_id) linarith+
  with r show "fwd_h w f n = (f (2 * n + 1) - (f (2 * n) + f (if n < w - 1 then 2 * n + 2 else 2 * n)) div 2) div 2"
    "\<bar>fwd_h w f n\<bar> \<le> M" by (simp_all add: fwd_h_def a_def b_def c_def)
qed

lemma lift_bound:
  assumes f: "\<And>x. x < 2 * w \<Longrightarrow> \<bar>f x\<bar> \<le> M" and M: "M \<le> 32000" and n: "n < w"
  shows "2 * \<bar>lift w f n\<bar> \<le> 3 * M + 4"
proof -
  let ?c = "\<lambda>n. f (if n < w - 1 then 2 * n + 2 else 2 * n)"
  have h: "4 * fwd_h w f m \<le> 2 * f (2 * m + 1) - f (2 * m) - ?c m + 1"
      "2 * f (2 * m + 1) - f (2 * m) - ?c m - 2 \<le> 4 * fwd_h w f m" if "m < w" for m
    using fwd_h_exact(1) [of w f M m, OF f M that] div2 [of "f (2 * m) + ?c m"] div2 [of "f (2 * m + 1) - (f (2 * m) + ?c m) div 2"]
    by linarith+
  have b: "\<bar>f (2 * m + 1)\<bar> \<le> M" "\<bar>f (2 * m)\<bar> \<le> M" "\<bar>?c m\<bar> \<le> M" if "m < w" for m
    using f [of "2 * m"] f [of "2 * m + 1"] f [of "2 * m + 2"] that by auto
  have b': "f (2 * m + 1) \<le> M" "- M \<le> f (2 * m + 1)" "f (2 * m) \<le> M" "- M \<le> f (2 * m)" "?c m \<le> M" "- M \<le> ?c m"
    if "m < w" for m
    using b [OF that] by (simp_all only: abs_le_iff) linarith+
  have "2 * lift w f n \<le> 3 * M + 4 \<and> - (3 * M + 4) \<le> 2 * lift w f n"
  proof (cases n)
    case 0
    then have "lift w f n = f (2 * n) + fwd_h w f n" by (simp add: lift_def)
    then show ?thesis using h [OF n] b' [OF n] by linarith
  next
    case (Suc m)
    then have m: "m < w" and c: "?c m = f (2 * n)" using n by auto
    have "lift w f n = f (2 * n) + (fwd_h w f m + fwd_h w f n) div 2" using Suc by (simp add: lift_def)
    then show ?thesis using h [OF n] h [OF m] b' [OF n] b' [OF m] c div2 [of "fwd_h w f m + fwd_h w f n"] by linarith
  qed
  then show ?thesis by linarith
qed

lemma line_error:
  assumes f: "\<And>x. x < 2 * w \<Longrightarrow> \<bar>f x\<bar> \<le> M" and M: "M \<le> 32000"
    and l: "\<And>n. n < w \<Longrightarrow> \<exists>e. - E \<le> e \<and> e \<le> U \<and> l' n = s16 (lift w f n + e)"
    and h: "\<And>n. n < w \<Longrightarrow> fwd_h w f n - F \<le> h' n \<and> h' n \<le> fwd_h w f n"
    and small: "0 \<le> E" "0 \<le> U" "0 \<le> F" "E \<le> 100" "U \<le> 100" "F \<le> 100"
    and x: "x < 2 * w"
  shows "f x - (2 + E + 2 * F) \<le> inv1 w l' h' x \<and> inv1 w l' h' x \<le> f x + (U + F)"
proof -
  let ?h = "fwd_h w f"
  have even: "f (2 * n) - (1 + E) \<le> ev l' h' n \<and> ev l' h' n \<le> f (2 * n) + (U + F)" if n: "n < w" for n
  proof -
    obtain e where e: "- E \<le> e" "e \<le> U" "l' n = s16 (lift w f n + e)" using l [OF n] by blast
    have n1: "n - 1 < w" using n by simp
    define q where "q = lift w f n + e - (h' (n - 1) + h' n + 1) div 2"
    have "lift w f n = f (2 * n) + (?h (n - 1) + ?h n) div 2"
      by (cases n) (simp_all add: lift_def)
    then have q: "f (2 * n) - (1 + E) \<le> q" "q \<le> f (2 * n) + (U + F)"
      using h [OF n] h [OF n1] div2_shift [of "h' (n - 1) + h' n + 1" 1 "?h (n - 1) + ?h n"]
        div2_shift [of "?h (n - 1) + ?h n" F "h' (n - 1) + h' n + 1"] e(1,2)
      unfolding q_def by linarith+
    have "\<bar>f (2 * n)\<bar> \<le> M" using f n by simp
    then have "s16 q = q" using q M small by (intro s16_id) linarith+
    moreover have "ev l' h' n = s16 q" by (simp add: ev_def e(3) q_def s16_diff)
    ultimately show ?thesis using q by simp
  qed
  have odd: "f (2 * n + 1) - (2 + E + 2 * F) \<le> od w l' h' n \<and> od w l' h' n \<le> f (2 * n + 1) + (U + F)" if n: "n < w" for n
  proof -
    let ?m = "if n < w - 1 then n + 1 else n"
    have m: "?m < w" using n by auto
    define q where "q = 2 * h' n + (ev l' h' n + ev l' h' ?m) div 2"
    have "2 * ?m = (if n < w - 1 then 2 * n + 2 else 2 * n)" by simp
    then have "?h n = (f (2 * n + 1) - (f (2 * n) + f (2 * ?m)) div 2) div 2"
      using fwd_h_exact(1) [of w f M n, OF f M n] by simp
    then have q: "f (2 * n + 1) - (2 + E + 2 * F) \<le> q" "q \<le> f (2 * n + 1) + (U + F)"
      using h [OF n] even [OF n] even [OF m] div2_shift [of "f (2 * n) + f (2 * ?m)" "1 + E" "ev l' h' n + ev l' h' ?m"]
        div2_shift [of "ev l' h' n + ev l' h' ?m" "U + F" "f (2 * n) + f (2 * ?m)"] div2 [of "f (2 * n + 1) - (f (2 * n) + f (2 * ?m)) div 2"]
      unfolding q_def by linarith+
    have "\<bar>f (2 * n + 1)\<bar> \<le> M" using f n by simp
    then have "s16 q = q" using q M small by (intro s16_id) linarith+
    then show ?thesis using q by (simp add: od_def q_def)
  qed
  show ?thesis
  proof (cases "even x")
    case True
    then obtain n where "x = 2 * n" by (rule evenE)
    then show ?thesis using even [of n] x small by simp
  next
    case False
    then obtain n where "x = 2 * n + 1" by (rule oddE)
    then show ?thesis using odd [of n] x by simp
  qed
qed

end
