(* ===== verification/Rfx_Dwt_Roundtrip.thy ===== *)
theory Rfx_Dwt_Roundtrip
  imports Rfx_Dwt_Correct
begin

text \<open>
  The error of the wavelet transform. A block that is transformed and transformed back differs from the
  original only by the bits the shifts drop; over the three levels of a tile the differences add up to less
  than one step of the 8-bit colour scale.
\<close>

section \<open>The error of a block\<close>

lemma lines_error:
  assumes f: "\<And>x. x < 2 * w \<Longrightarrow> \<bar>f x\<bar> \<le> M" and M: "M \<le> 32000"
    and l: "\<And>n. n < w \<Longrightarrow> \<exists>e. - E \<le> e \<and> e \<le> U \<and> l' n = s16 (fwd_l w f n + e)"
    and h: "\<And>n. n < w \<Longrightarrow> h' n = fwd_h w f n"
    and small: "0 \<le> E" "0 \<le> U" "E \<le> 100" "U \<le> 100"
    and x: "x < 2 * w"
  shows "f x - (2 + E) \<le> inv1 w l' h' x \<and> inv1 w l' h' x \<le> f x + U"
proof -
  have "f x - (2 + E + 2 * 0) \<le> inv1 w l' h' x \<and> inv1 w l' h' x \<le> f x + (U + 0)"
  proof (rule line_error [OF f M])
    show "\<exists>e\<ge>- E. e \<le> U \<and> l' n = s16 (lift w f n + e)" if "n < w" for n
      using l [OF that] by (simp add: fwd_l_lift s16_add)
  qed (use h small x in auto)
  then show ?thesis by simp
qed

definition within :: "int \<Rightarrow> int \<Rightarrow> int \<Rightarrow> int \<Rightarrow> bool" where
  "within E U a v \<longleftrightarrow> a - E \<le> v \<and> v \<le> a + U"

text \<open>The bands of a transformed block as the inverse finds them: exact, the low band apart.\<close>

definition bands_kept :: "i16 list \<Rightarrow> i16 list \<Rightarrow> nat \<Rightarrow> nat \<Rightarrow> int \<Rightarrow> int \<Rightarrow> bool" where
  "bands_kept b b' base w E U \<longleftrightarrow>
     (\<forall>i. base \<le> i \<and> i < base + w * w * 3 \<longrightarrow> b' ! i = bands_target b base w i) \<and>
     (\<forall>i. base + w * w * 3 \<le> i \<and> i < base + w * w * 4 \<longrightarrow>
        (\<exists>e. - E \<le> e \<and> e \<le> U \<and> val b' i = s16 (sint (bands_target b base w i) + e)))"

lemma bands_kept_at:
  assumes "bands_kept b b' base w E U" and "y < w" and "n < w"
  shows "k < 3 \<Longrightarrow> val b' (base + w * w * k + y * w + n) = band_of b base w k y n"
    and "\<exists>e. - E \<le> e \<and> e \<le> U \<and> val b' (base + w * w * 3 + y * w + n) = s16 (band_of b base w 3 y n + e)"
proof -
  have c: "y * w + n < w * w" using cell_less [OF assms(2,3)] .
  have s: "sint (word_of_int (band_of b base w k y n) :: i16) = band_of b base w k y n" for k
    by (simp add: band_of_def)
  show "val b' (base + w * w * k + y * w + n) = band_of b base w k y n" if "k < 3"
  proof -
    have "w * w * Suc k \<le> w * w * 3" using that by (intro mult_le_mono2) simp
    then have "w * w * k + w * w \<le> w * w * 3" by (simp only: mult_Suc_right add.commute)
    then have "base + w * w * k + y * w + n < base + w * w * 3" using c by linarith
    then show ?thesis using assms(1) bands_target_at [OF assms(2,3), of b base k] s [of k] by (simp add: bands_kept_def)
  qed
  let ?i = "base + w * w * 3 + y * w + n"
  have "base + w * w * 3 \<le> ?i" "?i < base + w * w * 4" using c by linarith+
  then have "\<exists>e. - E \<le> e \<and> e \<le> U \<and> val b' ?i = s16 (sint (bands_target b base w ?i) + e)"
    using assms(1) unfolding bands_kept_def by blast
  then show "\<exists>e. - E \<le> e \<and> e \<le> U \<and> val b' ?i = s16 (band_of b base w 3 y n + e)"
    by (simp only: bands_target_at [OF assms(2,3)] s)
qed

text \<open>The bounds on the columns of a block whose cells are bounded.\<close>

definition bounded :: "i16 list \<Rightarrow> nat \<Rightarrow> nat \<Rightarrow> int \<Rightarrow> bool" where
  "bounded b base w M \<longleftrightarrow> (\<forall>i. base \<le> i \<and> i < base + w * w * 4 \<longrightarrow> \<bar>val b i\<bar> \<le> M)"

lemma bounded_cell:
  assumes "bounded b base w M" and "y < 2 * w" and "x < 2 * w"
  shows "\<bar>val b (base + y * (2 * w) + x)\<bar> \<le> M"
  using assms(1) cell_less [OF assms(2,3)] by (simp add: bounded_def)

lemma columns_bounded:
  assumes b: "bounded b base w M" and M: "3 * M + 4 \<le> 64000" and n: "n < w" and x: "x < 2 * w"
  shows "col_l b base w n x = lift w (\<lambda>y. val b (base + y * (2 * w) + x)) n"
    and "2 * \<bar>col_l b base w n x\<bar> \<le> 3 * M + 4" and "\<bar>col_h b base w n x\<bar> \<le> M"
proof -
  let ?f = "\<lambda>y. val b (base + y * (2 * w) + x)"
  have f: "\<bar>?f y\<bar> \<le> M" if "y < 2 * w" for y using bounded_cell [OF b that x] .
  have M': "M \<le> 32000" using M by linarith
  have L: "2 * \<bar>lift w ?f n\<bar> \<le> 3 * M + 4" using lift_bound [of w ?f M n] f M' n by blast
  then show l: "col_l b base w n x = lift w ?f n" using M by (simp add: col_l_def fwd_l_lift s16_id)
  show "2 * \<bar>col_l b base w n x\<bar> \<le> 3 * M + 4" using L l by simp
  show "\<bar>col_h b base w n x\<bar> \<le> M" using fwd_h_exact(2) [of w ?f M n] f M' n unfolding col_h_def by blast
qed

lemma rows_error:
  assumes kept: "bands_kept b b' base w E U" and b: "bounded b base w M" and M: "3 * M + 4 \<le> 64000"
    and small: "0 \<le> E" "0 \<le> U" "E \<le> 90" "U \<le> 90" and n: "n < w" and x: "x < 2 * w"
  shows "within (E + 2) U (col_l b base w n x) (row_l b' base w n x)"
    and "within 2 0 (col_h b base w n x) (row_h b' base w n x)"
proof -
  have "\<bar>col_l b base w n x\<bar> \<le> 32000" "\<bar>col_h b base w n x\<bar> \<le> 32000" if "x < 2 * w" for x
    using columns_bounded(2,3) [OF b M n that] M by linarith+
  note bound = this
  have "col_l b base w n x - (2 + E) \<le> row_l b' base w n x \<and> row_l b' base w n x \<le> col_l b base w n x + U"
    unfolding row_l_def
    using bands_kept_at(2) [OF kept n] bands_kept_at(1) [OF kept n, of _ 0] small x
    by (intro lines_error [OF bound(1)]) (simp_all add: band_of_def)
  then show "within (E + 2) U (col_l b base w n x) (row_l b' base w n x)" by (simp add: within_def)
  have "\<exists>e\<ge>- 0. e \<le> 0 \<and> val b' (base + w * w + n * w + k) = s16 (fwd_l w (col_h b base w n) k + e)" if "k < w" for k
    using bands_kept_at(1) [OF kept n that, of 1] by (intro exI [of _ 0]) (simp add: band_of_def fwd_l_def)
  then have "col_h b base w n x - (2 + 0) \<le> row_h b' base w n x \<and> row_h b' base w n x \<le> col_h b base w n x + 0"
    unfolding row_h_def
    using bands_kept_at(1) [OF kept n, of _ 2] x by (intro lines_error [OF bound(2)]) (simp_all add: band_of_def)
  then show "within 2 0 (col_h b base w n x) (row_h b' base w n x)" by (simp add: within_def)
qed

lemma block_error:
  assumes kept: "bands_kept b b' base w E U" and b: "bounded b base w M" and M: "3 * M + 4 \<le> 64000"
    and small: "0 \<le> E" "0 \<le> U" "E \<le> 90" "U \<le> 90" and y: "y < 2 * w" and x: "x < 2 * w"
  shows "within (E + 8) (U + 2) (val b (base + y * (2 * w) + x)) (block_inv b' base w y x)"
proof -
  let ?f = "\<lambda>y. val b (base + y * (2 * w) + x)"
  have "?f y - (2 + (E + 2) + 2 * 2) \<le> block_inv b' base w y x \<and> block_inv b' base w y x \<le> ?f y + (U + 2)"
    unfolding block_inv_def
  proof (rule line_error [where f = ?f and M = M])
    show "\<bar>?f y\<bar> \<le> M" if "y < 2 * w" for y using bounded_cell [OF b that x] .
    show "\<exists>e\<ge>- (E + 2). e \<le> U \<and> row_l b' base w n x = s16 (lift w ?f n + e)" if n: "n < w" for n
    proof (intro exI conjI)
      let ?e = "row_l b' base w n x - col_l b base w n x"
      show "- (E + 2) \<le> ?e" "?e \<le> U" using rows_error(1) [OF kept b M small n x] by (simp_all add: within_def)
      show "row_l b' base w n x = s16 (lift w ?f n + ?e)"
        using columns_bounded(1) [OF b M n x] by (simp add: row_l_def s16_def)
    qed
    show "fwd_h w ?f n - 2 \<le> row_h b' base w n x \<and> row_h b' base w n x \<le> fwd_h w ?f n" if n: "n < w" for n
      using rows_error(2) [OF kept b M small n x] by (simp add: within_def col_h_def)
  qed (use small M y in auto)
  then show ?thesis by (simp add: within_def)
qed

section \<open>The three levels of a tile\<close>

definition enc :: "nat \<Rightarrow> nat \<Rightarrow> i16 list \<Rightarrow> i16 list" where
  "enc base w b = fill (bands_target b base w) {base..<base + 4 * w * w} b"

definition dec :: "nat \<Rightarrow> nat \<Rightarrow> i16 list \<Rightarrow> i16 list" where
  "dec base w b = fill (block_target (block_inv b base w) base (2 * w)) {base..<base + 4 * w * w} b"

lemma length_enc_dec [simp]: "length (enc base w b) = length b" "length (dec base w b) = length b"
  by (simp_all add: enc_def dec_def)

lemma enc_dec_outside:
  assumes "i < length b" and "i < base \<or> base + 4 * w * w \<le> i"
  shows "enc base w b ! i = b ! i" "dec base w b ! i = b ! i"
  using assms by (auto simp: enc_def dec_def)

lemma enc_inside: "base + 4 * w * w \<le> length b \<Longrightarrow> base \<le> i \<Longrightarrow> i < base + 4 * w * w \<Longrightarrow> enc base w b ! i = bands_target b base w i"
  by (simp add: enc_def)

lemma s16_sint [simp]: "s16 (sint (v :: i16)) = sint v"
  by (simp add: s16_def)

lemma bands_kept_enc:
  assumes "base + 4 * w * w \<le> length b"
    and "\<And>i. base \<le> i \<Longrightarrow> i < base + w * w * 3 \<Longrightarrow> c ! i = enc base w b ! i"
    and "\<And>i. base + w * w * 3 \<le> i \<Longrightarrow> i < base + w * w * 4 \<Longrightarrow> within E U (val (enc base w b) i) (val c i)"
  shows "bands_kept b c base w E U"
  unfolding bands_kept_def
proof (intro conjI allI impI)
  fix i assume i: "base \<le> i \<and> i < base + w * w * 3"
  then show "c ! i = bands_target b base w i" using assms(2) [of i] enc_inside [OF assms(1), of i] by simp
next
  fix i assume i: "base + w * w * 3 \<le> i \<and> i < base + w * w * 4"
  then have "within E U (sint (bands_target b base w i)) (val c i)"
    using assms(3) [of i] enc_inside [OF assms(1), of i] by simp
  then show "\<exists>e\<ge>- E. e \<le> U \<and> val c i = s16 (sint (bands_target b base w i) + e)"
    by (intro exI [of _ "val c i - sint (bands_target b base w i)"]) (simp add: within_def)
qed

lemma dec_error:
  assumes "bands_kept b c base w E U" and "bounded b base w M" and "3 * M + 4 \<le> 64000"
    and "0 \<le> E" "0 \<le> U" "E \<le> 90" "U \<le> 90" and c: "base + 4 * w * w \<le> length c" and w: "0 < w"
    and i: "base \<le> i" "i < base + 4 * w * w"
  shows "within (E + 8) (U + 2) (val b i) (val (dec base w c) i)"
proof -
  let ?y = "(i - base) div (2 * w)" and ?x = "(i - base) mod (2 * w)"
  have y: "?y < 2 * w" and x: "?x < 2 * w"
    using i w by (simp_all add: div_less_iff_less_mult mult.assoc less_diff_conv2)
  have eq: "base + ?y * (2 * w) + ?x = i" using i(1) div_mult_mod_eq [of "i - base" "2 * w"] by simp
  have "within (E + 8) (U + 2) (val b (base + ?y * (2 * w) + ?x)) (block_inv c base w ?y ?x)"
    using block_error [OF assms(1-7) y x] .
  moreover have "val (dec base w c) i = block_inv c base w ?y ?x"
    using c i by (simp add: dec_def block_target_def block_inv_def)
  ultimately show ?thesis unfolding eq by simp
qed

lemma low_band_bounded:
  assumes b: "bounded b base w M" and M: "3 * M + 4 \<le> 2 * N" "N \<le> 32000" "3 * N + 4 \<le> 2 * K" "K \<le> 32000"
    and w: "0 < w" and i: "base + w * w * 3 \<le> i" "i < base + w * w * 4"
  shows "\<bar>sint (bands_target b base w i)\<bar> \<le> K"
proof -
  let ?j = "i - (base + w * w * 3)"
  let ?y = "?j div w" and ?n = "?j mod w"
  have y: "?y < w" and n: "?n < w" using i w by (simp_all add: div_less_iff_less_mult less_diff_conv2)
  have "base + w * w * 3 + ?y * w + ?n = i" using i(1) div_mult_mod_eq [of ?j w] by linarith
  then have t: "bands_target b base w i = word_of_int (fwd_l w (col_l b base w ?y) ?n)"
    using bands_target_at [OF y n, of b base 3] by (simp add: band_of_def)
  have "\<bar>col_l b base w ?y x\<bar> \<le> N" if "x < 2 * w" for x
    using columns_bounded(2) [OF b _ y that] M(1,2) by linarith
  then have "2 * \<bar>lift w (col_l b base w ?y) ?n\<bar> \<le> 3 * N + 4" using lift_bound [OF _ M(2) n] by blast
  then have L: "\<bar>lift w (col_l b base w ?y) ?n\<bar> \<le> K" using M(3) by linarith
  then have "s16 (lift w (col_l b base w ?y) ?n) = lift w (col_l b base w ?y) ?n" using M(4) by (intro s16_id) linarith+
  then show ?thesis unfolding t sint_fwd using L by (simp add: fwd_l_lift)
qed

lemma enc_bounded:
  assumes "bounded b base w M" and "3 * M + 4 \<le> 2 * N" "N \<le> 32000" "3 * N + 4 \<le> 2 * K" "K \<le> 32000"
    and "0 < w" and "base + 4 * w * w \<le> length b" and "base' = base + w * w * 3" and "w' * w' * 4 = w * w"
  shows "bounded (enc base w b) base' w' K"
  unfolding bounded_def
proof (intro allI impI)
  fix i assume i: "base' \<le> i \<and> i < base' + w' * w' * 4"
  then have i': "base + w * w * 3 \<le> i" "i < base + w * w * 4" using assms(8,9) by linarith+
  then have "base \<le> i" "i < base + 4 * w * w" by simp_all
  then show "\<bar>val (enc base w b) i\<bar> \<le> K"
    using low_band_bounded [OF assms(1-6) i'] by (simp add: enc_inside [OF assms(7)])
qed

definition tile_enc :: "i16 list \<Rightarrow> i16 list" where
  "tile_enc b = enc 3840 8 (enc 3072 16 (enc 0 32 b))"

definition tile_dec :: "i16 list \<Rightarrow> i16 list" where
  "tile_dec b = dec 0 32 (dec 3072 16 (dec 3840 8 b))"

lemma length_tile [simp]: "length (tile_enc b) = length b" "length (tile_dec b) = length b"
  by (simp_all add: tile_enc_def tile_dec_def)

lemma dwt_encode_tile:
  assumes "4096 \<le> length b" and "4096 \<le> length d"
  shows "\<exists>d'. rfx_dwt_2d_encode (b, d) = Some (tile_enc b, d') \<and> length d' = length d"
  using assms by (simp add: rfx_dwt_2d_encode_def encode_block tile_enc_def enc_def)

lemma dwt_decode_tile:
  assumes "4096 \<le> length b" and "4096 \<le> length d"
  shows "\<exists>d'. rfx_dwt_2d_decode (b, d) = Some (tile_dec b, d') \<and> length d' = length d"
  using assms by (simp add: rfx_dwt_2d_decode_def decode_block tile_dec_def dec_def)

lemma tile_error:
  assumes len: "4096 \<le> length b" and M: "\<And>i. i < 4096 \<Longrightarrow> \<bar>val b i\<bar> \<le> 4096" and i: "i < 4096"
  shows "within 24 6 (val b i) (val (tile_dec (tile_enc b)) i)"
proof -
  define b1 where "b1 = enc 0 32 b"
  define b2 where "b2 = enc 3072 16 b1"
  define b3 where "b3 = enc 3840 8 b2"
  define c2 where "c2 = dec 3840 8 b3"
  define c1 where "c1 = dec 3072 16 c2"
  have l: "length b1 = length b" "length b2 = length b" "length b3 = length b" "length c2 = length b" "length c1 = length b"
    by (simp_all add: b1_def b2_def b3_def c2_def c1_def)
  have B0: "bounded b 0 32 4096" using M by (simp add: bounded_def)
  have B1: "bounded b1 3072 16 9221" unfolding b1_def
    by (rule enc_bounded [where N = 6146, OF B0]) (use len in simp_all)
  have B2: "bounded b2 3840 8 20753" unfolding b2_def
    by (rule enc_bounded [where N = 13834, OF B1]) (use len l in simp_all)
  have "bands_kept b2 b3 3840 8 0 0"
    by (rule bands_kept_enc) (use len l in \<open>simp_all add: b3_def within_def\<close>)
  then have w2: "within 8 2 (val b2 i) (val c2 i)" if "3840 \<le> i" "i < 4096" for i
    using dec_error [OF _ B2, of b3 0 0 i] that len l by (simp add: c2_def)
  have o2: "c2 ! i = b2 ! i" if "i < 3840" for i
    using that len l enc_dec_outside(1) [of i b2 3840 8] enc_dec_outside(2) [of i b3 3840 8] by (simp add: c2_def b3_def)
  have "bands_kept b1 c2 3072 16 8 2"
    by (rule bands_kept_enc) (use len l w2 o2 in \<open>simp_all flip: b2_def\<close>)
  then have w1: "within 16 4 (val b1 i) (val c1 i)" if "3072 \<le> i" "i < 4096" for i
    using dec_error [OF _ B1, of c2 8 2 i] that len l by (simp add: c1_def)
  have o1: "c1 ! i = b1 ! i" if "i < 3072" for i
    using that len l enc_dec_outside(1) [of i b1 3072 16] enc_dec_outside(2) [of i c2 3072 16] o2 [of i]
    by (simp add: c1_def b2_def)
  have "bands_kept b c1 0 32 16 4"
    by (rule bands_kept_enc) (use len l w1 o1 in \<open>simp_all flip: b1_def\<close>)
  then have "within 24 6 (val b i) (val (dec 0 32 c1) i)"
    using dec_error [OF _ B0, of c1 16 4 i] i len l by simp
  then show ?thesis by (simp add: tile_enc_def tile_dec_def c1_def c2_def b3_def b2_def b1_def)
qed

section \<open>Properties\<close>

text \<open>
  C6: A tile of colour values in the range the encoder produces survives the wavelet transform: both
  directions return, stay inside the arrays, and every value comes back at most 24 too low and at most 6 too
  high, which is below the 32 steps of one 8-bit colour level. The arithmetic is that of 16-bit cells with
  wrap-around.
\<close>

theorem dwt_tile_roundtrip:
  assumes "length tile = 4096" and "\<forall>v \<in> set tile. - 4096 \<le> sint v \<and> sint v \<le> 4096"
    and "4096 \<le> length dwt" and "4096 \<le> length idwt"
  shows "\<exists>bands dwt' tile' idwt'. rfx_dwt_2d_encode (tile, dwt) = Some (bands, dwt')
    \<and> rfx_dwt_2d_decode (bands, idwt) = Some (tile', idwt') \<and> length tile' = 4096
    \<and> (\<forall>i<4096. sint (tile ! i) - 24 \<le> sint (tile' ! i) \<and> sint (tile' ! i) \<le> sint (tile ! i) + 6)"
proof -
  have M: "\<bar>val tile i\<bar> \<le> 4096" if "i < 4096" for i
  proof -
    have "tile ! i \<in> set tile" using that assms(1) by simp
    with assms(2) have "- 4096 \<le> val tile i" "val tile i \<le> 4096" by blast+
    then show ?thesis by linarith
  qed
  obtain dwt' where "rfx_dwt_2d_encode (tile, dwt) = Some (tile_enc tile, dwt')"
    using dwt_encode_tile [of tile dwt] assms(1,3) by auto
  moreover obtain idwt' where "rfx_dwt_2d_decode (tile_enc tile, idwt) = Some (tile_dec (tile_enc tile), idwt')"
    using dwt_decode_tile [of "tile_enc tile" idwt] assms(1,4) by auto
  ultimately show ?thesis using tile_error [of tile] M assms(1) by (simp add: within_def)
qed

theorem dwt_tile_roundtrip_witness:
  "\<exists>bands dwt' tile' idwt'. rfx_dwt_2d_encode (map word_of_nat [0..<4096], replicate 4096 0) = Some (bands, dwt')
    \<and> rfx_dwt_2d_decode (bands, replicate 4096 0) = Some (tile', idwt') \<and> length tile' = 4096
    \<and> (\<forall>i<4096. int i - 24 \<le> sint (tile' ! i) \<and> sint (tile' ! i) \<le> int i + 6)"
proof -
  have s: "sint (word_of_nat i :: i16) = int i" if "i < 4096" for i
    using that by (simp add: signed_of_nat signed_take_bit_int_eq_self)
  show ?thesis
    using dwt_tile_roundtrip [of "map word_of_nat [0..<4096]" "replicate 4096 0" "replicate 4096 0"] by (simp add: s)
qed

end
