(* ===== verification/Rfx_Rlgr_Correct.thy ===== *)
theory Rfx_Rlgr_Correct
  imports Rfx_Rlgr
begin

text \<open>
  Correctness of the entropy coder. \<open>rlgr_bits\<close> is the bit string the encoder means to write for a list
  of coefficients; the encoder writes it, as far as the buffer goes, and the decoder reads it back.
\<close>

declare GetMinBits.simps [simp del]

section \<open>The code as bit strings\<close>

definition upd :: "int \<Rightarrow> int \<Rightarrow> int" where
  "upd p d = max 0 (min 80 (p + d))"

lemma UpdateParam_upd: "UpdateParam p d = (upd p d, upd p d div 8)"
  by (simp add: UpdateParam_def upd_def KPMAX_def LSGR_def drop_bit_eq_div Let_def max_def min_def)

lemma upd_range [simp]: "0 \<le> upd p d" "upd p d \<le> 80"
  by (simp_all add: upd_def)

lemma shift_LSGR [simp]: "drop_bit LSGR (p :: int) = p div 8" "push_bit LSGR (1 :: int) = 8"
  by (simp_all add: LSGR_def drop_bit_eq_div push_bit_eq_mult)

definition kof :: "int \<Rightarrow> nat" where
  "kof p = nat (p div 8)"

definition gr_bits :: "int \<Rightarrow> nat \<Rightarrow> bool list" where
  "gr_bits krp m = replicate (m div 2 ^ kof krp) True @ False # bits_of (kof krp) (word_of_nat m :: u16)"

definition gr_next :: "int \<Rightarrow> nat \<Rightarrow> int" where
  "gr_next krp m = (let vk = m div 2 ^ kof krp in
     if vk = 0 then upd krp (-2) else if vk = 1 then krp else upd krp (int vk))"

function zero_runs :: "int \<Rightarrow> nat \<Rightarrow> bool list \<times> int \<times> nat" where
  "zero_runs kp n =
     (if n \<ge> 2 ^ kof kp then let (bs, kp', r) = zero_runs (upd kp 4) (n - 2 ^ kof kp) in (False # bs, kp', r)
      else ([], kp, n))"
  by auto
termination
proof (relation "measure snd")
  fix kp n
  assume le: "2 ^ kof kp \<le> (n :: nat)"
  have "0 < (2 :: nat) ^ kof kp" by simp
  with le have "n - 2 ^ kof kp < n" by linarith
  then show "((upd kp 4, n - 2 ^ kof kp), kp, n) \<in> measure snd" by simp
qed simp

declare zero_runs.simps [simp del]

definition mag2 :: "int \<Rightarrow> nat" where
  "mag2 x = nat (if x \<ge> 0 then 2 * x else -2 * x - 1)"

definition kp3 :: "int \<Rightarrow> nat \<Rightarrow> nat \<Rightarrow> int" where
  "kp3 kp a b = (if a \<noteq> 0 \<and> b \<noteq> 0 then upd kp (-6) else if a = 0 \<and> b = 0 then upd kp 6 else kp)"

lemma collect_zeros_split:
  assumes "collect_zeros n (sint x) xs = (n', input, rest)"
  shows "\<exists>j. x # xs = replicate j 0 @ word_of_int input # rest \<and> n' = n + int j \<and> (input \<noteq> 0 \<or> rest = [])
    \<and> input \<in> range (sint :: i16 \<Rightarrow> int)"
  using assms
proof (induction xs arbitrary: n x)
  case (Cons y ys)
  show ?case
  proof (cases "sint x = 0")
    case True
    then have "collect_zeros (n + 1) (sint y) ys = (n', input, rest)" using Cons.prems by simp
    from Cons.IH [OF this] obtain j where "y # ys = replicate j 0 @ word_of_int input # rest" "n' = n + 1 + int j"
      "input \<noteq> 0 \<or> rest = []" "input \<in> range (sint :: i16 \<Rightarrow> int)" by blast
    with True show ?thesis by (intro exI [of _ "Suc j"]) (simp add: signed_eq_0_iff)
  next
    case False
    with Cons.prems show ?thesis by (intro exI [of _ 0]) auto
  qed
next
  case Nil
  then show ?case by (intro exI [of _ 0]) auto
qed

lemma collect_zeros_length:
  "length (snd (snd (collect_zeros n input xs))) \<le> length xs"
  by (induction n input xs rule: collect_zeros.induct) auto

function rlgr_bits :: "RLGR_MODE \<Rightarrow> int \<Rightarrow> int \<Rightarrow> i16 list \<Rightarrow> bool list" where
  "rlgr_bits mode kp krp [] = []"
| "rlgr_bits mode kp krp (x # xs) =
    (if kof kp \<noteq> 0 then
       let (z, input, rest) = collect_zeros 0 (sint x) xs; (runs, kp', r) = zero_runs kp (nat z); m = nat (\<bar>input\<bar> - 1)
       in runs @ True # bits_of (kof kp') (word_of_nat r :: u16) @ (input < 0) # gr_bits krp m
          @ rlgr_bits mode (upd kp' (-6)) (gr_next krp m) rest
     else case mode of
       RLGR1 \<Rightarrow> let m = mag2 (sint x)
         in gr_bits krp m @ rlgr_bits mode (upd kp (if m \<noteq> 0 then -3 else 3)) (gr_next krp m) xs
     | RLGR3 \<Rightarrow> let a = mag2 (sint x); b = mag2 (fst (GetNextInput xs)); m = a + b
         in gr_bits krp m @ bits_of (GetMinBits (word_of_nat m) 0) (word_of_nat a :: u16)
            @ rlgr_bits mode (kp3 kp a b) (gr_next krp m) (tl xs))"
  by pat_completeness auto
termination
proof (relation "measure (\<lambda>(mode, kp, krp, data). length data)")
  fix mode kp krp xs z p input rest runs q kp' r m and x :: i16
  assume "p = collect_zeros 0 (sint x) xs" "(z, q) = p" "(input, rest) = q"
  then have "snd (snd (collect_zeros 0 (sint x) xs)) = rest" by (metis snd_conv)
  then have "length rest \<le> length xs" using collect_zeros_length by metis
  then show "((mode, upd kp' (-6), gr_next krp m, rest), mode, kp, krp, x # xs)
      \<in> measure (\<lambda>(mode, kp, krp, data). length data)" by simp
qed auto

declare rlgr_bits.simps [simp del]

section \<open>The encoder writes the bit string\<close>

definition puts :: "RFX_BITSTREAM \<Rightarrow> RFX_BITSTREAM \<Rightarrow> bool list \<Rightarrow> bool" where
  "puts bs bs' l \<longleftrightarrow> bitstream_ok bs' \<and> length (bs_buffer bs') = length (bs_buffer bs)
    \<and> written bs' = take (8 * length (bs_buffer bs)) (written bs @ l)"

lemma take_take_append: "take n (take n xs @ ys) = take n (xs @ ys)"
  by (cases "length xs \<le> n") auto

lemma puts_trans: "puts a b l \<Longrightarrow> puts b c m \<Longrightarrow> puts a c (l @ m)"
  by (simp add: puts_def take_take_append del: take_append)

lemma puts_refl: "bitstream_ok bs \<Longrightarrow> puts bs bs []"
proof -
  assume ok: "bitstream_ok bs"
  then have "length (written bs) \<le> 8 * length (bs_buffer bs)"
    by (simp add: length_written) (simp add: bitstream_ok_def)
  with ok show ?thesis by (simp add: puts_def)
qed

lemma puts_ok: "puts a b l \<Longrightarrow> bitstream_ok b"
  by (simp add: puts_def)

lemma OutputBits_puts:
  assumes "bitstream_ok bs"
  shows "\<exists>bs'. OutputBits bs (int k) w = Some bs' \<and> puts bs bs' (bits_of k w)"
  using put_bits_writes [OF assms, of w k] by (auto simp: OutputBits_def puts_def)

lemma bits_of_all: "k \<le> 16 \<Longrightarrow> bits_of k (if b then 0xFFFF else 0 :: u16) = replicate k b"
proof (rule nth_equalityI)
  fix i
  assume k: "k \<le> 16" and "i < length (bits_of k (if b then 0xFFFF else 0 :: u16))"
  then have i: "i < k" by simp
  have "bit (mask 16 :: u16) j" if "j < 16" for j using that by (simp add: bit_mask_iff)
  then have "bit (0xFFFF :: u16) j" if "j < 16" for j using that by (simp add: mask_eq_exp_minus_1)
  with i k show "bits_of k (if b then 0xFFFF else 0 :: u16) ! i = replicate k b ! i"
    by (auto simp: bits_of_def rev_nth)
qed simp

lemma OutputBit_puts:
  assumes "bitstream_ok bs"
  shows "\<exists>bs'. OutputBit bs (int n) b = Some bs' \<and> puts bs bs' (replicate n b)"
  using assms
proof (induction n arbitrary: bs rule: less_induct)
  case (less n)
  show ?case
  proof (cases "n = 0")
    case True
    then show ?thesis using puts_refl [OF less.prems] by (subst OutputBit.simps) simp
  next
    case False
    define c where "c = min n 16"
    have c: "c \<le> 16" by (simp add: c_def)
    obtain bs1 where p1: "rfx_bitstream_put_bits bs (if b then 0xFFFF else 0) c = Some bs1" "puts bs bs1 (replicate c b)"
      using put_bits_writes [OF less.prems, of "if b then 0xFFFF else 0" c] bits_of_all [OF c, of b]
      by (auto simp: puts_def)
    have step: "OutputBit bs (int n) b = OutputBit bs1 (int n - 16) b"
      using False p1(1) by (subst OutputBit.simps) (auto simp: c_def min_def split: if_splits)
    show ?thesis
    proof (cases "n \<le> 16")
      case True
      then have "OutputBit bs1 (int n - 16) b = Some bs1" by (subst OutputBit.simps) simp
      with step p1(2) True show ?thesis by (simp add: c_def min_def)
    next
      case n: False
      have "int n - 16 = int (n - 16)" using n by simp
      moreover obtain bs2 where p2: "OutputBit bs1 (int (n - 16)) b = Some bs2" "puts bs1 bs2 (replicate (n - 16) b)"
        using less.IH [of "n - 16" bs1] puts_ok [OF p1(2)] n by auto
      ultimately show ?thesis using step puts_trans [OF p1(2) p2(2)] n
        by (simp add: c_def min_def flip: replicate_add)
    qed
  qed
qed

lemma OutputBit_one:
  assumes "bitstream_ok bs"
  shows "\<exists>bs'. OutputBit bs 1 b = Some bs' \<and> puts bs bs' [b]"
  using OutputBit_puts [OF assms, of 1 b] by simp

lemma kof_le: "p \<le> 80 \<Longrightarrow> kof p \<le> 10"
  by (simp add: kof_def)

lemma int_kof: "0 \<le> p \<Longrightarrow> int (kof p) = p div 8"
  by (simp add: kof_def)

lemma kof_zero: "0 \<le> p \<Longrightarrow> kof p = 0 \<longleftrightarrow> p div 8 = 0"
  using pos_imp_zdiv_nonneg_iff [of 8 p] by (auto simp: kof_def)

lemma gr_next_range: "0 \<le> krp \<Longrightarrow> krp \<le> 80 \<Longrightarrow> 0 \<le> gr_next krp m \<and> gr_next krp m \<le> 80"
  by (simp add: gr_next_def Let_def)

lemma drop_bit_word_of_nat:
  "m < 2 ^ 32 \<Longrightarrow> drop_bit k (word_of_nat m :: u32) = word_of_nat (m div 2 ^ k)"
proof -
  assume m: "m < 2 ^ 32"
  have "m div 2 ^ k < 2 ^ 32" using m by (meson div_le_dividend le_less_trans)
  then have "unat (word_of_nat (m div 2 ^ k) :: u32) = m div 2 ^ k" by (simp add: unsigned_of_nat take_bit_nat_eq_self)
  moreover have "unat (drop_bit k (word_of_nat m :: u32)) = drop_bit k m"
    using m by (simp add: unsigned_drop_bit_eq unsigned_of_nat take_bit_nat_eq_self)
  ultimately show ?thesis by (simp only: word_unat_eq_iff drop_bit_eq_div [of k m])
qed

lemma sint_word_of_nat: "m < 2 ^ 31 \<Longrightarrow> sint (word_of_nat m :: u32) = int m"
  by (simp add: signed_of_nat signed_take_bit_int_eq_self)

lemma code_gr_puts:
  assumes "bitstream_ok bs" and "0 \<le> krp" and "krp \<le> 80" and "m < 2 ^ 31"
  shows "\<exists>bs'. rfx_rlgr_code_gr bs krp (word_of_nat m) = Some (gr_next krp m, bs') \<and> puts bs bs' (gr_bits krp m)"
proof -
  let ?k = "kof krp" and ?v = "m div 2 ^ kof krp"
  have v: "drop_bit ?k (word_of_nat m :: u32) = word_of_nat ?v" using assms(4) by (simp add: drop_bit_word_of_nat)
  have lv: "?v < 2 ^ 31" using assms(4) by (meson div_le_dividend le_less_trans)
  have sv: "sint (word_of_nat ?v :: u32) = int ?v" using lv by (rule sint_word_of_nat)
  have uv: "unat (word_of_nat ?v :: u32) = ?v" using lv by (simp add: unat_of_nat)
  obtain bs1 where b1: "OutputBit bs (int ?v) True = Some bs1" "puts bs bs1 (replicate ?v True)"
    using OutputBit_puts [OF assms(1)] by blast
  obtain bs2 where b2: "OutputBit bs1 1 False = Some bs2" "puts bs1 bs2 [False]"
    using OutputBit_one [OF puts_ok [OF b1(2)]] by blast
  obtain bs3 where b3: "OutputBits bs2 (int ?k) (ucast ((word_of_nat m :: u32) AND mask ?k)) = Some bs3"
    "puts bs2 bs3 (bits_of ?k (ucast ((word_of_nat m :: u32) AND mask ?k) :: u16))"
    using OutputBits_puts [OF puts_ok [OF b2(2)]] by blast
  have "bits_of ?k (ucast ((word_of_nat m :: u32) AND mask ?k) :: u16) = bits_of ?k (word_of_nat m :: u16)"
    using kof_le [OF assms(3)] by (auto simp: bits_of_def bit_simps)
  then have p: "puts bs bs3 (gr_bits krp m)"
    using puts_trans [OF puts_trans [OF b1(2) b2(2)] b3(2)] by (simp add: gr_bits_def)
  have e: "(if krp div 8 \<noteq> 0 then OutputBits bs2 (krp div 8) (ucast ((word_of_nat m :: u32) AND mask ?k)) else Some bs2) = Some bs3"
    using b3(1) int_kof [OF assms(2)] puts_ok [OF b2(2)]
    by (auto simp: OutputBits_def rfx_bitstream_put_bits_def put_bits_loop.simps)
  have k: "nat (krp div 8) = ?k" by (simp add: kof_def)
  have n: "(if (word_of_nat ?v :: u32) = 0 then upd krp (-2) else if 1 < (word_of_nat ?v :: u32) then upd krp (int ?v) else krp)
      = gr_next krp m"
    using uv by (auto simp: gr_next_def Let_def word_less_nat_alt word_unat_eq_iff)
  have "rfx_rlgr_code_gr bs krp (word_of_nat m) = Some (gr_next krp m, bs3)"
    unfolding rfx_rlgr_code_gr_def shift_LSGR k v Let_def sv UpdateParam_upd fst_conv n
    by (simp add: b1(1) b2(1) e [unfolded Let_def] del: of_nat_div)
  with p show ?thesis by blast
qed

lemma encode_zero_runs_puts:
  assumes "bitstream_ok (re_bs e)" and "re_k e = re_kp e div 8" and "0 \<le> re_kp e"
  shows "\<exists>bs'. encode_zero_runs e (int n) = Some (int (snd (snd (zero_runs (re_kp e) n))),
      e\<lparr>re_bs := bs', re_kp := fst (snd (zero_runs (re_kp e) n)), re_k := fst (snd (zero_runs (re_kp e) n)) div 8\<rparr>)
    \<and> puts (re_bs e) bs' (fst (zero_runs (re_kp e) n))"
  using assms
proof (induction "re_kp e" n arbitrary: e rule: zero_runs.induct)
  case (1 n e)
  have k: "nat (re_k e) = kof (re_kp e)" using 1(3) by (simp add: kof_def)
  show ?case
  proof (cases "2 ^ kof (re_kp e) \<le> n")
    case False
    then have "encode_zero_runs e (int n) = Some (int n, e)"
      by (subst encode_zero_runs.simps) (simp add: k push_bit_eq_mult)
    with False show ?thesis
      using puts_refl [OF 1(2)] 1(3) by (intro exI [of _ "re_bs e"]) (simp add: zero_runs.simps)
  next
    case True
    obtain bs1 where b1: "OutputBit (re_bs e) 1 False = Some bs1" "puts (re_bs e) bs1 [False]"
      using OutputBit_one [OF 1(2)] by blast
    let ?e = "encode_kp (e\<lparr>re_bs := bs1\<rparr>) UP_GR"
    have e: "?e = e\<lparr>re_bs := bs1, re_kp := upd (re_kp e) 4, re_k := upd (re_kp e) 4 div 8\<rparr>"
      by (simp add: encode_kp_def UpdateParam_upd UP_GR_def)
    let ?n = "n - 2 ^ kof (re_kp e)" and ?z = "zero_runs (upd (re_kp e) 4) (n - 2 ^ kof (re_kp e))"
    have s: "encode_zero_runs e (int n) = encode_zero_runs ?e (int ?n)"
      using True b1(1) by (subst encode_zero_runs.simps) (simp add: k push_bit_eq_mult of_nat_diff)
    obtain bs2 where b2: "encode_zero_runs ?e (int ?n) = Some (int (snd (snd ?z)),
        ?e\<lparr>re_bs := bs2, re_kp := fst (snd ?z), re_k := fst (snd ?z) div 8\<rparr>)" "puts bs1 bs2 (fst ?z)"
      using 1(1) [OF True, of ?e] puts_ok [OF b1(2)] by (auto simp: e)
    have z: "zero_runs (re_kp e) n = (False # fst ?z, fst (snd ?z), snd (snd ?z))"
      using True by (subst zero_runs.simps) (simp add: split_beta Let_def)
    show ?thesis using s b2 puts_trans [OF b1(2) b2(2)]
      by (intro exI [of _ bs2]) (simp add: z e)
  qed
qed

definition enc_ok :: "rlgr_encoder \<Rightarrow> bool" where
  "enc_ok e \<longleftrightarrow> bitstream_ok (re_bs e) \<and> re_k e = re_kp e div 8 \<and> 0 \<le> re_kp e \<and> re_kp e \<le> 80
    \<and> 0 \<le> re_krp e \<and> re_krp e \<le> 80"

lemma zero_runs_range:
  "0 \<le> kp \<Longrightarrow> kp \<le> 80 \<Longrightarrow> 0 \<le> fst (snd (zero_runs kp n)) \<and> fst (snd (zero_runs kp n)) \<le> 80"
proof (induction kp n rule: zero_runs.induct)
  case (1 kp n)
  then show ?case
    by (cases "2 ^ kof kp \<le> n") (simp_all add: zero_runs.simps [of kp n] split_beta Let_def)
qed

lemma zero_runs_rest: "snd (snd (zero_runs kp n)) < 2 ^ kof (fst (snd (zero_runs kp n)))"
proof (induction kp n rule: zero_runs.induct)
  case (1 kp n)
  then show ?case
    by (cases "2 ^ kof kp \<le> n") (simp_all add: zero_runs.simps [of kp n] split_beta Let_def)
qed

lemma sint_i16_range: "- 32768 \<le> sint (x :: i16)" "sint (x :: i16) < 32768"
  using sint_greater_eq [of x] sint_less [of x] by simp_all

lemma mag2_less: "mag2 (sint (x :: i16)) < 65536"
  using sint_i16_range [of x] by (auto simp: mag2_def)

lemma Get2MagSign_mag2: "Get2MagSign x = word_of_nat (mag2 x)"
  by (simp add: Get2MagSign_def mag2_def)

lemma encode_rl_puts:
  assumes "enc_ok e" and cz: "collect_zeros 0 (sint x) xs = (z, input, rest)"
    and zr: "zero_runs (re_kp e) (nat z) = (runs, kp', r)"
  defines "m \<equiv> nat (\<bar>input\<bar> - 1)"
  shows "\<exists>bs'. encode_rl e (x # xs) = Some (e\<lparr>re_bs := bs', re_krp := gr_next (re_krp e) m, re_kp := upd kp' (-6),
      re_k := upd kp' (-6) div 8\<rparr>, rest)
    \<and> puts (re_bs e) bs' (runs @ True # bits_of (kof kp') (word_of_nat r :: u16) @ (input < 0) # gr_bits (re_krp e) m)"
proof -
  obtain j where j: "z = int j" and inp: "input \<in> range (sint :: i16 \<Rightarrow> int)" using collect_zeros_split [OF cz] by auto
  obtain y :: i16 where y: "input = sint y" using inp by blast
  have m: "m < 2 ^ 31" using sint_i16_range [of y] by (simp add: m_def y)
  have kp': "0 \<le> kp'" using zero_runs_range [of "re_kp e" "nat z"] assms(1) zr by (simp add: enc_ok_def)
  obtain bs1 where b1: "encode_zero_runs e z = Some (int r, e\<lparr>re_bs := bs1, re_kp := kp', re_k := kp' div 8\<rparr>)"
    "puts (re_bs e) bs1 runs"
    using encode_zero_runs_puts [of e "nat z"] assms(1) zr j by (auto simp: enc_ok_def)
  obtain bs2 where b2: "OutputBit bs1 1 True = Some bs2" "puts bs1 bs2 [True]"
    using OutputBit_one [OF puts_ok [OF b1(2)]] by blast
  obtain bs3 where b3: "OutputBits bs2 (kp' div 8) (word_of_nat r) = Some bs3" "puts bs2 bs3 (bits_of (kof kp') (word_of_nat r :: u16))"
    using OutputBits_puts [OF puts_ok [OF b2(2)], of "kof kp'" "word_of_nat r"] int_kof [OF kp'] by auto
  obtain bs4 where b4: "OutputBit bs3 1 (input < 0) = Some bs4" "puts bs3 bs4 [input < 0]"
    using OutputBit_one [OF puts_ok [OF b3(2)]] by blast
  obtain bs5 where b5: "rfx_rlgr_code_gr bs4 (re_krp e) (word_of_nat m) = Some (gr_next (re_krp e) m, bs5)"
    "puts bs4 bs5 (gr_bits (re_krp e) m)"
    using code_gr_puts [OF puts_ok [OF b4(2)] _ _ m] assms(1) by (auto simp: enc_ok_def)
  define mag where "mag = (if input < 0 then - input else input)"
  have mw: "(word_of_int (if mag \<noteq> 0 then mag - 1 else 0) :: u32) = word_of_nat m"
    by (auto simp: m_def mag_def)
  have "encode_rl e (x # xs) = Some (encode_kp (e\<lparr>re_kp := kp', re_k := kp' div 8, re_bs := bs5, re_krp := gr_next (re_krp e) m\<rparr>)
      (- DN_GR), rest)"
    by (simp add: encode_rl_def cz b1(1) b2(1) b3(1) b4(1) mw [unfolded mag_def] b5(1))
  moreover have "puts (re_bs e) bs5 (runs @ True # bits_of (kof kp') (word_of_nat r :: u16) @ (input < 0) # gr_bits (re_krp e) m)"
    using puts_trans [OF puts_trans [OF puts_trans [OF puts_trans [OF b1(2) b2(2)] b3(2)] b4(2)] b5(2)] by simp
  ultimately show ?thesis by (intro exI [of _ bs5]) (simp add: encode_kp_def UpdateParam_upd DN_GR_def)
qed

lemma mag2_next: "mag2 (fst (GetNextInput xs)) < 65536"
  by (cases xs) (simp add: mag2_def, simp add: mag2_less)

lemma word_of_nat_zero_iff: "m < 2 ^ 32 \<Longrightarrow> (word_of_nat m :: u32) = 0 \<longleftrightarrow> m = 0"
  by (simp add: word_unat_eq_iff unsigned_of_nat take_bit_nat_eq_self)

lemma encode_gr1_puts:
  fixes x :: i16
  assumes "enc_ok e"
  defines "m \<equiv> mag2 (sint x)"
  shows "\<exists>bs'. encode_gr RLGR1 e (x # xs) = Some (e\<lparr>re_bs := bs', re_krp := gr_next (re_krp e) m,
      re_kp := upd (re_kp e) (if m \<noteq> 0 then -3 else 3), re_k := upd (re_kp e) (if m \<noteq> 0 then -3 else 3) div 8\<rparr>, xs)
    \<and> puts (re_bs e) bs' (gr_bits (re_krp e) m)"
proof -
  have m: "m < 65536" unfolding m_def by (rule mag2_less)
  then have z: "(word_of_nat m :: u32) = 0 \<longleftrightarrow> m = 0" by (intro word_of_nat_zero_iff) simp
  obtain bs1 where b1: "rfx_rlgr_code_gr (re_bs e) (re_krp e) (word_of_nat m) = Some (gr_next (re_krp e) m, bs1)"
    "puts (re_bs e) bs1 (gr_bits (re_krp e) m)"
    using code_gr_puts [of "re_bs e" "re_krp e" m] assms(1) m by (auto simp: enc_ok_def)
  have g: "Get2MagSign (sint x) = word_of_nat m" by (simp add: Get2MagSign_mag2 m_def)
  have "encode_gr RLGR1 e (x # xs) = Some (encode_kp (e\<lparr>re_bs := bs1, re_krp := gr_next (re_krp e) m\<rparr>)
      (if m \<noteq> 0 then - DQ_GR else UQ_GR), xs)"
    by (simp add: encode_gr_def g b1(1) z)
  then show ?thesis using b1(2)
    by (intro exI [of _ bs1]) (simp add: encode_kp_def UpdateParam_upd DQ_GR_def UQ_GR_def)
qed

lemma encode_gr3_puts:
  fixes x :: i16 and xs :: "i16 list"
  assumes "enc_ok e"
  defines "a \<equiv> mag2 (sint x)" and "b \<equiv> mag2 (fst (GetNextInput xs))"
  shows "\<exists>bs'. encode_gr RLGR3 e (x # xs) = Some (e\<lparr>re_bs := bs', re_krp := gr_next (re_krp e) (a + b),
      re_kp := kp3 (re_kp e) a b, re_k := kp3 (re_kp e) a b div 8\<rparr>, tl xs)
    \<and> puts (re_bs e) bs' (gr_bits (re_krp e) (a + b) @ bits_of (GetMinBits (word_of_nat (a + b)) 0) (word_of_nat a :: u16))"
proof -
  have ab: "a < 65536" "b < 65536" unfolding a_def b_def by (rule mag2_less, rule mag2_next)
  have za: "(word_of_nat a :: u32) = 0 \<longleftrightarrow> a = 0" and zb: "(word_of_nat b :: u32) = 0 \<longleftrightarrow> b = 0"
    using ab by (intro word_of_nat_zero_iff; simp)+
  obtain bs1 where b1: "rfx_rlgr_code_gr (re_bs e) (re_krp e) (word_of_nat (a + b)) = Some (gr_next (re_krp e) (a + b), bs1)"
    "puts (re_bs e) bs1 (gr_bits (re_krp e) (a + b))"
    using code_gr_puts [of "re_bs e" "re_krp e" "a + b"] assms(1) ab by (auto simp: enc_ok_def)
  obtain bs2 where b2: "OutputBits bs1 (int (GetMinBits (word_of_nat (a + b)) 0)) (word_of_nat a) = Some bs2"
    "puts bs1 bs2 (bits_of (GetMinBits (word_of_nat (a + b)) 0) (word_of_nat a :: u16))"
    using OutputBits_puts [OF puts_ok [OF b1(2)]] by blast
  have n: "GetNextInput xs = (fst (GetNextInput xs), tl xs)" by (cases xs) simp_all
  have g: "Get2MagSign (sint x) = word_of_nat a" "Get2MagSign (fst (GetNextInput xs)) = word_of_nat b"
    by (simp_all add: Get2MagSign_mag2 a_def b_def)
  have s: "word_of_nat a + word_of_nat b = (word_of_nat (a + b) :: u32)" by simp
  have u: "ucast (word_of_nat a :: u32) = (word_of_nat a :: u16)"
    by (rule bit_word_eqI) (simp add: bit_simps)
  let ?e = "e\<lparr>re_bs := bs2, re_krp := gr_next (re_krp e) (a + b)\<rparr>"
  have "encode_gr RLGR3 e (x # xs) = Some (if a \<noteq> 0 \<and> b \<noteq> 0 then encode_kp ?e (-2 * DQ_GR)
      else if a = 0 \<and> b = 0 then encode_kp ?e (2 * UQ_GR) else ?e, tl xs)"
    unfolding encode_gr_def RLGR_MODE.case GetNextInput.simps Let_def prod.case g(1)
    by (subst n) (simp only: Let_def prod.case g s b1(1) b2(1) bind.bind_lunit u za zb)
  then show ?thesis using puts_trans [OF b1(2) b2(2)] assms(1)
    by (intro exI [of _ bs2]) (auto simp: encode_kp_def UpdateParam_upd DQ_GR_def UQ_GR_def kp3_def enc_ok_def)
qed

lemma kp3_range: "0 \<le> kp \<Longrightarrow> kp \<le> 80 \<Longrightarrow> 0 \<le> kp3 kp a b \<and> kp3 kp a b \<le> 80"
  by (simp add: kp3_def)

text \<open>One round of the main loop writes the first part of the bit string.\<close>

lemma encode_round:
  assumes "enc_ok e"
  shows "\<exists>e' rest bits. (if re_k e \<noteq> 0 then encode_rl e (x # xs) else encode_gr mode e (x # xs)) = Some (e', rest)
    \<and> enc_ok e' \<and> length rest \<le> length xs \<and> puts (re_bs e) (re_bs e') bits
    \<and> rlgr_bits mode (re_kp e) (re_krp e) (x # xs) = bits @ rlgr_bits mode (re_kp e') (re_krp e') rest"
proof (cases "re_k e = 0")
  case False
  obtain z input rest where cz: "collect_zeros 0 (sint x) xs = (z, input, rest)" by (metis prod_cases3)
  obtain runs kp' r where zr: "zero_runs (re_kp e) (nat z) = (runs, kp', r)" by (metis prod_cases3)
  have k: "kof (re_kp e) \<noteq> 0" using False assms by (simp add: enc_ok_def kof_zero)
  let ?m = "nat (\<bar>input\<bar> - 1)"
  let ?bits = "runs @ True # bits_of (kof kp') (word_of_nat r :: u16) @ (input < 0) # gr_bits (re_krp e) ?m"
  obtain bs' where b: "encode_rl e (x # xs) = Some (e\<lparr>re_bs := bs', re_krp := gr_next (re_krp e) ?m, re_kp := upd kp' (-6),
      re_k := upd kp' (-6) div 8\<rparr>, rest)" "puts (re_bs e) bs' ?bits"
    using encode_rl_puts [OF assms cz zr] by blast
  have "length rest \<le> length xs" using collect_zeros_length [of 0 "sint x" xs] by (simp add: cz)
  moreover have "enc_ok (e\<lparr>re_bs := bs', re_krp := gr_next (re_krp e) ?m, re_kp := upd kp' (-6), re_k := upd kp' (-6) div 8\<rparr>)"
    using assms puts_ok [OF b(2)] gr_next_range by (simp add: enc_ok_def)
  ultimately show ?thesis
    using b k False
    by (intro exI [of _ "e\<lparr>re_bs := bs', re_krp := gr_next (re_krp e) ?m, re_kp := upd kp' (-6), re_k := upd kp' (-6) div 8\<rparr>"]
        exI [of _ rest] exI [of _ ?bits]) (simp add: rlgr_bits.simps(2) cz zr Let_def)
next
  case True
  then have k: "kof (re_kp e) = 0" using assms by (simp add: enc_ok_def kof_zero)
  show ?thesis
  proof (cases mode)
    case RLGR1
    let ?m = "mag2 (sint x)"
    let ?kp = "upd (re_kp e) (if ?m \<noteq> 0 then -3 else 3)"
    obtain bs' where b: "encode_gr RLGR1 e (x # xs) = Some (e\<lparr>re_bs := bs', re_krp := gr_next (re_krp e) ?m,
        re_kp := ?kp, re_k := ?kp div 8\<rparr>, xs)" "puts (re_bs e) bs' (gr_bits (re_krp e) ?m)"
      using encode_gr1_puts [OF assms] by blast
    have "enc_ok (e\<lparr>re_bs := bs', re_krp := gr_next (re_krp e) ?m, re_kp := ?kp, re_k := ?kp div 8\<rparr>)"
      using assms puts_ok [OF b(2)] gr_next_range by (simp add: enc_ok_def)
    then show ?thesis using b k True RLGR1
      by (intro exI [of _ "e\<lparr>re_bs := bs', re_krp := gr_next (re_krp e) ?m, re_kp := ?kp, re_k := ?kp div 8\<rparr>"]
          exI [of _ xs] exI [of _ "gr_bits (re_krp e) ?m"]) (simp add: rlgr_bits.simps(2) Let_def)
  next
    case RLGR3
    let ?a = "mag2 (sint x)" and ?b = "mag2 (fst (GetNextInput xs))"
    let ?kp = "kp3 (re_kp e) ?a ?b"
    let ?bits = "gr_bits (re_krp e) (?a + ?b) @ bits_of (GetMinBits (word_of_nat (?a + ?b)) 0) (word_of_nat ?a :: u16)"
    obtain bs' where b: "encode_gr RLGR3 e (x # xs) = Some (e\<lparr>re_bs := bs', re_krp := gr_next (re_krp e) (?a + ?b),
        re_kp := ?kp, re_k := ?kp div 8\<rparr>, tl xs)" "puts (re_bs e) bs' ?bits"
      using encode_gr3_puts [OF assms, of x xs] by blast
    have "enc_ok (e\<lparr>re_bs := bs', re_krp := gr_next (re_krp e) (?a + ?b), re_kp := ?kp, re_k := ?kp div 8\<rparr>)"
      using assms puts_ok [OF b(2)] gr_next_range kp3_range by (simp add: enc_ok_def)
    then show ?thesis using b k True RLGR3
      by (intro exI [of _ "e\<lparr>re_bs := bs', re_krp := gr_next (re_krp e) (?a + ?b), re_kp := ?kp, re_k := ?kp div 8\<rparr>"]
          exI [of _ "tl xs"] exI [of _ ?bits]) (simp add: rlgr_bits.simps(2) Let_def)
  qed
qed

lemma encode_loop_puts:
  "enc_ok e \<Longrightarrow> \<exists>e'. rlgr_encode_loop mode e data = Some e'
    \<and> puts (re_bs e) (re_bs e') (rlgr_bits mode (re_kp e) (re_krp e) data)"
proof (induction "length data" arbitrary: data e rule: less_induct)
  case less
  show ?case
  proof (cases data)
    case Nil
    then show ?thesis using puts_refl less.prems
      by (subst rlgr_encode_loop.simps) (simp add: rlgr_bits.simps enc_ok_def)
  next
    case (Cons x xs)
    obtain e' rest bits where s: "(if re_k e \<noteq> 0 then encode_rl e (x # xs) else encode_gr mode e (x # xs)) = Some (e', rest)"
      and e': "enc_ok e'" "length rest \<le> length xs" and p: "puts (re_bs e) (re_bs e') bits"
      and bits: "rlgr_bits mode (re_kp e) (re_krp e) (x # xs) = bits @ rlgr_bits mode (re_kp e') (re_krp e') rest"
      using encode_round [OF less.prems, of x xs mode] by blast
    obtain e'' where r: "rlgr_encode_loop mode e' rest = Some e''"
      and p': "puts (re_bs e') (re_bs e'') (rlgr_bits mode (re_kp e') (re_krp e') rest)"
      using less.hyps [OF _ e'(1), of rest] e'(2) Cons by auto
    have "rlgr_encode_loop mode e data = Some e''"
      unfolding Cons by (subst rlgr_encode_loop.simps)
        (simp only: s r list.distinct not_False_eq_True if_True bind.bind_lunit prod.case)
    then show ?thesis using puts_trans [OF p p'] bits Cons by auto
  qed
qed

section \<open>The decoder reads the bit string back\<close>

definition dec_ok :: "rlgr_decoder \<Rightarrow> bool" where
  "dec_ok d \<longleftrightarrow> bitstream_ok (rd_bs d) \<and> rd_k d = rd_kp d div 8 \<and> 0 \<le> rd_kp d \<and> rd_kp d \<le> 80
    \<and> rd_kr d = rd_krp d div 8 \<and> 0 \<le> rd_krp d \<and> rd_krp d \<le> 80"

definition reads :: "RFX_BITSTREAM \<Rightarrow> bool list \<Rightarrow> bool" where
  "reads bs l \<longleftrightarrow> bitstream_ok bs \<and> remaining bs = l"

lemma GetBits_field:
  assumes "reads (rd_bs d) (bits_of k w @ rest)"
  shows "\<exists>bs'. GetBits d (int k) = Some (take_bit k w, d\<lparr>rd_bs := bs'\<rparr>) \<and> reads bs' rest"
  using get_bits_field [of "rd_bs d" k w rest] assms by (auto simp: GetBits_def reads_def)

lemma GetBits_one:
  assumes "reads (rd_bs d) (b # rest)"
  shows "\<exists>bs'. GetBits d 1 = Some (of_bool b, d\<lparr>rd_bs := bs'\<rparr>) \<and> reads bs' rest"
  using get_bit [of "rd_bs d" b rest] assms by (auto simp: GetBits_def reads_def)

lemma count_ones_reads:
  "reads (rd_bs d) (replicate n True @ False # rest) \<Longrightarrow>
    \<exists>bs'. count_ones d v = Some (v + int n, d\<lparr>rd_bs := bs'\<rparr>) \<and> reads bs' rest"
proof (induction n arbitrary: d v)
  case 0
  then obtain bs' where "GetBits d 1 = Some (0, d\<lparr>rd_bs := bs'\<rparr>)" "reads bs' rest"
    using GetBits_one [of d False rest] by auto
  then show ?case by (subst count_ones.simps) (intro exI [of _ bs'], simp)
next
  case (Suc n)
  then obtain bs' where b: "GetBits d 1 = Some (1, d\<lparr>rd_bs := bs'\<rparr>)" "reads bs' (replicate n True @ False # rest)"
    using GetBits_one [of d True "replicate n True @ False # rest"] by auto
  obtain bs'' where "count_ones (d\<lparr>rd_bs := bs'\<rparr>) (v + 1) = Some (v + 1 + int n, d\<lparr>rd_bs := bs''\<rparr>)" "reads bs'' rest"
    using Suc.IH [of "d\<lparr>rd_bs := bs'\<rparr>" "v + 1"] b(2) by auto
  with b(1) show ?case by (subst count_ones.simps) (intro exI [of _ bs''], simp add: algebra_simps)
qed

lemma join_mag:
  assumes "m < 65536"
  shows "take_bit k (word_of_nat m :: u16) OR word_of_int (push_bit k (int (m div 2 ^ k))) = word_of_nat m"
proof (rule bit_word_eqI)
  fix i
  have "word_of_int (push_bit k (int (m div 2 ^ k))) = push_bit k (word_of_nat (drop_bit k m) :: u16)"
    by (simp add: push_bit_eq_mult drop_bit_eq_div)
  then show "bit (take_bit k (word_of_nat m :: u16) OR word_of_int (push_bit k (int (m div 2 ^ k)))) i
      = bit (word_of_nat m :: u16) i"
    by (auto simp: bit_simps)
qed

lemma GetGRCode_reads:
  assumes "reads (rd_bs d) (gr_bits (rd_krp d) m @ rest)" and "dec_ok d" and "m < 65536"
  shows "\<exists>bs'. GetGRCode d = Some (word_of_nat m, d\<lparr>rd_bs := bs', rd_krp := gr_next (rd_krp d) m,
      rd_kr := gr_next (rd_krp d) m div 8\<rparr>) \<and> reads bs' rest"
proof -
  let ?k = "kof (rd_krp d)" and ?v = "m div 2 ^ kof (rd_krp d)"
  have k: "int ?k = rd_kr d" using assms(2) int_kof by (simp add: dec_ok_def)
  obtain bs1 where b1: "count_ones d 0 = Some (int ?v, d\<lparr>rd_bs := bs1\<rparr>)" "reads bs1 (bits_of ?k (word_of_nat m :: u16) @ rest)"
    using count_ones_reads [of d ?v "bits_of ?k (word_of_nat m :: u16) @ rest" 0] assms(1) by (auto simp: gr_bits_def)
  obtain bs2 where b2: "GetBits (d\<lparr>rd_bs := bs1\<rparr>) (int ?k) = Some (take_bit ?k (word_of_nat m), d\<lparr>rd_bs := bs2\<rparr>)"
    "reads bs2 rest"
    using GetBits_field [of "d\<lparr>rd_bs := bs1\<rparr>" ?k "word_of_nat m" rest] b1(2) by auto
  have n: "nat (rd_kr d) = ?k" using k by simp
  let ?d = "d\<lparr>rd_bs := bs2\<rparr>"
  have "GetGRCode d = Some (word_of_nat m, (if int ?v = 0 then update_krp ?d (-2) else if int ?v \<noteq> 1 then update_krp ?d (int ?v) else ?d))"
    unfolding GetGRCode_def b1(1)
    by (simp add: b2(1) [unfolded k] n join_mag [OF assms(3)] Let_def del: of_nat_div of_nat_eq_0_iff of_nat_eq_1_iff)
  also have "(if int ?v = 0 then update_krp ?d (-2) else if int ?v \<noteq> 1 then update_krp ?d (int ?v) else ?d)
      = d\<lparr>rd_bs := bs2, rd_krp := gr_next (rd_krp d) m, rd_kr := gr_next (rd_krp d) m div 8\<rparr>"
    using assms(2) by (auto simp: update_krp_def UpdateParam_upd gr_next_def Let_def dec_ok_def)
  finally show ?thesis using b2(2) by blast
qed

lemma WriteZeroes_fits:
  "int n \<le> rd_size d \<Longrightarrow>
    WriteZeroes d (int n) = d\<lparr>rd_dst := rd_dst d @ replicate n 0, rd_size := rd_size d - int n\<rparr>"
  by (auto simp: WriteZeroes_def Let_def)

lemma WriteValue_fits:
  "0 < rd_size d \<Longrightarrow> WriteValue d v = d\<lparr>rd_dst := rd_dst d @ [v], rd_size := rd_size d - 1\<rparr>"
  by (simp add: WriteValue_def)

lemma zero_runs_le: "snd (snd (zero_runs kp n)) \<le> n"
proof (induction kp n rule: zero_runs.induct)
  case (1 kp n)
  then show ?case
    by (cases "2 ^ kof kp \<le> n") (simp_all add: zero_runs.simps [of kp n] split_beta Let_def)
qed

lemma decode_zero_runs_reads:
  assumes "reads (rd_bs d) (fst (zero_runs (rd_kp d) n) @ True # rest)" and "rd_k d = rd_kp d div 8" and "int n \<le> rd_size d"
  defines "r \<equiv> snd (snd (zero_runs (rd_kp d) n))" and "kp \<equiv> fst (snd (zero_runs (rd_kp d) n))"
  shows "\<exists>bs'. decode_zero_runs d = Some (d\<lparr>rd_bs := bs', rd_kp := kp, rd_k := kp div 8,
      rd_dst := rd_dst d @ replicate (n - r) 0, rd_size := rd_size d - int (n - r)\<rparr>) \<and> reads bs' rest"
  using assms(1-3) unfolding r_def kp_def
proof (induction "rd_kp d" n arbitrary: d rule: zero_runs.induct)
  case (1 n d)
  let ?K = "2 ^ kof (rd_kp d) :: nat"
  have eos: "\<not> rfx_bitstream_eos (rd_bs d)" using 1(2) by (auto simp: reads_def eos_remaining)
  have k: "nat (rd_k d) = kof (rd_kp d)" using 1(3) by (simp add: kof_def)
  show ?case
  proof (cases "?K \<le> n")
    case False
    then have z: "zero_runs (rd_kp d) n = ([], rd_kp d, n)" by (simp add: zero_runs.simps)
    obtain bs1 where "GetBits d 1 = Some (1, d\<lparr>rd_bs := bs1\<rparr>)" "reads bs1 rest"
      using GetBits_one [of d True rest] 1(2) z by auto
    then show ?thesis using eos 1(3) z by (subst decode_zero_runs.simps) (intro exI [of _ bs1], simp)
  next
    case True
    let ?z = "zero_runs (upd (rd_kp d) 4) (n - ?K)"
    have z: "zero_runs (rd_kp d) n = (False # fst ?z, fst (snd ?z), snd (snd ?z))"
      using True by (subst zero_runs.simps) (simp add: split_beta Let_def)
    obtain bs1 where b1: "GetBits d 1 = Some (0, d\<lparr>rd_bs := bs1\<rparr>)" "reads bs1 (fst ?z @ True # rest)"
      using GetBits_one [of d False "fst ?z @ True # rest"] 1(2) z by auto
    define e where "e = d\<lparr>rd_bs := bs1, rd_kp := upd (rd_kp d) 4, rd_k := upd (rd_kp d) 4 div 8,
        rd_dst := rd_dst d @ replicate ?K 0, rd_size := rd_size d - int ?K\<rparr>"
    have le: "int ?K \<le> rd_size d" using True 1(4) by linarith
    have wz: "WriteZeroes (d\<lparr>rd_bs := bs1\<rparr>) (push_bit (nat (rd_k d)) 1)
        = d\<lparr>rd_bs := bs1, rd_dst := rd_dst d @ replicate ?K 0, rd_size := rd_size d - int ?K\<rparr>"
      using WriteZeroes_fits [of ?K "d\<lparr>rd_bs := bs1\<rparr>"] le k by (simp add: push_bit_eq_mult)
    have "update_kp (d\<lparr>rd_bs := bs1, rd_dst := rd_dst d @ replicate ?K 0, rd_size := rd_size d - int ?K\<rparr>) UP_GR = e"
      by (rule rlgr_decoder.equality) (simp_all add: update_kp_def UpdateParam_upd UP_GR_def e_def)
    then have step: "decode_zero_runs d = decode_zero_runs e"
      using eos b1(1) wz by (subst decode_zero_runs.simps) simp
    have "upd (rd_kp d) 4 = rd_kp e" by (simp add: e_def)
    from 1(1) [OF True this] obtain bs2 where b2: "decode_zero_runs e = Some (e\<lparr>rd_bs := bs2, rd_kp := fst (snd ?z),
        rd_k := fst (snd ?z) div 8, rd_dst := rd_dst e @ replicate (n - ?K - snd (snd ?z)) 0,
        rd_size := rd_size e - int (n - ?K - snd (snd ?z))\<rparr>)" "reads bs2 rest"
      using b1(2) True 1(4) by (auto simp: e_def of_nat_diff)
    have r: "snd (snd ?z) \<le> n - ?K" by (rule zero_runs_le)
    then have l: "n - snd (snd ?z) = ?K + (n - ?K - snd (snd ?z))" using True by simp
    show ?thesis using step b2 unfolding z
      by (intro exI [of _ bs2]) (simp add: e_def l replicate_add)
  qed
qed

lemma uint_low: "r < 2 ^ k \<Longrightarrow> k \<le> 10 \<Longrightarrow> uint (take_bit k (word_of_nat r :: u16)) = int r"
proof -
  assume r: "r < 2 ^ k" and k: "k \<le> 10"
  have "(2 :: nat) ^ k \<le> 2 ^ 10" using k by (intro power_increasing) simp_all
  with r have r16: "r < 2 ^ 16" by simp
  have "unat (take_bit k (word_of_nat r :: u16)) = r"
    using r r16 by (simp add: unsigned_take_bit_eq unsigned_of_nat take_bit_nat_eq_self)
  then show ?thesis by (simp add: uint_nat)
qed

lemma decode_rl_reads:
  fixes x :: i16
  assumes "dec_ok d" and cz: "collect_zeros 0 (sint x) xs = (z, input, rest)"
    and zr: "zero_runs (rd_kp d) (nat z) = (runs, kp', r)"
    and rd: "reads (rd_bs d) (runs @ True # bits_of (kof kp') (word_of_nat r :: u16) @ (input < 0) # gr_bits (rd_krp d) m @ l)"
    and m: "m = nat (\<bar>input\<bar> - 1)" and sz: "z + 1 \<le> rd_size d"
  shows "\<exists>bs'. decode_rl d = Some (d\<lparr>rd_bs := bs', rd_kp := upd kp' (-6), rd_k := upd kp' (-6) div 8,
      rd_krp := gr_next (rd_krp d) m, rd_kr := gr_next (rd_krp d) m div 8,
      rd_dst := rd_dst d @ replicate (nat z) 0 @ [word_of_int (if input = 0 then 1 else input)],
      rd_size := rd_size d - z - 1\<rparr>) \<and> reads bs' l"
proof -
  obtain j where j: "z = int j" and inp: "input \<in> range (sint :: i16 \<Rightarrow> int)" using collect_zeros_split [OF cz] by auto
  obtain y :: i16 where y: "input = sint y" using inp by blast
  have m16: "m < 65536" using sint_i16_range [of y] by (simp add: m y)
  have range: "0 \<le> kp'" "kp' \<le> 80" using zero_runs_range [of "rd_kp d" "nat z"] assms(1) zr by (simp_all add: dec_ok_def)
  have r: "r < 2 ^ kof kp'" "r \<le> j" using zero_runs_rest [of "rd_kp d" j] zero_runs_le [of "rd_kp d" j] zr j by simp_all
  define d1 where "d1 = d\<lparr>rd_kp := kp', rd_k := kp' div 8, rd_dst := rd_dst d @ replicate (j - r) 0, rd_size := rd_size d - int (j - r)\<rparr>"
  have d1: "d\<lparr>rd_bs := b, rd_kp := kp', rd_k := kp' div 8, rd_dst := rd_dst d @ replicate (j - r) 0,
      rd_size := rd_size d - int (j - r)\<rparr> = d1\<lparr>rd_bs := b\<rparr>" for b
    by (rule rlgr_decoder.equality) (simp_all add: d1_def)
  have "\<exists>bs1. decode_zero_runs d = Some (d1\<lparr>rd_bs := bs1\<rparr>)
    \<and> reads bs1 (bits_of (kof kp') (word_of_nat r :: u16) @ (input < 0) # gr_bits (rd_krp d) m @ l)"
    using decode_zero_runs_reads [of d j] assms(1) zr j rd sz by (simp add: dec_ok_def d1)
  then obtain bs1 where b1: "decode_zero_runs d = Some (d1\<lparr>rd_bs := bs1\<rparr>)"
    "reads bs1 (bits_of (kof kp') (word_of_nat r :: u16) @ (input < 0) # gr_bits (rd_krp d) m @ l)" by blast
  have k1: "rd_k (d1\<lparr>rd_bs := b\<rparr>) = int (kof kp')" for b using int_kof range by (simp add: d1_def)
  obtain bs2 where b2: "GetBits (d1\<lparr>rd_bs := bs1\<rparr>) (int (kof kp')) = Some (take_bit (kof kp') (word_of_nat r), d1\<lparr>rd_bs := bs2\<rparr>)"
    "reads bs2 ((input < 0) # gr_bits (rd_krp d) m @ l)"
    using GetBits_field [of "d1\<lparr>rd_bs := bs1\<rparr>" "kof kp'" "word_of_nat r"] b1(2) by auto
  define d2 where "d2 = d\<lparr>rd_kp := kp', rd_k := kp' div 8, rd_dst := rd_dst d @ replicate j 0, rd_size := rd_size d - int j\<rparr>"
  have w2: "WriteZeroes (d1\<lparr>rd_bs := bs2\<rparr>) (uint (take_bit (kof kp') (word_of_nat r :: u16))) = d2\<lparr>rd_bs := bs2\<rparr>"
    using WriteZeroes_fits [of r "d1\<lparr>rd_bs := bs2\<rparr>"] uint_low [OF r(1) kof_le [OF range(2)]] r(2) sz j
    by (simp add: d1_def d2_def of_nat_diff flip: replicate_add)
  obtain bs3 where b3: "GetBits (d2\<lparr>rd_bs := bs2\<rparr>) 1 = Some (of_bool (input < 0), d2\<lparr>rd_bs := bs3\<rparr>)"
    "reads bs3 (gr_bits (rd_krp d) m @ l)"
    using GetBits_one [of "d2\<lparr>rd_bs := bs2\<rparr>"] b2(2) by auto
  have ok3: "dec_ok (d2\<lparr>rd_bs := bs3\<rparr>)" using assms(1) range b3(2) by (simp add: dec_ok_def d2_def reads_def)
  obtain bs4 where b4: "GetGRCode (d2\<lparr>rd_bs := bs3\<rparr>) = Some (word_of_nat m, d2\<lparr>rd_bs := bs4, rd_krp := gr_next (rd_krp d) m,
      rd_kr := gr_next (rd_krp d) m div 8\<rparr>)" "reads bs4 l"
    using GetGRCode_reads [OF _ ok3 m16, of l] b3(2) by (auto simp: d2_def)
  have mag: "uint (word_of_nat m :: u16) + 1 = (if input = 0 then 1 else \<bar>input\<bar>)"
    using m16 by (simp add: uint_nat unsigned_of_nat take_bit_nat_eq_self m)
  have v: "word_of_int (if of_bool (input < 0) \<noteq> (0 :: u16) then - (uint (word_of_nat m :: u16) + 1) else uint (word_of_nat m :: u16) + 1)
      = (word_of_int (if input = 0 then 1 else input) :: i16)"
    unfolding mag by auto
  have "decode_rl d = Some (update_kp (WriteValue (d2\<lparr>rd_bs := bs4, rd_krp := gr_next (rd_krp d) m,
      rd_kr := gr_next (rd_krp d) m div 8\<rparr>) (word_of_int (if input = 0 then 1 else input))) (- DN_GR))"
    unfolding decode_rl_def b1(1) bind.bind_lunit
    by (simp only: k1 b2(1) w2 b3(1) b4(1) v Let_def prod.case bind.bind_lunit)
  then show ?thesis using b4(2) sz j
    by (intro exI [of _ bs4]) (simp add: WriteValue_fits d2_def update_kp_def UpdateParam_upd DN_GR_def)
qed

lemma ucast_word_of_nat: "m < 65536 \<Longrightarrow> (ucast (word_of_nat m :: u16) :: u32) = word_of_nat m"
  by (simp add: word_unat_eq_iff unsigned_of_nat take_bit_nat_eq_self)

lemma ucast_low: "(ucast (word_of_nat n :: u32) :: i16) = word_of_nat n"
  by (rule bit_word_eqI) (simp add: bit_simps)

lemma GetIntFrom2MagSign_alt:
  "GetIntFrom2MagSign w = (if bit w 0 then - ucast (drop_bit 1 (w + 1)) else ucast (drop_bit 1 w))"
  by (simp add: GetIntFrom2MagSign_def and_one_eq bit_0 odd_iff_mod_2_eq_one)

lemma GetIntFrom2MagSign_mag2:
  fixes x :: i16
  shows "GetIntFrom2MagSign (word_of_nat (mag2 (sint x))) = x"
proof (cases "0 \<le> sint x")
  case True
  then have m: "mag2 (sint x) = 2 * nat (sint x)" by (simp add: mag2_def)
  have b: "\<not> bit (word_of_nat (2 * nat (sint x)) :: u32) 0" by (simp add: bit_simps)
  have "2 * nat (sint x) < 2 ^ 32" using sint_i16_range [of x] by simp
  then have "drop_bit 1 (word_of_nat (2 * nat (sint x)) :: u32) = word_of_nat (nat (sint x))"
    using drop_bit_word_of_nat [of "2 * nat (sint x)" 1] by simp
  moreover have "ucast (word_of_nat (nat (sint x)) :: u32) = x"
    unfolding ucast_low using True by simp
  ultimately show ?thesis unfolding m GetIntFrom2MagSign_alt using b by (simp only: if_False)
next
  case False
  define n where "n = nat (- sint x)"
  have m: "mag2 (sint x) = 2 * n - 1" and n: "1 \<le> n" "n \<le> 32768" using False sint_i16_range [of x] by (auto simp: mag2_def n_def)
  have b: "bit (word_of_nat (2 * n - 1) :: u32) 0" by (subst bit_of_nat_iff) (use n in \<open>simp add: bit_0\<close>)
  have "(word_of_nat (2 * n - 1) :: u32) + 1 = word_of_nat (2 * n)" using n by (simp add: of_nat_diff)
  moreover have "drop_bit 1 (word_of_nat (2 * n) :: u32) = word_of_nat n"
    using n drop_bit_word_of_nat [of "2 * n" 1] by simp
  moreover have "- ucast (word_of_nat n :: u32) = x"
    unfolding ucast_low using False by (simp add: n_def)
  ultimately show ?thesis unfolding m GetIntFrom2MagSign_alt using b by (simp only: if_True)
qed

lemma GetMinBits_bound: "m < 2 ^ 32 \<Longrightarrow> n \<le> GetMinBits (word_of_nat m) n \<and> m < 2 ^ (GetMinBits (word_of_nat m) n - n)"
proof (induction m arbitrary: n rule: less_induct)
  case (less m)
  show ?case
  proof (cases "m = 0")
    case True
    then show ?thesis by (subst (1 2) GetMinBits.simps) simp
  next
    case False
    then have nz: "(word_of_nat m :: u32) \<noteq> 0" using less.prems by (simp add: word_of_nat_zero_iff)
    have d: "drop_bit 1 (word_of_nat m :: u32) = word_of_nat (m div 2)" using drop_bit_word_of_nat [OF less.prems, of 1] by simp
    have e: "GetMinBits (word_of_nat m) n = GetMinBits (word_of_nat (m div 2)) (n + 1)"
      using nz d by (subst GetMinBits.simps) simp
    have ih: "n + 1 \<le> GetMinBits (word_of_nat (m div 2)) (n + 1)"
      "m div 2 < 2 ^ (GetMinBits (word_of_nat (m div 2)) (n + 1) - (n + 1))"
      using less.IH [of "m div 2" "n + 1"] False less.prems by auto
    let ?g = "GetMinBits (word_of_nat (m div 2)) (n + 1)"
    have "?g - n = Suc (?g - (n + 1))" using ih(1) by simp
    then have "m < 2 ^ (?g - n)" using ih(2) by (simp only: power_Suc)
    with ih(1) e show ?thesis by simp
  qed
qed

lemma decode_gr1_reads:
  fixes x :: i16
  assumes "dec_ok d" and "reads (rd_bs d) (gr_bits (rd_krp d) m @ l)" and m: "m = mag2 (sint x)" and "0 < rd_size d"
  defines "kp \<equiv> upd (rd_kp d) (if m \<noteq> 0 then -3 else 3)"
  shows "\<exists>bs'. decode_gr RLGR1 d = Some (d\<lparr>rd_bs := bs', rd_krp := gr_next (rd_krp d) m, rd_kr := gr_next (rd_krp d) m div 8,
      rd_dst := rd_dst d @ [x], rd_size := rd_size d - 1, rd_kp := kp, rd_k := kp div 8\<rparr>) \<and> reads bs' l"
proof -
  have m16: "m < 65536" unfolding m by (rule mag2_less)
  obtain bs1 where b1: "GetGRCode d = Some (word_of_nat m, d\<lparr>rd_bs := bs1, rd_krp := gr_next (rd_krp d) m,
      rd_kr := gr_next (rd_krp d) m div 8\<rparr>)" "reads bs1 l"
    using GetGRCode_reads [OF assms(2,1) m16] by blast
  have z: "(word_of_nat m :: u32) = 0 \<longleftrightarrow> m = 0" using m16 by (intro word_of_nat_zero_iff) simp
  have v: "m = 0 \<Longrightarrow> x = 0" by (auto simp: m mag2_def signed_eq_0_iff split: if_splits)
  have g: "GetIntFrom2MagSign (word_of_nat m) = x" unfolding m by (rule GetIntFrom2MagSign_mag2)
  let ?d = "d\<lparr>rd_bs := bs1, rd_krp := gr_next (rd_krp d) m, rd_kr := gr_next (rd_krp d) m div 8\<rparr>"
  have "decode_gr RLGR1 d = Some (update_kp (WriteValue ?d x) (if m \<noteq> 0 then - DQ_GR else UQ_GR))"
    using v by (simp add: decode_gr_def b1(1) ucast_word_of_nat [OF m16] z g)
  also have "update_kp (WriteValue ?d x) (if m \<noteq> 0 then - DQ_GR else UQ_GR) = ?d\<lparr>rd_dst := rd_dst d @ [x],
      rd_size := rd_size d - 1, rd_kp := kp, rd_k := kp div 8\<rparr>"
    using assms(4) by (simp add: WriteValue_fits update_kp_def UpdateParam_upd DQ_GR_def UQ_GR_def kp_def)
  finally show ?thesis using b1(2) by blast
qed

lemma decode_gr3_reads:
  fixes x :: i16 and xs :: "i16 list"
  assumes "dec_ok d" and a: "a = mag2 (sint x)" and b: "b = mag2 (fst (GetNextInput xs))" and ab: "a + b < 65536"
    and rd: "reads (rd_bs d) (gr_bits (rd_krp d) (a + b) @ bits_of (GetMinBits (word_of_nat (a + b)) 0) (word_of_nat a :: u16) @ l)"
    and sz: "nat (rd_size d) = Suc (length xs)"
  defines "kp \<equiv> kp3 (rd_kp d) a b"
  shows "\<exists>bs'. decode_gr RLGR3 d = Some (d\<lparr>rd_bs := bs', rd_krp := gr_next (rd_krp d) (a + b),
      rd_kr := gr_next (rd_krp d) (a + b) div 8, rd_kp := kp, rd_k := kp div 8,
      rd_dst := rd_dst d @ x # take 1 xs, rd_size := rd_size d - 2\<rparr>) \<and> reads bs' l"
proof -
  let ?n = "GetMinBits (word_of_nat (a + b)) 0"
  define d1 where "d1 = d\<lparr>rd_krp := gr_next (rd_krp d) (a + b), rd_kr := gr_next (rd_krp d) (a + b) div 8\<rparr>"
  have d1: "d\<lparr>rd_bs := c, rd_krp := gr_next (rd_krp d) (a + b), rd_kr := gr_next (rd_krp d) (a + b) div 8\<rparr> = d1\<lparr>rd_bs := c\<rparr>" for c
    by (rule rlgr_decoder.equality) (simp_all add: d1_def)
  obtain bs1 where b1: "GetGRCode d = Some (word_of_nat (a + b), d1\<lparr>rd_bs := bs1\<rparr>)"
    "reads bs1 (bits_of ?n (word_of_nat a :: u16) @ l)"
    using GetGRCode_reads [OF rd assms(1) ab] unfolding d1 by blast
  obtain bs2 where b2: "GetBits (d1\<lparr>rd_bs := bs1\<rparr>) (int ?n) = Some (take_bit ?n (word_of_nat a), d1\<lparr>rd_bs := bs2\<rparr>)" "reads bs2 l"
    using GetBits_field [of "d1\<lparr>rd_bs := bs1\<rparr>" ?n "word_of_nat a" l] b1(2) by auto
  have "a < 2 ^ ?n" using GetMinBits_bound [of "a + b" 0] ab by simp
  then have v1: "(ucast (take_bit ?n (word_of_nat a :: u16)) :: u32) = word_of_nat a"
    using ab by (simp add: word_unat_eq_iff unsigned_of_nat unsigned_take_bit_eq take_bit_nat_eq_self)
  have v2: "word_of_nat (a + b) - word_of_nat a = (word_of_nat b :: u32)" by simp
  have z: "(word_of_nat a :: u32) = 0 \<longleftrightarrow> a = 0" "(word_of_nat b :: u32) = 0 \<longleftrightarrow> b = 0"
    using ab by (intro word_of_nat_zero_iff; simp)+
  define v where "v = GetIntFrom2MagSign (word_of_nat b)"
  have g: "GetIntFrom2MagSign (word_of_nat a) = x" unfolding a by (rule GetIntFrom2MagSign_mag2)
  have h: "xs \<noteq> [] \<Longrightarrow> v = hd xs" unfolding b v_def by (cases xs) (simp_all add: GetIntFrom2MagSign_mag2)
  define d2 where "d2 = d1\<lparr>rd_bs := bs2, rd_kp := kp, rd_k := kp div 8\<rparr>"
  have k2: "(if a \<noteq> 0 \<and> b \<noteq> 0 then update_kp (d1\<lparr>rd_bs := bs2\<rparr>) (-2 * DQ_GR)
      else if a = 0 \<and> b = 0 then update_kp (d1\<lparr>rd_bs := bs2\<rparr>) (2 * UQ_GR) else d1\<lparr>rd_bs := bs2\<rparr>) = d2"
    using assms(1) by (auto simp: update_kp_def UpdateParam_upd DQ_GR_def UQ_GR_def d2_def kp_def kp3_def d1_def dec_ok_def)
  have "decode_gr RLGR3 d = Some (WriteValue (WriteValue d2 x) v)"
    unfolding decode_gr_def b1(1) bind.bind_lunit prod.case Let_def RLGR_MODE.case ucast_word_of_nat [OF ab] b2(1) v1 v2 z k2 g v_def ..
  moreover have "WriteValue (WriteValue d2 x) v = d\<lparr>rd_bs := bs2, rd_krp := gr_next (rd_krp d) (a + b),
      rd_kr := gr_next (rd_krp d) (a + b) div 8, rd_kp := kp, rd_k := kp div 8,
      rd_dst := rd_dst d @ x # take 1 xs, rd_size := rd_size d - 2\<rparr>"
  proof -
    have size: "rd_size d = 1 + int (length xs)" using sz by linarith
    show ?thesis
    proof (cases xs)
      case Nil
      then show ?thesis using size by (simp add: WriteValue_def d2_def d1_def)
    next
      case (Cons y ys)
      then have "v = y" using h by simp
      with Cons show ?thesis using size by (simp add: WriteValue_def d2_def d1_def)
    qed
  qed
  ultimately show ?thesis using b2(2) by auto
qed

end
