(* ===== verification/Rfx_Rlgr_Roundtrip.thy ===== *)
theory Rfx_Rlgr_Roundtrip
  imports Rfx_Rlgr_Correct
begin

text \<open>
  The two properties of the RemoteFX entropy coder: what is encoded is decoded again, up to one
  rounding of a trailing zero, and the decoder is safe on any input.
\<close>

section \<open>What the decoder gives back\<close>

text \<open>
  In run-length mode a zero at the very end is coded like a value of magnitude one, so the decoder
  gives a one for it.
\<close>

function rlgr_image :: "RLGR_MODE \<Rightarrow> int \<Rightarrow> i16 list \<Rightarrow> i16 list" where
  "rlgr_image mode kp [] = []"
| "rlgr_image mode kp (x # xs) =
    (if kof kp \<noteq> 0 then
       let (z, input, rest) = collect_zeros 0 (sint x) xs; (runs, kp', r) = zero_runs kp (nat z)
       in replicate (nat z) 0 @ word_of_int (if input = 0 then 1 else input) # rlgr_image mode (upd kp' (-6)) rest
     else case mode of
       RLGR1 \<Rightarrow> x # rlgr_image mode (upd kp (if mag2 (sint x) \<noteq> 0 then -3 else 3)) xs
     | RLGR3 \<Rightarrow> x # take 1 xs @ rlgr_image mode (kp3 kp (mag2 (sint x)) (mag2 (fst (GetNextInput xs)))) (tl xs))"
  by pat_completeness auto
termination
proof (relation "measure (\<lambda>(mode, kp, data). length data)")
  fix mode kp xs z p input rest runs q kp' r and x :: i16
  assume "p = collect_zeros 0 (sint x) xs" "(z, q) = p" "(input, rest) = q"
  then have "snd (snd (collect_zeros 0 (sint x) xs)) = rest" by (metis snd_conv)
  then have "length rest \<le> length xs" using collect_zeros_length by metis
  then show "((mode, upd kp' (-6), rest), mode, kp, x # xs) \<in> measure (\<lambda>(mode, kp, data). length data)" by simp
qed auto

declare rlgr_image.simps [simp del]

lemma rlgr_image_cases:
  "rlgr_image mode kp data = data \<or> (data \<noteq> [] \<and> last data = 0 \<and> rlgr_image mode kp data = butlast data @ [1])"
proof (induction mode kp data rule: rlgr_image.induct)
  case (2 mode kp x xs)
  show ?case
  proof (cases "kof kp = 0")
    case False
    obtain z input rest where cz: "collect_zeros 0 (sint x) xs = (z, input, rest)" by (metis prod_cases3)
    obtain runs kp' r where zr: "zero_runs kp (nat z) = (runs, kp', r)" by (metis prod_cases3)
    obtain j where j: "x # xs = replicate j 0 @ word_of_int input # rest" "z = int j" "input \<noteq> 0 \<or> rest = []"
      using collect_zeros_split [OF cz] by auto
    have im: "rlgr_image mode kp (x # xs) = replicate j 0 @ word_of_int (if input = 0 then 1 else input)
        # rlgr_image mode (upd kp' (-6)) rest"
      using False zr j(2) by (simp add: rlgr_image.simps(2) cz)
    have ih: "rlgr_image mode (upd kp' (-6)) rest = rest
        \<or> (rest \<noteq> [] \<and> last rest = 0 \<and> rlgr_image mode (upd kp' (-6)) rest = butlast rest @ [1])"
      using 2(1) [of "(z, input, rest)" z "(input, rest)" input rest "(runs, kp', r)" runs "(kp', r)" kp' r] False cz zr by simp
    show ?thesis
    proof (cases "input = 0")
      case True
      with j(3) have "rest = []" by simp
      with True im show ?thesis unfolding j(1) by (simp add: rlgr_image.simps(1) butlast_append)
    next
      case False
      with ih im show ?thesis unfolding j(1) by (auto simp: butlast_append)
    qed
  next
    case True
    show ?thesis
    proof (cases mode)
      case RLGR1
      then show ?thesis using 2(2) True by (auto simp: rlgr_image.simps(2))
    next
      case RLGR3
      have ih: "rlgr_image mode (kp3 kp (mag2 (sint x)) (mag2 (fst (GetNextInput xs)))) (tl xs) = tl xs
        \<or> (tl xs \<noteq> [] \<and> last (tl xs) = 0
          \<and> rlgr_image mode (kp3 kp (mag2 (sint x)) (mag2 (fst (GetNextInput xs)))) (tl xs) = butlast (tl xs) @ [1])"
        using 2(3) True RLGR3 by simp
      then show ?thesis using RLGR3 True by (cases xs) (auto simp: rlgr_image.simps(2))
    qed
  qed
qed (simp add: rlgr_image.simps)

section \<open>Decoding what was encoded\<close>

definition small :: "RLGR_MODE \<Rightarrow> i16 list \<Rightarrow> bool" where
  "small mode data \<longleftrightarrow> mode = RLGR1 \<or> (\<forall>x \<in> set data. -16384 \<le> sint x \<and> sint x < 16384)"

lemma small_mag2:
  "small RLGR3 (x # xs) \<Longrightarrow> mag2 (sint x) + mag2 (fst (GetNextInput xs)) < 65536"
  by (cases xs) (auto simp: small_def mag2_def nat_less_iff)

lemma decode_round:
  assumes "dec_ok d" and rd: "reads (rd_bs d) (rlgr_bits mode (rd_kp d) (rd_krp d) (x # xs) @ l)"
    and sz: "nat (rd_size d) = Suc (length xs)" and sm: "small mode (x # xs)"
  shows "\<exists>d' rest out. (if rd_k d \<noteq> 0 then decode_rl d else decode_gr mode d) = Some d' \<and> dec_ok d'
    \<and> reads (rd_bs d') (rlgr_bits mode (rd_kp d') (rd_krp d') rest @ l) \<and> nat (rd_size d') = length rest
    \<and> rd_dst d' = rd_dst d @ out \<and> rlgr_image mode (rd_kp d) (x # xs) = out @ rlgr_image mode (rd_kp d') rest
    \<and> length rest \<le> length xs \<and> set rest \<subseteq> set (x # xs)"
proof (cases "rd_k d = 0")
  case False
  obtain z input rest where cz: "collect_zeros 0 (sint x) xs = (z, input, rest)" by (metis prod_cases3)
  obtain runs kp' r where zr: "zero_runs (rd_kp d) (nat z) = (runs, kp', r)" by (metis prod_cases3)
  obtain j where j: "x # xs = replicate j 0 @ word_of_int input # rest" "z = int j"
    using collect_zeros_split [OF cz] by auto
  have k: "kof (rd_kp d) \<noteq> 0" using False assms(1) by (simp add: dec_ok_def kof_zero)
  define m where "m = nat (\<bar>input\<bar> - 1)"
  have len: "Suc (length xs) = j + Suc (length rest)" using arg_cong [OF j(1), of length] by simp
  then have size: "z + 1 \<le> rd_size d" using sz j(2) by linarith
  have rd': "reads (rd_bs d) (runs @ True # bits_of (kof kp') (word_of_nat r :: u16) @ (input < 0) # gr_bits (rd_krp d) m
      @ rlgr_bits mode (upd kp' (-6)) (gr_next (rd_krp d) m) rest @ l)"
    using rd k zr j(2) by (simp add: rlgr_bits.simps(2) cz Let_def m_def)
  let ?d = "\<lambda>bs. d\<lparr>rd_bs := bs, rd_kp := upd kp' (-6), rd_k := upd kp' (-6) div 8,
      rd_krp := gr_next (rd_krp d) m, rd_kr := gr_next (rd_krp d) m div 8,
      rd_dst := rd_dst d @ replicate (nat z) 0 @ [word_of_int (if input = 0 then 1 else input)],
      rd_size := rd_size d - z - 1\<rparr>"
  obtain bs' where b: "decode_rl d = Some (?d bs')"
    "reads bs' (rlgr_bits mode (upd kp' (-6)) (gr_next (rd_krp d) m) rest @ l)"
    using decode_rl_reads [OF assms(1) cz zr rd' m_def size] by blast
  have "dec_ok (?d bs')" using assms(1) b(2) gr_next_range by (simp add: dec_ok_def reads_def)
  moreover have "nat (rd_size (?d bs')) = length rest" using len sz j(2) by simp
  moreover have "set rest \<subseteq> set (x # xs)" unfolding j(1) by auto
  ultimately show ?thesis using b False k len
    by (intro exI [of _ "?d bs'"] exI [of _ rest] exI [of _ "replicate (nat z) 0 @ [word_of_int (if input = 0 then 1 else input)]"])
      (simp add: rlgr_image.simps(2) cz zr)
next
  case True
  then have k: "kof (rd_kp d) = 0" using assms(1) by (simp add: dec_ok_def kof_zero)
  show ?thesis
  proof (cases mode)
    case RLGR1
    define m where "m = mag2 (sint x)"
    let ?kp = "upd (rd_kp d) (if m \<noteq> 0 then -3 else 3)"
    let ?d = "\<lambda>bs. d\<lparr>rd_bs := bs, rd_krp := gr_next (rd_krp d) m, rd_kr := gr_next (rd_krp d) m div 8,
      rd_dst := rd_dst d @ [x], rd_size := rd_size d - 1, rd_kp := ?kp, rd_k := ?kp div 8\<rparr>"
    have rd': "reads (rd_bs d) (gr_bits (rd_krp d) m @ rlgr_bits mode ?kp (gr_next (rd_krp d) m) xs @ l)"
      using rd k RLGR1 by (simp add: rlgr_bits.simps(2) Let_def m_def)
    have pos: "0 < rd_size d" using sz by linarith
    obtain bs' where b: "decode_gr RLGR1 d = Some (?d bs')" "reads bs' (rlgr_bits mode ?kp (gr_next (rd_krp d) m) xs @ l)"
      using decode_gr1_reads [OF assms(1) rd' m_def pos] by blast
    have "dec_ok (?d bs')" using assms(1) b(2) gr_next_range by (simp add: dec_ok_def reads_def)
    then show ?thesis using b True k RLGR1 sz
      by (intro exI [of _ "?d bs'"] exI [of _ xs] exI [of _ "[x]"]) (simp add: rlgr_image.simps(2) m_def subset_insertI)
  next
    case RLGR3
    define a b where "a = mag2 (sint x)" and "b = mag2 (fst (GetNextInput xs))"
    have ab: "a + b < 65536" using small_mag2 sm RLGR3 by (simp add: a_def b_def)
    let ?kp = "kp3 (rd_kp d) a b"
    let ?d = "\<lambda>bs. d\<lparr>rd_bs := bs, rd_krp := gr_next (rd_krp d) (a + b),
      rd_kr := gr_next (rd_krp d) (a + b) div 8, rd_kp := ?kp, rd_k := ?kp div 8,
      rd_dst := rd_dst d @ x # take 1 xs, rd_size := rd_size d - 2\<rparr>"
    have rd': "reads (rd_bs d) (gr_bits (rd_krp d) (a + b) @ bits_of (GetMinBits (word_of_nat (a + b)) 0) (word_of_nat a :: u16)
        @ rlgr_bits mode ?kp (gr_next (rd_krp d) (a + b)) (tl xs) @ l)"
      using rd k RLGR3 by (simp add: rlgr_bits.simps(2) Let_def a_def b_def)
    obtain bs' where b: "decode_gr RLGR3 d = Some (?d bs')" "reads bs' (rlgr_bits mode ?kp (gr_next (rd_krp d) (a + b)) (tl xs) @ l)"
      using decode_gr3_reads [OF assms(1) a_def b_def ab rd' sz] by blast
    have "dec_ok (?d bs')" using assms(1) b(2) gr_next_range kp3_range by (simp add: dec_ok_def reads_def)
    moreover have "nat (rd_size d - 2) = length (tl xs)" using sz by (cases xs) simp_all
    moreover have "set (tl xs) \<subseteq> set (x # xs)" by (cases xs) auto
    ultimately show ?thesis using b True k RLGR3
      by (intro exI [of _ "?d bs'"] exI [of _ "tl xs"] exI [of _ "x # take 1 xs"]) (simp add: rlgr_image.simps(2) a_def b_def)
  qed
qed

lemma rlgr_bits_nonempty: "rlgr_bits mode kp krp (x # xs) \<noteq> []"
  by (auto simp: rlgr_bits.simps(2) Let_def gr_bits_def split: prod.splits RLGR_MODE.splits)

lemma decode_loop_reads:
  assumes "dec_ok d" and "reads (rd_bs d) (rlgr_bits mode (rd_kp d) (rd_krp d) data @ l)"
    and "nat (rd_size d) = length data" and "small mode data"
  shows "\<exists>d'. rlgr_decode_loop mode d = Some d' \<and> rd_dst d' = rd_dst d @ rlgr_image mode (rd_kp d) data"
  using assms
proof (induction "length data" arbitrary: data d rule: less_induct)
  case less
  show ?case
  proof (cases data)
    case Nil
    then have "\<not> 0 < rd_size d" using less.prems(3) by simp
    then show ?thesis using Nil by (subst rlgr_decode_loop.simps) (simp add: rlgr_image.simps)
  next
    case (Cons x xs)
    have eos: "\<not> rfx_bitstream_eos (rd_bs d)" and pos: "0 < rd_size d"
      using less.prems(2,3) Cons rlgr_bits_nonempty by (auto simp: reads_def eos_remaining)
    obtain d' rest out where s: "(if rd_k d \<noteq> 0 then decode_rl d else decode_gr mode d) = Some d'"
      and d': "dec_ok d'" "reads (rd_bs d') (rlgr_bits mode (rd_kp d') (rd_krp d') rest @ l)" "nat (rd_size d') = length rest"
      and out: "rd_dst d' = rd_dst d @ out" "rlgr_image mode (rd_kp d) (x # xs) = out @ rlgr_image mode (rd_kp d') rest"
      and rest: "length rest \<le> length xs" "set rest \<subseteq> set (x # xs)"
      using decode_round [OF less.prems(1), of mode x xs l] less.prems(2-4) Cons by auto
    have "small mode rest" using less.prems(4) rest(2) Cons by (auto simp: small_def)
    then obtain d'' where r: "rlgr_decode_loop mode d' = Some d''" "rd_dst d'' = rd_dst d' @ rlgr_image mode (rd_kp d') rest"
      using less.hyps [OF _ d'] rest(1) Cons by auto
    have "rlgr_decode_loop mode d = Some d''"
      by (subst rlgr_decode_loop.simps) (simp only: eos pos s r(1) not_False_eq_True simp_thms if_True bind.bind_lunit)
    then show ?thesis using r(2) out Cons by (intro exI [of _ d'']) (simp del: rlgr_image.simps)
  qed
qed

lemma encode_bits:
  "\<exists>n buf. rfx_rlgr_encode mode data buffer = Some (n, buf) \<and> length buf = length buffer \<and> n \<le> length buffer
    \<and> 8 * n < length (rlgr_bits mode 8 8 data) + 8
    \<and> (n < length buffer \<longrightarrow> (\<exists>pad. buffer_bits (take n buf) = rlgr_bits mode 8 8 data @ pad))"
proof -
  let ?e = "\<lparr>re_bs = rfx_bitstream_attach buffer (length buffer), re_k = 1, re_kp = 8, re_krp = 8\<rparr>"
  have ok: "enc_ok ?e" by (simp add: enc_ok_def bitstream_ok_attach)
  obtain e where e: "rlgr_encode_loop mode ?e data = Some e" and p: "puts (re_bs ?e) (re_bs e) (rlgr_bits mode 8 8 data)"
    using encode_loop_puts [OF ok, of mode data] by auto
  let ?bs = "re_bs e" and ?n = "rfx_bitstream_get_processed_bytes (re_bs e)"
  have bok: "bitstream_ok ?bs" and len: "length (bs_buffer ?bs) = length buffer"
    and w: "written ?bs = take (8 * length buffer) (rlgr_bits mode 8 8 data)"
    using p by (simp_all add: puts_def rfx_bitstream_attach_def written_def bit_pos_def)
  have pos: "bit_pos ?bs \<le> 8 * ?n" "?n \<le> length buffer" and n: "8 * ?n < bit_pos ?bs + 8"
    using bok len by (auto simp: bitstream_ok_def bit_pos_def rfx_bitstream_get_processed_bytes_def)
  have "bit_pos ?bs \<le> length (rlgr_bits mode 8 8 data)" using arg_cong [OF w, of length] by (simp add: length_written [OF bok])
  with n have n': "8 * ?n < length (rlgr_bits mode 8 8 data) + 8" by linarith
  have "\<exists>pad. buffer_bits (take ?n (bs_buffer ?bs)) = rlgr_bits mode 8 8 data @ pad" if "?n < length buffer"
  proof -
    have "bit_pos ?bs < 8 * length buffer" using that pos by linarith
    then have "length (written ?bs) < 8 * length buffer" by (simp add: length_written [OF bok])
    then have "written ?bs = rlgr_bits mode 8 8 data" using w by (simp add: min_def split: if_splits)
    moreover have "take (bit_pos ?bs) (buffer_bits (take ?n (bs_buffer ?bs))) = written ?bs"
    proof -
      have "buffer_bits (bs_buffer ?bs) = buffer_bits (take ?n (bs_buffer ?bs)) @ buffer_bits (drop ?n (bs_buffer ?bs))"
        by (simp flip: buffer_bits_simps(3))
      then show ?thesis using pos len by (simp add: written_def)
    qed
    ultimately show ?thesis by (metis append_take_drop_id)
  qed
  with e len pos(2) n' show ?thesis unfolding rfx_rlgr_encode_def shift_LSGR by simp
qed

lemma decode_encoded:
  assumes "small mode data" and "rfx_rlgr_encode mode data buffer = Some (n, buf)" and "n < length buffer"
  shows "rfx_rlgr_decode mode (take n buf) (int (length data)) = Some (rlgr_image mode 8 data)"
proof -
  obtain pad where pad: "buffer_bits (take n buf) = rlgr_bits mode 8 8 data @ pad"
    using encode_bits [of mode data buffer] assms(2,3) by auto
  let ?d = "\<lparr>rd_bs = rfx_bitstream_attach (take n buf) (length (take n buf)), rd_k = 1, rd_kp = 8, rd_kr = 1, rd_krp = 8,
    rd_dst = [], rd_size = int (length data)\<rparr>"
  have ok: "dec_ok ?d" by (simp add: dec_ok_def bitstream_ok_attach [of "take n buf"] del: length_take)
  have rd: "reads (rd_bs ?d) (rlgr_bits mode (rd_kp ?d) (rd_krp ?d) data @ pad)"
    using pad by (simp add: reads_def bitstream_ok_attach [of "take n buf"] remaining_def bit_pos_def del: length_take)
      (simp add: rfx_bitstream_attach_def)
  obtain d' where "rlgr_decode_loop mode ?d = Some d'" "rd_dst d' = rlgr_image mode 8 data"
    using decode_loop_reads [OF ok rd _ assms(1)] by auto
  then show ?thesis unfolding rfx_rlgr_decode_def shift_LSGR by simp
qed

lemma zeros_collected: "collect_zeros i 0 (replicate j (0 :: i16)) = (i + int j, 0, [])"
  by (induction j arbitrary: i) simp_all

section \<open>The decoder on arbitrary input\<close>

definition fits :: "int \<Rightarrow> rlgr_decoder \<Rightarrow> bool" where
  "fits N d \<longleftrightarrow> bitstream_ok (rd_bs d) \<and> int (length (rd_dst d)) + max 0 (rd_size d) \<le> N"

definition bits_left :: "rlgr_decoder \<Rightarrow> nat" where
  "bits_left d = length (remaining (rd_bs d))"

lemma GetBits_any:
  assumes "fits N d"
  shows "\<exists>r bs'. GetBits d k = Some (r, d\<lparr>rd_bs := bs'\<rparr>) \<and> fits N (d\<lparr>rd_bs := bs'\<rparr>)
    \<and> bits_left (d\<lparr>rd_bs := bs'\<rparr>) = bits_left d - nat k \<and> (bits_left d = 0 \<longrightarrow> r = 0)"
proof -
  have "bitstream_ok (rd_bs d)" using assms by (simp add: fits_def)
  from get_bits_loop_reads [OF this, of "nat k" 0] obtain bs' where
    b: "get_bits_loop (rd_bs d) (nat k) 0 = Some (word_of_bits (take (nat k) (remaining (rd_bs d))), bs')"
    "bitstream_ok bs'" "remaining bs' = drop (nat k) (remaining (rd_bs d))" by auto
  then have "GetBits d k = Some (word_of_bits (take (nat k) (remaining (rd_bs d))), d\<lparr>rd_bs := bs'\<rparr>)"
    by (simp add: GetBits_def rfx_bitstream_get_bits_def)
  then show ?thesis using assms b(2,3)
    by (intro exI [of _ "word_of_bits (take (nat k) (remaining (rd_bs d)))"] exI [of _ bs'])
      (simp add: fits_def bits_left_def word_of_bits_def)
qed

lemma count_ones_any:
  "fits N d \<Longrightarrow> \<exists>vk bs'. count_ones d v = Some (vk, d\<lparr>rd_bs := bs'\<rparr>) \<and> fits N (d\<lparr>rd_bs := bs'\<rparr>)
    \<and> bits_left (d\<lparr>rd_bs := bs'\<rparr>) \<le> bits_left d - 1"
proof (induction "bits_left d" arbitrary: d v rule: less_induct)
  case less
  obtain r bs1 where b: "GetBits d 1 = Some (r, d\<lparr>rd_bs := bs1\<rparr>)" "fits N (d\<lparr>rd_bs := bs1\<rparr>)"
    "bits_left (d\<lparr>rd_bs := bs1\<rparr>) = bits_left d - 1" "bits_left d = 0 \<longrightarrow> r = 0"
    using GetBits_any [OF less.prems, of 1] by auto
  show ?case
  proof (cases "r = 1")
    case False
    then have "count_ones d v = Some (v, d\<lparr>rd_bs := bs1\<rparr>)" using b(1) by (subst count_ones.simps) simp
    then show ?thesis using b(2,3) by (intro exI [of _ v] exI [of _ bs1]) simp
  next
    case True
    then have "bits_left (d\<lparr>rd_bs := bs1\<rparr>) < bits_left d" using b(3,4) by (cases "bits_left d = 0") auto
    from less.hyps [OF this b(2), of "v + 1"] obtain vk bs2 where c: "count_ones (d\<lparr>rd_bs := bs1\<rparr>) (v + 1) = Some (vk, d\<lparr>rd_bs := bs2\<rparr>)"
      "fits N (d\<lparr>rd_bs := bs2\<rparr>)" "bits_left (d\<lparr>rd_bs := bs2\<rparr>) \<le> bits_left (d\<lparr>rd_bs := bs1\<rparr>) - 1" by auto
    have "count_ones d v = Some (vk, d\<lparr>rd_bs := bs2\<rparr>)" using b(1) c(1) True by (subst count_ones.simps) simp
    then show ?thesis using b(3) c by (intro exI [of _ vk] exI [of _ bs2]) simp
  qed
qed

lemma fits_frame [simp]:
  "fits N (update_kp d x) = fits N d" "fits N (update_krp d x) = fits N d"
  "bits_left (update_kp d x) = bits_left d" "bits_left (update_krp d x) = bits_left d"
  "bits_left (WriteValue d v) = bits_left d" "bits_left (WriteZeroes d n) = bits_left d"
  by (simp_all add: fits_def bits_left_def update_kp_def update_krp_def split_beta WriteValue_def WriteZeroes_def Let_def)

lemma fits_write:
  "fits N d \<Longrightarrow> fits N (WriteValue d v)" "fits N d \<Longrightarrow> 0 \<le> n \<Longrightarrow> fits N (WriteZeroes d n)"
  by (auto simp: fits_def WriteValue_def WriteZeroes_def Let_def)

lemma GetGRCode_any:
  assumes "fits N d"
  shows "\<exists>mag d'. GetGRCode d = Some (mag, d') \<and> fits N d' \<and> bits_left d' \<le> bits_left d - 1"
proof -
  obtain vk bs1 where a: "count_ones d 0 = Some (vk, d\<lparr>rd_bs := bs1\<rparr>)" "fits N (d\<lparr>rd_bs := bs1\<rparr>)"
    "bits_left (d\<lparr>rd_bs := bs1\<rparr>) \<le> bits_left d - 1"
    using count_ones_any [OF assms] by blast
  obtain r bs2 where b: "GetBits (d\<lparr>rd_bs := bs1\<rparr>) (rd_kr d) = Some (r, d\<lparr>rd_bs := bs2\<rparr>)" "fits N (d\<lparr>rd_bs := bs2\<rparr>)"
    "bits_left (d\<lparr>rd_bs := bs2\<rparr>) \<le> bits_left (d\<lparr>rd_bs := bs1\<rparr>)"
    using GetBits_any [OF a(2), of "rd_kr d"] by auto
  show ?thesis using a b by (auto simp: GetGRCode_def Let_def)
qed

lemma decode_zero_runs_any:
  "fits N d \<Longrightarrow> \<exists>d'. decode_zero_runs d = Some d' \<and> fits N d' \<and> bits_left d' \<le> bits_left d - 1"
proof (induction "bits_left d" arbitrary: d rule: less_induct)
  case less
  show ?case
  proof (cases "rfx_bitstream_eos (rd_bs d)")
    case True
    then have "bits_left d = 0" using less.prems by (simp add: bits_left_def fits_def eos_remaining)
    with True show ?thesis using less.prems by (subst decode_zero_runs.simps) simp
  next
    case False
    then have pos: "0 < bits_left d" using less.prems by (simp add: bits_left_def fits_def eos_remaining)
    obtain r bs1 where b: "GetBits d 1 = Some (r, d\<lparr>rd_bs := bs1\<rparr>)" "fits N (d\<lparr>rd_bs := bs1\<rparr>)"
      "bits_left (d\<lparr>rd_bs := bs1\<rparr>) = bits_left d - 1"
      using GetBits_any [OF less.prems, of 1] by auto
    show ?thesis
    proof (cases "r = 0")
      case True
      let ?d = "update_kp (WriteZeroes (d\<lparr>rd_bs := bs1\<rparr>) (push_bit (nat (rd_k d)) 1)) UP_GR"
      have f: "fits N ?d" using fits_write(2) [OF b(2), of "push_bit (nat (rd_k d)) 1"] by (simp add: push_bit_eq_mult)
      have l: "bits_left ?d = bits_left d - 1" using b(3) by simp
      obtain d' where "decode_zero_runs ?d = Some d'" "fits N d'" "bits_left d' \<le> bits_left ?d - 1"
        using less.hyps [OF _ f] l pos by auto
      moreover have "decode_zero_runs d = decode_zero_runs ?d"
        using False True b(1) by (subst decode_zero_runs.simps) simp
      ultimately show ?thesis using l by auto
    next
      case nz: False
      have "decode_zero_runs d = Some (d\<lparr>rd_bs := bs1\<rparr>)" using False nz b(1) by (subst decode_zero_runs.simps) simp
      then show ?thesis using b by simp
    qed
  qed
qed

lemma decode_rl_any:
  assumes "fits N d" and "0 < bits_left d"
  shows "\<exists>d'. decode_rl d = Some d' \<and> fits N d' \<and> bits_left d' < bits_left d"
proof -
  obtain d1 where a: "decode_zero_runs d = Some d1" "fits N d1" "bits_left d1 \<le> bits_left d - 1"
    using decode_zero_runs_any [OF assms(1)] by blast
  obtain r bs2 where b: "GetBits d1 (rd_k d1) = Some (r, d1\<lparr>rd_bs := bs2\<rparr>)" "fits N (d1\<lparr>rd_bs := bs2\<rparr>)"
    "bits_left (d1\<lparr>rd_bs := bs2\<rparr>) \<le> bits_left d1"
    using GetBits_any [OF a(2), of "rd_k d1"] by auto
  have f: "fits N (WriteZeroes (d1\<lparr>rd_bs := bs2\<rparr>) (uint r))" using fits_write(2) [OF b(2)] by simp
  obtain s bs3 where c: "GetBits (WriteZeroes (d1\<lparr>rd_bs := bs2\<rparr>) (uint r)) 1
      = Some (s, (WriteZeroes (d1\<lparr>rd_bs := bs2\<rparr>) (uint r))\<lparr>rd_bs := bs3\<rparr>)"
    "fits N ((WriteZeroes (d1\<lparr>rd_bs := bs2\<rparr>) (uint r))\<lparr>rd_bs := bs3\<rparr>)"
    "bits_left ((WriteZeroes (d1\<lparr>rd_bs := bs2\<rparr>) (uint r))\<lparr>rd_bs := bs3\<rparr>) \<le> bits_left (d1\<lparr>rd_bs := bs2\<rparr>)"
    using GetBits_any [OF f, of 1] by auto
  obtain mag d4 where e: "GetGRCode ((WriteZeroes (d1\<lparr>rd_bs := bs2\<rparr>) (uint r))\<lparr>rd_bs := bs3\<rparr>) = Some (mag, d4)" "fits N d4"
    "bits_left d4 \<le> bits_left ((WriteZeroes (d1\<lparr>rd_bs := bs2\<rparr>) (uint r))\<lparr>rd_bs := bs3\<rparr>) - 1"
    using GetGRCode_any [OF c(2)] by blast
  have "bits_left d4 < bits_left d" using assms(2) a(3) b(3) c(3) e(3) by linarith
  then show ?thesis using fits_write(1) [OF e(2)] by (simp add: decode_rl_def a(1) b(1) c(1) e(1) Let_def)
qed

lemma decode_gr_any:
  assumes "fits N d" and "0 < bits_left d"
  shows "\<exists>d'. decode_gr mode d = Some d' \<and> fits N d' \<and> bits_left d' < bits_left d"
proof -
  obtain mag d1 where a: "GetGRCode d = Some (mag, d1)" "fits N d1" "bits_left d1 \<le> bits_left d - 1"
    using GetGRCode_any [OF assms(1)] by blast
  have l: "bits_left d1 < bits_left d" using a(3) assms(2) by linarith
  show ?thesis
  proof (cases mode)
    case RLGR1
    then show ?thesis using l fits_write(1) [OF a(2)] by (simp add: decode_gr_def a(1) Let_def)
  next
    case RLGR3
    obtain r bs2 where b: "GetBits d1 (int (GetMinBits (ucast mag) 0)) = Some (r, d1\<lparr>rd_bs := bs2\<rparr>)" "fits N (d1\<lparr>rd_bs := bs2\<rparr>)"
      "bits_left (d1\<lparr>rd_bs := bs2\<rparr>) \<le> bits_left d1"
      using GetBits_any [OF a(2), of "int (GetMinBits (ucast mag) 0)"] by auto
    show ?thesis using RLGR3 l b by (simp add: decode_gr_def a(1) Let_def fits_write(1))
  qed
qed

lemma decode_loop_any: "fits N d \<Longrightarrow> \<exists>d'. rlgr_decode_loop mode d = Some d' \<and> fits N d'"
proof (induction "bits_left d" arbitrary: d rule: less_induct)
  case less
  show ?case
  proof (cases "\<not> rfx_bitstream_eos (rd_bs d) \<and> rd_size d > 0")
    case False
    then have "rlgr_decode_loop mode d = Some d" by (subst rlgr_decode_loop.simps) (simp only: if_False)
    with less.prems show ?thesis by simp
  next
    case True
    then have "0 < bits_left d" using less.prems by (simp add: bits_left_def fits_def eos_remaining)
    then obtain d1 where s: "(if rd_k d \<noteq> 0 then decode_rl d else decode_gr mode d) = Some d1"
      and d1: "fits N d1" "bits_left d1 < bits_left d"
      using decode_rl_any [OF less.prems] decode_gr_any [OF less.prems, of mode] by (cases "rd_k d = 0") auto
    have "rlgr_decode_loop mode d = rlgr_decode_loop mode d1"
      using True by (subst rlgr_decode_loop.simps) (simp only: s simp_thms if_True bind.bind_lunit)
    then show ?thesis using less.hyps [OF d1(2,1)] by simp
  qed
qed

section \<open>Properties\<close>

text \<open>
  C5: what the entropy encoder writes, the decoder reads back. Encoding always returns; if it left
  at least one byte of the buffer unused, decoding the bytes it reports gives the coefficients again,
  except that a zero at the very end may come back as a one. In the mode RLGR3 the coefficients are
  assumed to lie in a range where the sum of two codes fits 16 bits.
\<close>

theorem rlgr_roundtrip:
  assumes "mode = RLGR3 \<longrightarrow> (\<forall>x \<in> set data. -16384 \<le> sint x \<and> sint x < 16384)"
  shows "\<exists>n buf. rfx_rlgr_encode mode data buffer = Some (n, buf) \<and> n \<le> length buffer
    \<and> (n < length buffer \<longrightarrow>
        rfx_rlgr_decode mode (take n buf) (int (length data)) \<in> {Some data, Some (butlast data @ [1])}
      \<and> (data \<noteq> [] \<and> last data \<noteq> 0 \<longrightarrow> rfx_rlgr_decode mode (take n buf) (int (length data)) = Some data))"
proof -
  obtain n buf where e: "rfx_rlgr_encode mode data buffer = Some (n, buf)" and n: "n \<le> length buffer"
    using encode_bits [of mode data buffer] by blast
  have s: "small mode data" using assms by (cases mode) (auto simp: small_def)
  have "rfx_rlgr_decode mode (take n buf) (int (length data)) \<in> {Some data, Some (butlast data @ [1])}
      \<and> (data \<noteq> [] \<and> last data \<noteq> 0 \<longrightarrow> rfx_rlgr_decode mode (take n buf) (int (length data)) = Some data)"
    if "n < length buffer"
    using decode_encoded [OF s e that] rlgr_image_cases [of mode 8 data] by auto
  with e n show ?thesis by blast
qed

theorem rlgr_roundtrip_witness:
  "\<exists>n buf. rfx_rlgr_encode RLGR3 [5, 0, -3, 0, 0, 100] (replicate 16 0) = Some (n, buf) \<and> n < 16
    \<and> rfx_rlgr_decode RLGR3 (take n buf) 6 = Some [5, 0, -3, 0, 0, 100]"
proof -
  have "length (rlgr_bits RLGR3 8 8 [5, 0, -3, 0, 0, 100]) < 100"
    by (simp add: rlgr_bits.simps zero_runs.simps kof_def gr_bits_def gr_next_def upd_def Let_def mag2_def GetMinBits.simps kp3_def)
  then obtain n buf where "rfx_rlgr_encode RLGR3 [5, 0, -3, 0, 0, 100] (replicate 16 0) = Some (n, buf)" "n < 16"
    using encode_bits [of RLGR3 "[5, 0, -3, 0, 0, 100]" "replicate 16 0"] by auto
  then show ?thesis using rlgr_roundtrip [of RLGR3 "[5, 0, -3, 0, 0, 100]" "replicate 16 0"] by auto
qed

text \<open>
  C38: a block of zeros does not survive. Whatever its length, the encoder writes a non-empty run of
  zeros in such a way that the decoder gives a one for the last of them.
\<close>

theorem rlgr_zeros_decoded:
  assumes "0 < k" and "rfx_rlgr_encode mode (replicate k 0) buffer = Some (n, buf)" and "n < length buffer"
  shows "rfx_rlgr_decode mode (take n buf) (int k) = Some (replicate (k - 1) 0 @ [1])"
proof -
  obtain j where k: "k = Suc j" using assms(1) by (cases k) simp_all
  have "small mode (replicate k 0)" by (auto simp: small_def)
  from decode_encoded [OF this assms(2,3)] show ?thesis
    by (simp add: k rlgr_image.simps zeros_collected kof_def split_beta Let_def)
qed

theorem rlgr_zeros_decoded_witness:
  "\<exists>n buf. rfx_rlgr_encode RLGR1 (replicate 64 0) (replicate 16 0) = Some (n, buf) \<and> n < 16
    \<and> rfx_rlgr_decode RLGR1 (take n buf) 64 = Some (replicate 63 0 @ [1])"
proof -
  have "collect_zeros 0 0 (replicate j (0 :: i16)) = (int j, 0, [])" for j
    using zeros_collected [of 0 j] by simp
  then have "length (rlgr_bits RLGR1 8 8 (replicate (Suc 63) 0)) < 100"
    unfolding replicate_Suc
    by (simp add: rlgr_bits.simps zero_runs.simps kof_def gr_bits_def gr_next_def upd_def Let_def del: replicate.simps)
  then obtain n buf where "rfx_rlgr_encode RLGR1 (replicate 64 0) (replicate 16 0) = Some (n, buf)" "n < 16"
    using encode_bits [of RLGR1 "replicate 64 0" "replicate 16 0"] by auto
  then show ?thesis using rlgr_zeros_decoded [of 64 RLGR1 "replicate 16 0" n buf] by auto
qed



text \<open>
  C15: the encoder is the reference encoding. For any coefficients and any output buffer the encoder
  returns; if it reports fewer bytes than the buffer has, the bytes it reports are the bits of the
  reference encoding followed by fewer than eight bits of padding.
\<close>

theorem rlgr_encode_reference:
  "\<exists>n buf. rfx_rlgr_encode mode data buffer = Some (n, buf) \<and> length buf = length buffer \<and> n \<le> length buffer
    \<and> (n < length buffer \<longrightarrow>
        (\<exists>pad. buffer_bits (take n buf) = rlgr_bits mode 8 8 data @ pad \<and> length pad < 8))"
proof -
  obtain n buf where e: "rfx_rlgr_encode mode data buffer = Some (n, buf)" "length buf = length buffer" "n \<le> length buffer"
    and l: "8 * n < length (rlgr_bits mode 8 8 data) + 8"
    and r: "n < length buffer \<longrightarrow> (\<exists>pad. buffer_bits (take n buf) = rlgr_bits mode 8 8 data @ pad)"
    using encode_bits [of mode data buffer] by blast
  have "\<exists>pad. buffer_bits (take n buf) = rlgr_bits mode 8 8 data @ pad \<and> length pad < 8" if n: "n < length buffer"
  proof -
    obtain pad where p: "buffer_bits (take n buf) = rlgr_bits mode 8 8 data @ pad" using r n by blast
    from arg_cong [OF p, of length] have "length pad < 8" using l n e(2) by simp
    with p show ?thesis by blast
  qed
  with e show ?thesis by blast
qed

theorem rlgr_encode_reference_witness:
  "\<exists>n buf pad. rfx_rlgr_encode RLGR1 [5, -3] (replicate 16 0) = Some (n, buf) \<and> n < 16
    \<and> buffer_bits (take n buf) = rlgr_bits RLGR1 8 8 [5, -3] @ pad \<and> length pad < 8"
proof -
  have "length (rlgr_bits RLGR1 8 8 [5, -3]) < 100"
    by (simp add: rlgr_bits.simps zero_runs.simps kof_def gr_bits_def gr_next_def upd_def Let_def mag2_def)
  then obtain n buf where e: "rfx_rlgr_encode RLGR1 [5, -3] (replicate 16 0) = Some (n, buf)" "n < 16"
    using encode_bits [of RLGR1 "[5, -3]" "replicate 16 0"] by auto
  then show ?thesis using rlgr_encode_reference [of RLGR1 "[5, -3]" "replicate 16 0"] by auto
qed

end
