(* ===== verification/Rfx_Component.thy ===== *)
theory Rfx_Component
  imports Rfx_Dwt_Roundtrip Rfx_Rlgr_Roundtrip
begin

text \<open>
  One colour component of a RemoteFX tile through the whole codec, and the colour conversion:
  \<^verbatim>\<open>libfreerdp-codec/rfx_encode.c\<close> and \<^verbatim>\<open>rfx_decode.c\<close>, with the portable routines the context is set up with.
  The three component buffers and the scratch buffer of the transform are lists; 32-bit sums wrap around.
\<close>

section \<open>Components\<close>

definition rfx_encode_component ::
  "RLGR_MODE \<Rightarrow> u32 list \<Rightarrow> i16 list \<Rightarrow> i16 list \<Rightarrow> u8 list \<Rightarrow> (nat \<times> u8 list \<times> i16 list \<times> i16 list) option" where
  "rfx_encode_component mode quantization_values data dwt_buffer buffer = do {
     (data, dwt_buffer) \<leftarrow> rfx_dwt_2d_encode (data, dwt_buffer);
     data \<leftarrow> rfx_quantization_encode quantization_values data;
     data \<leftarrow> rfx_differential_encode 4032 64 data;
     (size, buffer) \<leftarrow> rfx_rlgr_encode mode (take 4096 data) buffer;
     Some (size, buffer, data, dwt_buffer) }"

definition rfx_decode_component ::
  "RLGR_MODE \<Rightarrow> u32 list \<Rightarrow> u8 list \<Rightarrow> i16 list \<Rightarrow> i16 list \<Rightarrow> (i16 list \<times> i16 list) option" where
  "rfx_decode_component mode quantization_values data buffer dwt_buffer = do {
     vs \<leftarrow> rfx_rlgr_decode mode data 4096;
     buffer \<leftarrow> (if length vs \<le> length buffer then Some (overwrite buffer 0 vs) else None);
     buffer \<leftarrow> rfx_differential_decode 4032 64 buffer;
     buffer \<leftarrow> rfx_quantization_decode quantization_values buffer;
     rfx_dwt_2d_decode (buffer, dwt_buffer) }"

section \<open>Colours\<close>

type_synonym i32 = "32 word"

definition MINMAX :: "int \<Rightarrow> int \<Rightarrow> int \<Rightarrow> int" where
  "MINMAX v l h = (if v < l then l else if v > h then h else v)"

definition ycbcr_to_rgb :: "int \<Rightarrow> int \<Rightarrow> int \<Rightarrow> int \<times> int \<times> int" where
  "ycbcr_to_rgb y0 cb cr = (
     let y = (word_of_int (push_bit 16 (y0 + 4096)) :: i32);
         r = y + word_of_int (cr * 91947);
         g = y - word_of_int (cb * 22544) - word_of_int (cr * 46792);
         b = y + word_of_int (cb * 115998)
     in (MINMAX (drop_bit 21 (sint r)) 0 255, MINMAX (drop_bit 21 (sint g)) 0 255, MINMAX (drop_bit 21 (sint b)) 0 255))"

definition rgb_to_ycbcr :: "int \<Rightarrow> int \<Rightarrow> int \<Rightarrow> int \<times> int \<times> int" where
  "rgb_to_ycbcr r g b = (
     let y = drop_bit 10 (sint (word_of_int (r * 9798 + g * 19235 + b * 3735) :: i32));
         cb = drop_bit 10 (sint (word_of_int (r * -5535 + g * -10868 + b * 16403) :: i32));
         cr = drop_bit 10 (sint (word_of_int (r * 16377 + g * -13714 + b * -2663) :: i32))
     in (MINMAX (y - 4096) (-4096) 4095, MINMAX cb (-4096) 4095, MINMAX cr (-4096) 4095))"

text \<open>The loop over the pixels of a tile, which replaces the values of the three buffers in place.\<close>

definition convert_pixels :: "(int \<Rightarrow> int \<Rightarrow> int \<Rightarrow> int \<times> int \<times> int) \<Rightarrow> i16 list \<times> i16 list \<times> i16 list \<Rightarrow>
    (i16 list \<times> i16 list \<times> i16 list) option" where
  "convert_pixels f bufs = for_each [0..<4096] (\<lambda>i (a_buf, b_buf, c_buf). do {
     a \<leftarrow> at16 a_buf i;
     b \<leftarrow> at16 b_buf i;
     c \<leftarrow> at16 c_buf i;
     let (a, b, c) = f a b c;
     a_buf \<leftarrow> put16 a_buf i a;
     b_buf \<leftarrow> put16 b_buf i b;
     c_buf \<leftarrow> put16 c_buf i c;
     Some (a_buf, b_buf, c_buf) }) bufs"

definition rfx_decode_ycbcr_to_rgb :: "i16 list \<times> i16 list \<times> i16 list \<Rightarrow> (i16 list \<times> i16 list \<times> i16 list) option" where
  "rfx_decode_ycbcr_to_rgb = convert_pixels ycbcr_to_rgb"

definition rfx_encode_rgb_to_ycbcr :: "i16 list \<times> i16 list \<times> i16 list \<Rightarrow> (i16 list \<times> i16 list \<times> i16 list) option" where
  "rfx_encode_rgb_to_ycbcr = convert_pixels rgb_to_ycbcr"

section \<open>Quantization\<close>

definition shifted :: "(nat \<Rightarrow> int \<Rightarrow> int) \<Rightarrow> u32 \<Rightarrow> int \<Rightarrow> int" where
  "shifted f k v = (if k = 0 then v else f (unat k) v)"

lemma shift_elements_fill:
  assumes "base + n \<le> length b" and "k < 32"
  shows "shift_elements f base n k b = Some (fill (\<lambda>i. word_of_int (shifted f k (val b i))) {base..<base + n} b)"
proof (cases "k = 0")
  case True
  then show ?thesis by (simp add: shift_elements_def shifted_def list_eq_iff_nth_eq)
next
  case False
  let ?G = "\<lambda>i. word_of_int (f (unat k) (val b i)) :: i16"
  have "for_each [base..<base + n] (\<lambda>dst b. Option.bind (at16 b dst) (\<lambda>v. put16 b dst (f (unat k) v))) (fill ?G {base..<base} b)
      = Some (fill ?G {base..<base + n} b)"
  proof (rule for_each_fill [where S = "\<lambda>i. {base..<i}"])
    fix i assume i: "base \<le> i" "i < base + n"
    then have "{base..<Suc i} = insert i {base..<i}" by auto
    then show "Option.bind (at16 (fill ?G {base..<i} b) i) (\<lambda>v. put16 (fill ?G {base..<i} b) i (f (unat k) v))
        = Some (fill ?G {base..<Suc i} b)"
      using i assms(1) by (simp add: at16_fill put16_fill)
  qed simp
  then show ?thesis using False assms(2) by (simp add: shift_elements_def shifted_def not_le)
qed

text \<open>Bands that follow each other without gaps from \<open>a\<close> to \<open>z\<close>, and the quantization value of a cell.\<close>

fun contiguous :: "nat \<Rightarrow> (nat \<times> nat \<times> nat) list \<Rightarrow> nat \<Rightarrow> bool" where
  "contiguous a [] z \<longleftrightarrow> a = z"
| "contiguous a ((base, n, q) # bs) z \<longleftrightarrow> a = base \<and> contiguous (a + n) bs z"

fun band_index :: "(nat \<times> nat \<times> nat) list \<Rightarrow> nat \<Rightarrow> nat" where
  "band_index [] i = 0"
| "band_index ((base, n, q) # bs) i = (if i < base + n then q else band_index bs i)"

lemma contiguous_le: "contiguous a bs z \<Longrightarrow> a \<le> z"
  by (induction a bs z rule: contiguous.induct) auto

definition cell_factor :: "u32 list \<Rightarrow> nat \<Rightarrow> u32" where
  "cell_factor qs i = qs ! band_index tile_bands i - 6"

lemma over_bands_fill:
  assumes "contiguous a bs z" and "z \<le> length b" and "\<forall>(base, n, q) \<in> set bs. q < length qs \<and> qs ! q - 6 < 32"
  shows "over_bands bs (shift_elements f) qs b
    = Some (fill (\<lambda>i. word_of_int (shifted f (qs ! band_index bs i - 6) (val b i))) {a..<z} b)"
  using assms
proof (induction a bs z arbitrary: b rule: contiguous.induct)
  case (2 a base n q bs z)
  define b' where "b' = fill (\<lambda>i. word_of_int (shifted f (qs ! q - 6) (val b i))) {base..<base + n} b"
  have le: "base + n \<le> z" using 2(2) contiguous_le by auto
  then have "shift_elements f base n (qs ! q - 6) b = Some b'"
    unfolding b'_def using 2(3,4) by (intro shift_elements_fill) simp_all
  then have "over_bands ((base, n, q) # bs) (shift_elements f) qs b = over_bands bs (shift_elements f) qs b'"
    using 2(4) by simp
  also have "\<dots> = Some (fill (\<lambda>i. word_of_int (shifted f (qs ! band_index bs i - 6) (val b' i))) {base + n..<z} b')"
  proof -
    have "a = base" "contiguous (a + n) bs z" "z \<le> length b'" using 2(2,3) by (auto simp: b'_def)
    then show ?thesis using 2(1) [of b'] 2(4) by simp
  qed
  also have "fill (\<lambda>i. word_of_int (shifted f (qs ! band_index bs i - 6) (val b' i))) {base + n..<z} b'
      = fill (\<lambda>i. word_of_int (shifted f (qs ! band_index ((base, n, q) # bs) i - 6) (val b i))) {a..<z} b"
    using 2(2,3) le by (auto simp: b'_def list_eq_iff_nth_eq)
  finally show ?case .
qed simp

lemma over_tile_bands:
  assumes "4096 \<le> length b" and "length qs = 10" and "\<forall>q \<in> set qs. q - 6 < 32"
  shows "over_bands tile_bands (shift_elements f) qs b
    = Some (fill (\<lambda>i. word_of_int (shifted f (cell_factor qs i) (val b i))) {0..<4096} b)"
  using over_bands_fill [of 0 tile_bands 4096 b qs f] assms by (simp add: tile_bands_def cell_factor_def)

lemma fill_fill: "fill G A (fill H A b) = fill (\<lambda>i. G i) A b"
  by (simp add: list_eq_iff_nth_eq)

definition rounded :: "nat \<Rightarrow> int \<Rightarrow> int" where
  "rounded factor v = drop_bit factor (v + sint (word_of_int (push_bit (factor - 1) 1) :: i16))"

definition quantized :: "u32 \<Rightarrow> int \<Rightarrow> int" where
  "quantized k v = s16 (rounded 5 (s16 (shifted rounded k v)))"

definition dequantized :: "u32 \<Rightarrow> int \<Rightarrow> int" where
  "dequantized k v = s16 (shifted push_bit k (s16 (push_bit 5 v)))"

lemma quantization_encode_fill:
  assumes "4096 \<le> length b" and "length qs = 10" and "\<forall>q \<in> set qs. q - 6 < 32"
  shows "rfx_quantization_encode qs b = Some (fill (\<lambda>i. word_of_int (quantized (cell_factor qs i) (val b i))) {0..<4096} b)"
proof -
  have r: "rfx_quantization_encode_block = shift_elements rounded"
    unfolding rfx_quantization_encode_block_def Let_def rounded_def [abs_def] ..
  show ?thesis
    using assms
    by (simp add: rfx_quantization_encode_def r over_tile_bands shift_elements_fill shifted_def quantized_def
        list_eq_iff_nth_eq s16_def)
qed

lemma quantization_decode_fill:
  assumes "4096 \<le> length b" and "length qs = 10" and "\<forall>q \<in> set qs. q - 6 < 32"
  shows "rfx_quantization_decode qs b = Some (fill (\<lambda>i. word_of_int (dequantized (cell_factor qs i) (val b i))) {0..<4096} b)"
proof -
  have r: "rfx_quantization_decode_block = shift_elements push_bit"
    by (simp add: rfx_quantization_decode_block_def fun_eq_iff)
  show ?thesis
    using assms
    by (simp add: rfx_quantization_decode_def r over_tile_bands shift_elements_fill dequantized_def
        list_eq_iff_nth_eq s16_def shifted_def)
qed

text \<open>Rounding to a multiple of a power of two.\<close>

lemma rounded_error:
  assumes "0 < k" and "k < 16"
  shows "2 ^ k * rounded k v \<le> v + 2 ^ (k - 1)" and "v - 2 ^ (k - 1) < 2 ^ k * rounded k v"
proof -
  have half: "sint (word_of_int (push_bit (k - 1) 1) :: i16) = 2 ^ (k - 1)"
  proof -
    have "(2 :: int) ^ (k - 1) \<le> 16384" using assms(2) power_increasing [of "k - 1" 14 "2 :: int"] by simp
    moreover have "(0 :: int) \<le> 2 ^ (k - 1)" by simp
    ultimately have "s16 (2 ^ (k - 1)) = 2 ^ (k - 1)" by (intro s16_id) linarith+
    then show ?thesis by (simp only: s16_def push_bit_eq_mult mult_1)
  qed
  let ?x = "v + 2 ^ (k - 1)"
  have pos: "0 < (2 :: int) ^ k" by simp
  have r: "rounded k v = ?x div 2 ^ k" by (simp only: rounded_def half drop_bit_eq_div)
  have "2 ^ k * rounded k v \<le> ?x" "?x < 2 ^ k * rounded k v + 2 ^ k"
    unfolding r using minus_mod_eq_mult_div [of ?x "2 ^ k"] pos_mod_bound [OF pos, of ?x] pos_mod_sign [OF pos, of ?x] by linarith+
  moreover have "(2 :: int) ^ k = 2 * 2 ^ (k - 1)" using assms(1) by (cases k) simp_all
  ultimately show "2 ^ k * rounded k v \<le> ?x" "v - 2 ^ (k - 1) < 2 ^ k * rounded k v" by auto
qed

lemma abs_le_scaled: "1 \<le> P \<Longrightarrow> \<bar>x\<bar> \<le> \<bar>P * x\<bar>" for P x :: int
  by (simp add: abs_mult mult_le_cancel_right1)

lemma quantization_cell_error:
  assumes v: "\<bar>v\<bar> \<le> 24000" and k: "k < 10"
  shows "2 * \<bar>dequantized k (quantized k v) - v\<bar> \<le> 33 * 2 ^ unat k"
proof -
  define P :: int where "P = 2 ^ unat k"
  define r1 where "r1 = shifted rounded k v"
  define r2 where "r2 = rounded 5 r1"
  have n: "unat k < 10" using k by (simp add: word_less_nat_alt)
  have P: "1 \<le> P" "P \<le> 512"
    using n power_increasing [of "unat k" 9 "2 :: int"] by (simp_all add: P_def)
  have r1: "2 * (P * r1) \<le> 2 * v + P" "2 * v - P \<le> 2 * (P * r1)"
  proof (atomize (full), cases "k = 0")
    case False
    then have "0 < unat k" by (simp add: unat_gt_0)
    moreover from this have "P = 2 * 2 ^ (unat k - 1)" by (cases "unat k") (simp_all add: P_def)
    ultimately show "2 * (P * r1) \<le> 2 * v + P \<and> 2 * v - P \<le> 2 * (P * r1)"
      using rounded_error [of "unat k" v] n False by (simp add: r1_def shifted_def P_def)
  qed (simp add: r1_def shifted_def P_def)
  have r2: "32 * r2 \<le> r1 + 16" "r1 - 16 \<le> 32 * r2" using rounded_error [of 5 r1] by (simp_all add: r2_def)
  have "P * (32 * r2) \<le> P * (r1 + 16)" "P * (r1 - 16) \<le> P * (32 * r2)" using r2 P by (auto intro: mult_left_mono)
  moreover define Q R where "Q = P * (32 * r2)" and "R = P * r1"
  ultimately have "Q \<le> R + 16 * P" "R - 16 * P \<le> Q" by (simp_all add: algebra_simps)
  with r1 [folded R_def] have "2 * (Q - v) \<le> 33 * P" "2 * (v - Q) \<le> 33 * P" by auto
  then have e: "2 * \<bar>Q - v\<bar> \<le> 33 * P" by (simp add: abs_if)
  then have b2: "\<bar>Q\<bar> \<le> 32500" using v P by (auto simp: abs_if split: if_splits)
  have "\<bar>P * r1\<bar> \<le> 24256" using r1 v P by linarith
  then have s: "s16 r1 = r1" "s16 (32 * r2) = 32 * r2" "s16 r2 = r2"
    using abs_le_scaled [OF P(1), of r1] abs_le_scaled [OF P(1), of "32 * r2"] b2 by (auto intro!: s16_id simp flip: Q_def)
  have "quantized k v = r2" using s by (simp add: quantized_def r2_def r1_def)
  moreover have "s16 (push_bit 5 r2) = 32 * r2" using s by (simp add: push_bit_eq_mult mult.commute)
  ultimately have "dequantized k (quantized k v) = s16 Q"
    by (simp add: Q_def dequantized_def shifted_def P_def push_bit_eq_mult mult.commute)
  also have "\<dots> = Q" using b2 by (intro s16_id) linarith+
  finally show ?thesis using e by (simp add: P_def)
qed

section \<open>Differential coding\<close>

definition diffd :: "nat \<Rightarrow> nat \<Rightarrow> i16 list \<Rightarrow> i16 list" where
  "diffd base n b = fill (\<lambda>i. b ! i - b ! (i - 1)) {base + 1..<base + n} b"

lemma differential_encode_eq:
  assumes "0 < n" and "base + n \<le> length b"
  shows "rfx_differential_encode base n b = Some (diffd base n b)"
proof -
  let ?G = "\<lambda>i. b ! i - b ! (i - 1)"
  let ?T = "\<lambda>i. (val b (i - 1), fill ?G {base + 1..<i} b)"
  have "for_each [base + 1..<base + n] (\<lambda>dst (n1, buffer). Option.bind (at16 buffer dst) (\<lambda>n2.
      Option.bind (put16 buffer dst (n2 - n1)) (\<lambda>buffer. Some (n2, buffer)))) (?T (base + 1)) = Some (?T (base + n))"
  proof (rule for_each_states [where T = ?T])
    fix i assume i: "base + 1 \<le> i" "i < base + n"
    then have "{base + 1..<Suc i} = insert i {base + 1..<i}" by auto
    then show "(\<lambda>(n1, buffer). Option.bind (at16 buffer i) (\<lambda>n2.
        Option.bind (put16 buffer i (n2 - n1)) (\<lambda>buffer. Some (n2, buffer)))) (?T i) = Some (?T (Suc i))"
      using i assms(2) by (simp add: at16_fill put16_fill)
  qed (use assms(1) in simp)
  then show ?thesis using assms by (simp add: rfx_differential_encode_def diffd_def at16_inside)
qed

lemma differential_decode_eq:
  assumes "0 < n" and "base + n \<le> length b"
  shows "rfx_differential_decode base n (diffd base n b) = Some b"
proof -
  let ?c = "diffd base n b"
  have "for_each [base..<base + (n - 1)] (\<lambda>src buffer. Option.bind (at16 buffer src) (\<lambda>a.
      Option.bind (at16 buffer (src + 1)) (\<lambda>b. put16 buffer (src + 1) (b + a)))) (fill ((!) b) {base + 1..<base + 1} ?c)
    = Some (fill ((!) b) {base + 1..<base + (n - 1) + 1} ?c)"
  proof (rule for_each_fill [where S = "\<lambda>i. {base + 1..<i + 1}"])
    fix i assume i: "base \<le> i" "i < base + (n - 1)"
    then have S: "{base + 1..<Suc i + 1} = insert (i + 1) {base + 1..<i + 1}" by auto
    have "at16 (fill ((!) b) {base + 1..<i + 1} ?c) i = Some (val b i)"
      "at16 (fill ((!) b) {base + 1..<i + 1} ?c) (i + 1) = Some (sint (b ! (i + 1) - b ! i))"
      using i assms(2) by (auto simp: at16_fill diffd_def)
    then show "Option.bind (at16 (fill ((!) b) {base + 1..<i + 1} ?c) i) (\<lambda>a.
        Option.bind (at16 (fill ((!) b) {base + 1..<i + 1} ?c) (i + 1)) (\<lambda>y. put16 (fill ((!) b) {base + 1..<i + 1} ?c) (i + 1) (y + a)))
      = Some (fill ((!) b) {base + 1..<Suc i + 1} ?c)"
      using i assms(2) S by (simp add: put16_fill diffd_def)
  qed simp
  moreover have "fill ((!) b) {base + 1..<base + (n - 1) + 1} ?c = b"
    using assms(1) by (auto simp: list_eq_iff_nth_eq diffd_def)
  ultimately show ?thesis by (simp add: rfx_differential_decode_def)
qed

section \<open>Colours\<close>

lemma convert_pixels_fill:
  fixes f :: "int \<Rightarrow> int \<Rightarrow> int \<Rightarrow> int \<times> int \<times> int" and a b c :: "i16 list"
  assumes "4096 \<le> length a" and "4096 \<le> length b" and "4096 \<le> length c"
  defines "p \<equiv> \<lambda>i. f (val a i) (val b i) (val c i)"
  shows "convert_pixels f (a, b, c) = Some (fill (\<lambda>i. word_of_int (fst (p i))) {0..<4096} a,
    fill (\<lambda>i. word_of_int (fst (snd (p i)))) {0..<4096} b, fill (\<lambda>i. word_of_int (snd (snd (p i)))) {0..<4096} c)"
proof -
  let ?T = "\<lambda>n. (fill (\<lambda>i. word_of_int (fst (p i))) {0..<n} a,
    fill (\<lambda>i. word_of_int (fst (snd (p i)))) {0..<n} b, fill (\<lambda>i. word_of_int (snd (snd (p i)))) {0..<n} c)"
  have "convert_pixels f (?T 0) = Some (?T 4096)"
    unfolding convert_pixels_def
  proof (rule for_each_states [where T = ?T])
    fix i :: nat assume i: "i < 4096"
    have "{0..<Suc i} = insert i {0..<i}" by auto
    then show "(\<lambda>(a_buf, b_buf, c_buf). Option.bind (at16 a_buf i) (\<lambda>a. Option.bind (at16 b_buf i) (\<lambda>b.
        Option.bind (at16 c_buf i) (\<lambda>c. let (a, b, c) = f a b c in Option.bind (put16 a_buf i a) (\<lambda>a_buf.
        Option.bind (put16 b_buf i b) (\<lambda>b_buf. Option.bind (put16 c_buf i c) (\<lambda>c_buf. Some (a_buf, b_buf, c_buf)))))))) (?T i)
      = Some (?T (Suc i))"
      using i assms(1-3) by (simp add: at16_fill put16_fill split_beta p_def)
  qed simp
  then show ?thesis by simp
qed

lemma sint_i32: "- 2147483648 \<le> v \<Longrightarrow> v < 2147483648 \<Longrightarrow> sint (word_of_int v :: i32) = v"
  by (simp add: signed_of_int signed_take_bit_int_eq_self)

lemma div_bounds: "0 < k \<Longrightarrow> k * (v div k) \<le> v \<and> v \<le> k * (v div k) + (k - 1)" for k v :: int
  using pos_mod_bound [of k v] pos_mod_sign [of k v] minus_mod_eq_mult_div [of v k] by linarith

lemma rgb_to_ycbcr_exact:
  assumes "0 \<le> r" "r \<le> 255" "0 \<le> g" "g \<le> 255" "0 \<le> b" "b \<le> 255"
  shows "rgb_to_ycbcr r g b = ((9798 * r + 19235 * g + 3735 * b) div 1024 - 4096,
    (16403 * b - 5535 * r - 10868 * g) div 1024, (16377 * r - 13714 * g - 2663 * b) div 1024)"
proof -
  define y cb cr where "y = (9798 * r + 19235 * g + 3735 * b) div 1024"
    and "cb = (16403 * b - 5535 * r - 10868 * g) div 1024" and "cr = (16377 * r - 13714 * g - 2663 * b) div 1024"
  have "sint (word_of_int (r * 9798 + g * 19235 + b * 3735) :: i32) = 9798 * r + 19235 * g + 3735 * b"
    "sint (word_of_int (r * -5535 + g * -10868 + b * 16403) :: i32) = 16403 * b - 5535 * r - 10868 * g"
    "sint (word_of_int (r * 16377 + g * -13714 + b * -2663) :: i32) = 16377 * r - 13714 * g - 2663 * b"
    using assms by (subst sint_i32; simp)+
  then have "rgb_to_ycbcr r g b = (MINMAX (y - 4096) (-4096) 4095, MINMAX cb (-4096) 4095, MINMAX cr (-4096) 4095)"
    unfolding rgb_to_ycbcr_def Let_def y_def cb_def cr_def by (simp only: drop_bit_eq_div) simp
  moreover have "0 \<le> y" "y \<le> 8191" "- 4096 \<le> cb" "cb \<le> 4095" "- 4096 \<le> cr" "cr \<le> 4095"
    using assms div_bounds [of 1024 "9798 * r + 19235 * g + 3735 * b"] div_bounds [of 1024 "16403 * b - 5535 * r - 10868 * g"]
      div_bounds [of 1024 "16377 * r - 13714 * g - 2663 * b"]
    unfolding y_def cb_def cr_def by auto
  ultimately show ?thesis by (simp add: MINMAX_def y_def cb_def cr_def)
qed

lemma ycbcr_to_rgb_exact:
  assumes "0 \<le> y" "y \<le> 8191" "- 4096 \<le> cb" "cb \<le> 4095" "- 4096 \<le> cr" "cr \<le> 4095"
  shows "ycbcr_to_rgb (y - 4096) cb cr = (MINMAX ((65536 * y + 91947 * cr) div 2097152) 0 255,
    MINMAX ((65536 * y - 22544 * cb - 46792 * cr) div 2097152) 0 255, MINMAX ((65536 * y + 115998 * cb) div 2097152) 0 255)"
proof -
  have "push_bit 16 (y - 4096 + 4096) = 65536 * y" by (simp add: push_bit_eq_mult)
  moreover have "sint (word_of_int (65536 * y) + word_of_int (cr * 91947) :: i32) = 65536 * y + 91947 * cr"
    "sint (word_of_int (65536 * y) - word_of_int (cb * 22544) - word_of_int (cr * 46792) :: i32) = 65536 * y - 22544 * cb - 46792 * cr"
    "sint (word_of_int (65536 * y) + word_of_int (cb * 115998) :: i32) = 65536 * y + 115998 * cb"
    unfolding wi_homs using assms by (subst sint_i32; simp)+
  ultimately show ?thesis unfolding ycbcr_to_rgb_def Let_def by (simp only: drop_bit_eq_div) simp
qed

lemma minmax_near: "0 \<le> v \<Longrightarrow> v \<le> 255 \<Longrightarrow> v - 1 \<le> x \<Longrightarrow> x \<le> v \<Longrightarrow> v - 1 \<le> MINMAX x 0 255 \<and> MINMAX x 0 255 \<le> v"
  by (auto simp: MINMAX_def)

definition near_pixel :: "int \<times> int \<times> int \<Rightarrow> int \<times> int \<times> int \<Rightarrow> bool" where
  "near_pixel p q \<longleftrightarrow> fst p - 1 \<le> fst q \<and> fst q \<le> fst p \<and> fst (snd p) - 1 \<le> fst (snd q) \<and> fst (snd q) \<le> fst (snd p)
    \<and> snd (snd p) - 1 \<le> snd (snd q) \<and> snd (snd q) \<le> snd (snd p)"

lemma pixel_roundtrip:
  assumes rgb: "0 \<le> r" "r \<le> 255" "0 \<le> g" "g \<le> 255" "0 \<le> b" "b \<le> 255"
    and e: "rgb_to_ycbcr r g b = (y, cb, cr)"
  shows "near_pixel (r, g, b) (ycbcr_to_rgb y cb cr)" and "\<bar>y\<bar> \<le> 4096" "\<bar>cb\<bar> \<le> 4096" "\<bar>cr\<bar> \<le> 4096"
proof -
  define Y where "Y = (9798 * r + 19235 * g + 3735 * b) div 1024"
  have eq: "y = Y - 4096" "cb = (16403 * b - 5535 * r - 10868 * g) div 1024" "cr = (16377 * r - 13714 * g - 2663 * b) div 1024"
    using e rgb_to_ycbcr_exact [OF rgb] by (simp_all add: Y_def)
  have d: "1024 * Y \<le> 9798 * r + 19235 * g + 3735 * b" "9798 * r + 19235 * g + 3735 * b \<le> 1024 * Y + 1023"
    "1024 * cb \<le> 16403 * b - 5535 * r - 10868 * g" "16403 * b - 5535 * r - 10868 * g \<le> 1024 * cb + 1023"
    "1024 * cr \<le> 16377 * r - 13714 * g - 2663 * b" "16377 * r - 13714 * g - 2663 * b \<le> 1024 * cr + 1023"
    using div_bounds [of 1024 "9798 * r + 19235 * g + 3735 * b"] div_bounds [of 1024 "16403 * b - 5535 * r - 10868 * g"]
      div_bounds [of 1024 "16377 * r - 13714 * g - 2663 * b"] unfolding eq Y_def by auto
  have range: "0 \<le> Y" "Y \<le> 8191" "- 4096 \<le> cb" "cb \<le> 4095" "- 4096 \<le> cr" "cr \<le> 4095"
    using d rgb by auto
  then show "\<bar>y\<bar> \<le> 4096" "\<bar>cb\<bar> \<le> 4096" "\<bar>cr\<bar> \<le> 4096" using eq(1) by auto
  define R G B where "R = (65536 * Y + 91947 * cr) div 2097152"
    and "G = (65536 * Y - 22544 * cb - 46792 * cr) div 2097152" and "B = (65536 * Y + 115998 * cb) div 2097152"
  have R: "r - 1 \<le> R" "R \<le> r"
    using d(1,2,5,6) rgb div_bounds [of 2097152 "65536 * Y + 91947 * cr"] unfolding R_def by auto
  have G: "g - 1 \<le> G" "G \<le> g"
    using d rgb div_bounds [of 2097152 "65536 * Y - 22544 * cb - 46792 * cr"] unfolding G_def by auto
  have B: "b - 1 \<le> B" "B \<le> b"
    using d(1-4) rgb div_bounds [of 2097152 "65536 * Y + 115998 * cb"] unfolding B_def by auto
  show "near_pixel (r, g, b) (ycbcr_to_rgb y cb cr)"
    unfolding eq(1) ycbcr_to_rgb_exact [OF range] near_pixel_def R_def [symmetric] G_def [symmetric] B_def [symmetric]
    using minmax_near [OF rgb(1,2) R] minmax_near [OF rgb(3,4) G] minmax_near [OF rgb(5,6) B] by simp
qed

section \<open>Properties\<close>

lemma sint_small: "\<bar>v\<bar> \<le> 4096 \<Longrightarrow> sint (word_of_int v :: i16) = v"
  using s16_id [of v] by (simp add: s16_def)

text \<open>
  C39: The colours of a tile survive the conversion to luma and chroma and back: both loops return, the
  converted values lie in the range in which the wavelet transform is exact up to its rounding, and every
  8-bit channel of every pixel comes back as it was or one too low.
\<close>

theorem rgb_ycbcr_roundtrip:
  assumes len: "length r = 4096" "length g = 4096" "length b = 4096"
    and range: "\<forall>v \<in> set r \<union> set g \<union> set b. 0 \<le> sint v \<and> sint v \<le> 255"
  shows "\<exists>y cb cr r' g' b'. rfx_encode_rgb_to_ycbcr (r, g, b) = Some (y, cb, cr)
    \<and> rfx_decode_ycbcr_to_rgb (y, cb, cr) = Some (r', g', b')
    \<and> (\<forall>i<4096. \<bar>sint (y ! i)\<bar> \<le> 4096 \<and> \<bar>sint (cb ! i)\<bar> \<le> 4096 \<and> \<bar>sint (cr ! i)\<bar> \<le> 4096)
    \<and> (\<forall>i<4096. near_pixel (sint (r ! i), sint (g ! i), sint (b ! i)) (sint (r' ! i), sint (g' ! i), sint (b' ! i)))"
proof -
  define p where "p i = rgb_to_ycbcr (val r i) (val g i) (val b i)" for i
  define q where "q i = ycbcr_to_rgb (fst (p i)) (fst (snd (p i))) (snd (snd (p i)))" for i
  have pix: "near_pixel (val r i, val g i, val b i) (q i)" "\<bar>fst (p i)\<bar> \<le> 4096" "\<bar>fst (snd (p i))\<bar> \<le> 4096" "\<bar>snd (snd (p i))\<bar> \<le> 4096"
    if "i < 4096" for i
  proof -
    have "r ! i \<in> set r" "g ! i \<in> set g" "b ! i \<in> set b" using that len by simp_all
    then have v: "0 \<le> val r i" "val r i \<le> 255" "0 \<le> val g i" "val g i \<le> 255" "0 \<le> val b i" "val b i \<le> 255" using range by blast+
    have "rgb_to_ycbcr (val r i) (val g i) (val b i) = (fst (p i), fst (snd (p i)), snd (snd (p i)))" by (simp add: p_def)
    from pixel_roundtrip [OF v this] show "near_pixel (val r i, val g i, val b i) (q i)" "\<bar>fst (p i)\<bar> \<le> 4096"
      "\<bar>fst (snd (p i))\<bar> \<le> 4096" "\<bar>snd (snd (p i))\<bar> \<le> 4096" by (simp_all add: q_def)
  qed
  have near: "near_pixel x (sint (word_of_int (fst z) :: i16), sint (word_of_int (fst (snd z)) :: i16), sint (word_of_int (snd (snd z)) :: i16))"
    if "near_pixel x z" "z = ycbcr_to_rgb a c d" for x z a c d
  proof -
    have "\<bar>fst z\<bar> \<le> 4096" "\<bar>fst (snd z)\<bar> \<le> 4096" "\<bar>snd (snd z)\<bar> \<le> 4096"
      unfolding that(2) ycbcr_to_rgb_def Let_def MINMAX_def by auto
    then show ?thesis using that(1) by (simp add: sint_small)
  qed
  show ?thesis
    unfolding rfx_encode_rgb_to_ycbcr_def rfx_decode_ycbcr_to_rgb_def
    using len pix near [OF pix(1) q_def]
    by (simp add: convert_pixels_fill sint_small flip: p_def q_def)
qed

theorem rgb_ycbcr_roundtrip_witness:
  "\<exists>y cb cr r' g' b'. rfx_encode_rgb_to_ycbcr (replicate 4096 200, replicate 4096 100, replicate 4096 50) = Some (y, cb, cr)
    \<and> rfx_decode_ycbcr_to_rgb (y, cb, cr) = Some (r', g', b')
    \<and> (\<forall>i<4096. near_pixel (200, 100, 50) (sint (r' ! i), sint (g' ! i), sint (b' ! i)))"
  using rgb_ycbcr_roundtrip [of "replicate 4096 200" "replicate 4096 100" "replicate 4096 50"] by auto

lemma band_index_less: "band_index tile_bands i < 10"
  by (simp add: tile_bands_def)

lemma valid_quants:
  assumes "length qs = 10" and "\<forall>q \<in> set qs. 6 \<le> q \<and> q \<le> (15 :: u32)"
  shows "\<forall>q \<in> set qs. q - 6 < 32" and "cell_factor qs i < 10"
    and "unat (cell_factor qs i) = unat (qs ! band_index tile_bands i) - 6"
proof -
  have d: "unat (q - 6) = unat q - 6 \<and> unat (q - 6) < 10" if "6 \<le> q" "q \<le> 15" for q :: u32
    using that by (simp add: unat_sub word_le_nat_alt)
  have s: "q - 6 < 10" if "6 \<le> q" "q \<le> 15" for q :: u32 using d [OF that] by (simp add: word_less_nat_alt)
  have "q - 6 < 32" if "6 \<le> q" "q \<le> 15" for q :: u32 using d [OF that] by (simp add: word_less_nat_alt)
  then show "\<forall>q \<in> set qs. q - 6 < 32" using assms(2) by blast
  have "qs ! band_index tile_bands i \<in> set qs" using assms(1) band_index_less [of i] by simp
  then have "6 \<le> qs ! band_index tile_bands i" "qs ! band_index tile_bands i \<le> 15" using assms(2) by blast+
  then show "cell_factor qs i < 10" "unat (cell_factor qs i) = unat (qs ! band_index tile_bands i) - 6"
    using s d by (simp_all add: cell_factor_def)
qed

text \<open>A quantization value below 6, which a message can carry, makes the decoder shift by more than 31 bits.\<close>

lemma quantization_undefined:
  assumes "4096 \<le> length b" and "8 < length qs" and "qs ! 8 < 6"
  shows "rfx_quantization_decode qs b = None"
proof -
  have "\<not> qs ! 8 - 6 < 32" "qs ! 8 - 6 \<noteq> 0"
  proof -
    have "unat (qs ! 8) < 6" using assms(3) by (simp add: word_less_nat_alt)
    then have "unat (qs ! 8 - 6) = unat (qs ! 8) + 4294967290" by (simp add: unat_sub_if' word_size)
    then show "\<not> qs ! 8 - 6 < 32" "qs ! 8 - 6 \<noteq> 0" by (auto simp: word_less_nat_alt)
  qed
  then show ?thesis
    using assms by (simp add: rfx_quantization_decode_def rfx_quantization_decode_block_def tile_bands_def shift_elements_def not_less
        split: bind_splits)
qed

text \<open>
  C40: Quantization loses no more than it has to. For quantization values from 6 to 15, the range of the
  format, and coefficients that leave room for rounding up, both directions return, and every coefficient
  comes back within half a step of its band (32 shifted by the quantization value less 6) and half a step of
  the first of the two roundings.
\<close>

theorem quantization_error:
  assumes len: "length b = 4096" and q: "length qs = 10" "\<forall>q \<in> set qs. 6 \<le> q \<and> q \<le> 15"
    and small: "\<forall>v \<in> set b. \<bar>sint v\<bar> \<le> 24000"
  shows "\<exists>z b'. rfx_quantization_encode qs b = Some z \<and> rfx_quantization_decode qs z = Some b' \<and> length b' = 4096
    \<and> (\<forall>i<4096. 2 * \<bar>sint (b' ! i) - sint (b ! i)\<bar> \<le> 33 * 2 ^ (unat (qs ! band_index tile_bands i) - 6))"
proof -
  have s: "sint (word_of_int (quantized k v) :: i16) = quantized k v" "sint (word_of_int (dequantized k v) :: i16) = dequantized k v" for k v
    by (simp_all only: quantized_def dequantized_def sint_of_s16)
  have "2 * \<bar>dequantized (cell_factor qs i) (quantized (cell_factor qs i) (val b i)) - val b i\<bar>
      \<le> 33 * 2 ^ (unat (qs ! band_index tile_bands i) - 6)" if "i < 4096" for i
  proof -
    have "\<bar>val b i\<bar> \<le> 24000" using small that len nth_mem [of i b] by simp
    from quantization_cell_error [OF this valid_quants(2) [OF q, of i]] show ?thesis by (simp only: valid_quants(3) [OF q])
  qed
  then show ?thesis
    using len q(1) valid_quants(1) [OF q] by (simp add: quantization_encode_fill quantization_decode_fill s)
qed

theorem quantization_error_witness:
  "\<exists>z b'. rfx_quantization_encode [6, 6, 6, 6, 7, 7, 8, 8, 8, 9] (replicate 4096 1000) = Some z
    \<and> rfx_quantization_decode [6, 6, 6, 6, 7, 7, 8, 8, 8, 9] z = Some b' \<and> length b' = 4096
    \<and> 2 * \<bar>sint (b' ! 0) - 1000\<bar> \<le> 132"
proof -
  obtain z b' where zb: "rfx_quantization_encode [6, 6, 6, 6, 7, 7, 8, 8, 8, 9] (replicate 4096 1000) = Some z"
    "rfx_quantization_decode [6, 6, 6, 6, 7, 7, 8, 8, 8, 9] z = Some b'" "length b' = 4096"
    and e: "\<forall>i<4096. 2 * \<bar>sint (b' ! i) - sint (replicate 4096 (1000 :: i16) ! i)\<bar>
      \<le> 33 * 2 ^ (unat ([6, 6, 6, 6, 7, 7, 8, 8, 8, 9 :: u32] ! band_index tile_bands i) - 6)"
    using quantization_error [of "replicate 4096 1000" "[6, 6, 6, 6, 7, 7, 8, 8, 8, 9]"] by auto
  have "2 * \<bar>sint (b' ! 0) - 1000\<bar> \<le> 132" using e [rule_format, of 0] by (simp add: tile_bands_def)
  with zb show ?thesis by blast
qed

lemma quantized_small: "\<bar>quantized k v\<bar> \<le> 1024"
proof -
  let ?x = "s16 (shifted rounded k v)"
  have "- 32768 \<le> ?x" "?x < 32768" unfolding s16_def by (rule sint_i16_range)+
  then have r: "\<bar>rounded 5 ?x\<bar> \<le> 1024" using rounded_error [of 5 ?x] by (auto simp: abs_if)
  then have "s16 (rounded 5 ?x) = rounded 5 ?x" by (intro s16_id) linarith+
  with r show ?thesis by (simp add: quantized_def)
qed

text \<open>The bytes of an encoded component are decoded to the quantized coefficients.\<close>

lemma coefficients_decoded:
  assumes z: "length z = 4096" "\<And>i. i < 4096 \<Longrightarrow> \<bar>val z i\<bar> \<le> 1024"
    and e: "rfx_rlgr_encode mode (diffd 4032 64 z) buffer = Some (n, out)" and n: "n < length buffer"
  shows "\<exists>z'. z' \<in> {z, z[4095 := z ! 4095 + 1]} \<and> rfx_rlgr_decode mode (take n out) 4096 = Some (diffd 4032 64 z')"
proof -
  let ?c = "diffd 4032 64 z" and ?z = "z[4095 := z ! 4095 + 1]"
  have len: "length ?c = 4096" by (simp add: diffd_def z(1))
  have small: "- 16384 \<le> sint x \<and> sint x < 16384" if x: "x \<in> set ?c" for x
  proof -
    obtain i where i: "i < 4096" "x = ?c ! i" using x by (auto simp: in_set_conv_nth len)
    have b: "\<bar>val z i\<bar> \<le> 1024" "\<bar>val z (i - 1)\<bar> \<le> 1024" using z(2) [of i] z(2) [of "i - 1"] i by simp_all
    have "sint (z ! i - z ! (i - 1)) = val z i - val z (i - 1)"
      using sint_small [of "val z i - val z (i - 1)"] b by simp
    then show ?thesis using b i z(1) by (auto simp: diffd_def)
  qed
  then have s: "small mode ?c" by (cases mode) (auto simp: small_def)
  have d: "rfx_rlgr_decode mode (take n out) 4096 = Some (rlgr_image mode 8 ?c)"
    using decode_encoded [OF s e n] len by simp
  show ?thesis
  proof (cases "rlgr_image mode 8 ?c = ?c")
    case True
    then show ?thesis using d by (intro exI [of _ z]) simp
  next
    case False
    then have l: "last ?c = 0" and im: "rlgr_image mode 8 ?c = butlast ?c @ [1]"
      using rlgr_image_cases [of mode 8 ?c] by auto
    have "?c \<noteq> []" using len by auto
    then have l': "?c ! 4095 = 0" using l len by (simp add: last_conv_nth)
    have "butlast ?c @ [1] = ?c[4095 := 1]" using \<open>?c \<noteq> []\<close> len by (simp add: list_eq_iff_nth_eq nth_append nth_butlast nth_list_update)
    also have "\<dots> = diffd 4032 64 ?z"
      using l' z(1) by (auto simp: diffd_def list_eq_iff_nth_eq nth_list_update)
    finally show ?thesis using d im by (intro exI [of _ ?z]) simp
  qed
qed

text \<open>
  C7: A component of a tile goes through the codec with no loss but that of the transform and the
  quantization. Encoding returns for every tile and all quantization values of the format; if it left a byte
  of the output unused, decoding returns, and gives exactly what inverse quantization and inverse transform
  make of the quantized coefficients, where the last one may be one too high.
\<close>

theorem component_coding_lossless:
  assumes len: "length data = 4096" "4096 \<le> length dwt" "length buffer = 4096" "4096 \<le> length idwt"
    and q: "length qs = 10" "\<forall>q \<in> set qs. 6 \<le> q \<and> q \<le> 15"
  shows "\<exists>n out coefficients bands dwt' z. rfx_encode_component mode qs data dwt out0 = Some (n, out, coefficients, dwt')
    \<and> rfx_dwt_2d_encode (data, dwt) = Some (bands, dwt') \<and> rfx_quantization_encode qs bands = Some z
    \<and> (n < length out0 \<longrightarrow> (\<exists>z' result. z' \<in> {z, z[4095 := z ! 4095 + 1]}
        \<and> rfx_decode_component mode qs (take n out) buffer idwt = Some result
        \<and> Option.bind (rfx_quantization_decode qs z') (\<lambda>b. rfx_dwt_2d_decode (b, idwt)) = Some result))"
proof -
  have v: "\<forall>q \<in> set qs. q - 6 < 32" using valid_quants(1) [OF q] .
  obtain dwt' where t: "rfx_dwt_2d_encode (data, dwt) = Some (tile_enc data, dwt')" using dwt_encode_tile [of data dwt] len(1,2) by auto
  define z where "z = fill (\<lambda>i. word_of_int (quantized (cell_factor qs i) (val (tile_enc data) i)) :: i16) {0..<4096} (tile_enc data)"
  have z: "rfx_quantization_encode qs (tile_enc data) = Some z" "length z = 4096"
    using quantization_encode_fill [of "tile_enc data" qs] len(1) q(1) v by (simp_all add: z_def)
  have zs: "\<bar>val z i\<bar> \<le> 1024" if "i < 4096" for i
    using that len(1) quantized_small [of "cell_factor qs i" "val (tile_enc data) i"] sint_small [OF order_trans [OF quantized_small]]
    by (simp add: z_def)
  have lz: "length (diffd 4032 64 z) = 4096" by (simp add: diffd_def z(2))
  obtain n out where e: "rfx_rlgr_encode mode (diffd 4032 64 z) out0 = Some (n, out)" using encode_bits by blast
  have enc: "rfx_encode_component mode qs data dwt out0 = Some (n, out, diffd 4032 64 z, dwt')"
    using t z e lz differential_encode_eq [of 64 4032 z] by (simp add: rfx_encode_component_def)
  have "\<exists>z' result. z' \<in> {z, z[4095 := z ! 4095 + 1]} \<and> rfx_decode_component mode qs (take n out) buffer idwt = Some result
      \<and> Option.bind (rfx_quantization_decode qs z') (\<lambda>b. rfx_dwt_2d_decode (b, idwt)) = Some result" if small: "n < length out0"
  proof -
    obtain z' where z': "z' \<in> {z, z[4095 := z ! 4095 + 1]}" and d: "rfx_rlgr_decode mode (take n out) 4096 = Some (diffd 4032 64 z')"
      using coefficients_decoded [OF z(2) zs e small] by blast
    have lz': "length z' = 4096" using z' z(2) by auto
    obtain b where b: "rfx_quantization_decode qs z' = Some b" "length b = 4096"
      using quantization_decode_fill [of z' qs] lz' q(1) v by simp
    obtain result where r: "rfx_dwt_2d_decode (b, idwt) = Some result" using dwt_decode_tile [of b idwt] b(2) len(4) by auto
    have "overwrite buffer 0 (diffd 4032 64 z') = diffd 4032 64 z'" using len(3) lz' by (simp add: overwrite_def diffd_def)
    then have "rfx_decode_component mode qs (take n out) buffer idwt = Some result"
      using d b r lz' len(3) differential_decode_eq [of 64 4032 z'] by (simp add: rfx_decode_component_def diffd_def)
    then show ?thesis using z' b r by (intro exI [of _ z'] exI [of _ result]) simp
  qed
  with enc t z(1) show ?thesis by blast
qed

text \<open>A tile of zeros, for the witness.\<close>

lemma fwd_zero:
  assumes "\<And>x. x < 2 * w \<Longrightarrow> f x = 0" and "n < w"
  shows "fwd_h w f n = 0" "fwd_l w f n = 0"
  using fwd_cong [of w f "\<lambda>_. 0" n] assms by (simp_all add: fwd_h_def fwd_l_def s16_def)

lemma enc_zero:
  assumes "0 < w" and "base + 4 * w * w \<le> n"
  shows "enc base w (replicate n 0) = replicate n 0"
proof -
  let ?b = "replicate n (0 :: i16)"
  have v: "val ?b (base + y * (2 * w) + x) = 0" if "y < 2 * w" "x < 2 * w" for y x
    using cell_less [OF that] assms(2) by simp
  then have c: "col_l ?b base w y x = 0" "col_h ?b base w y x = 0" if "y < w" "x < 2 * w" for y x
    using fwd_zero [of w "\<lambda>y. val ?b (base + y * (2 * w) + x)" y] that by (simp_all add: col_l_def col_h_def)
  have "bands_target ?b base w i = 0" for i
  proof -
    let ?j = "(i - base) mod (w * w)"
    have y: "?j div w < w" and n: "?j mod w < w" using assms(1) by (simp_all add: div_less_iff_less_mult)
    show ?thesis using fwd_zero [OF c(1) [OF y] n] fwd_zero [OF c(2) [OF y] n] by (simp add: bands_target_def band_of_def)
  qed
  then show ?thesis by (simp add: enc_def list_eq_iff_nth_eq)
qed

lemma zero_tile_bits: "length (rlgr_bits RLGR1 8 8 (replicate 4096 0)) < 100"
proof -
  have "collect_zeros 0 0 (replicate j (0 :: i16)) = (int j, 0, [])" for j
    using zeros_collected [of 0 j] by simp
  then have "length (rlgr_bits RLGR1 8 8 (replicate (Suc 4095) 0)) < 100"
    unfolding replicate_Suc
    by (simp add: rlgr_bits.simps zero_runs.simps kof_def gr_bits_def gr_next_def upd_def Let_def del: replicate.simps)
  then show ?thesis by simp
qed

theorem component_coding_lossless_witness:
  "\<exists>n out coefficients dwt' result. rfx_encode_component RLGR1 (replicate 10 6) (replicate 4096 0) (replicate 4096 0) (replicate 16 0)
      = Some (n, out, coefficients, dwt') \<and> n < 16
    \<and> rfx_decode_component RLGR1 (replicate 10 6) (take n out) (replicate 4096 0) (replicate 4096 0) = Some result"
proof -
  let ?qs = "replicate 10 (6 :: u32)" and ?z = "replicate 4096 (0 :: i16)"
  obtain n out coefficients dwt' where e: "rfx_encode_component RLGR1 ?qs ?z ?z (replicate 16 0) = Some (n, out, coefficients, dwt')"
    and d: "n < 16 \<longrightarrow> (\<exists>result. rfx_decode_component RLGR1 ?qs (take n out) ?z ?z = Some result)"
    using component_coding_lossless [of ?z ?z ?z ?z ?qs RLGR1 "replicate 16 0"] by auto
  obtain dwt1 where t: "rfx_dwt_2d_encode (?z, ?z) = Some (?z, dwt1)"
    using dwt_encode_tile [of ?z ?z] by (auto simp: tile_enc_def enc_zero)
  have "cell_factor ?qs i = 0" for i using band_index_less [of i] by (simp add: cell_factor_def)
  then have "rfx_quantization_encode ?qs ?z = Some ?z"
    by (subst quantization_encode_fill) (simp_all add: list_eq_iff_nth_eq quantized_def shifted_def rounded_def s16_def)
  moreover have "diffd 4032 64 ?z = ?z" by (simp add: diffd_def list_eq_iff_nth_eq)
  ultimately have "\<exists>out. rfx_rlgr_encode RLGR1 ?z (replicate 16 0) = Some (n, out)"
    using e t differential_encode_eq [of 64 4032 ?z] by (auto simp: rfx_encode_component_def split: bind_splits)
  then have "n < 16" using encode_bits [of RLGR1 ?z "replicate 16 0"] zero_tile_bits by auto
  with e d show ?thesis by blast
qed

end
