(* ===== verification/Capability_Types.thy ===== *)
theory Capability_Types
  imports Wire_Stream
begin

text \<open>
  The data of the capability exchange: the constants of \<^verbatim>\<open>libfreerdp-core/capabilities.h\<close>, the codec
  identifiers, and the part of \<^verbatim>\<open>struct rdp_settings\<close> (\<^verbatim>\<open>include/freerdp/settings.h\<close>) that
  \<^verbatim>\<open>libfreerdp-core/capabilities.c\<close> reads or writes. \<open>received_caps\<close> and \<open>order_support\<close> are arrays of 32
  bytes in the program, here lists of that length; the first is only used as an array of flags.
\<close>

section \<open>Constants\<close>

definition CAPSET_TYPE_GENERAL :: u16 where "CAPSET_TYPE_GENERAL = 0x1"
definition CAPSET_TYPE_BITMAP :: u16 where "CAPSET_TYPE_BITMAP = 0x2"
definition CAPSET_TYPE_ORDER :: u16 where "CAPSET_TYPE_ORDER = 0x3"
definition CAPSET_TYPE_BITMAP_CACHE :: u16 where "CAPSET_TYPE_BITMAP_CACHE = 0x4"
definition CAPSET_TYPE_CONTROL :: u16 where "CAPSET_TYPE_CONTROL = 0x5"
definition CAPSET_TYPE_ACTIVATION :: u16 where "CAPSET_TYPE_ACTIVATION = 0x7"
definition CAPSET_TYPE_POINTER :: u16 where "CAPSET_TYPE_POINTER = 0x8"
definition CAPSET_TYPE_SHARE :: u16 where "CAPSET_TYPE_SHARE = 0x9"
definition CAPSET_TYPE_COLOR_CACHE :: u16 where "CAPSET_TYPE_COLOR_CACHE = 0xA"
definition CAPSET_TYPE_SOUND :: u16 where "CAPSET_TYPE_SOUND = 0xC"
definition CAPSET_TYPE_INPUT :: u16 where "CAPSET_TYPE_INPUT = 0xD"
definition CAPSET_TYPE_FONT :: u16 where "CAPSET_TYPE_FONT = 0xE"
definition CAPSET_TYPE_BRUSH :: u16 where "CAPSET_TYPE_BRUSH = 0xF"
definition CAPSET_TYPE_GLYPH_CACHE :: u16 where "CAPSET_TYPE_GLYPH_CACHE = 0x10"
definition CAPSET_TYPE_OFFSCREEN_CACHE :: u16 where "CAPSET_TYPE_OFFSCREEN_CACHE = 0x11"
definition CAPSET_TYPE_BITMAP_CACHE_HOST_SUPPORT :: u16 where "CAPSET_TYPE_BITMAP_CACHE_HOST_SUPPORT = 0x12"
definition CAPSET_TYPE_BITMAP_CACHE_V2 :: u16 where "CAPSET_TYPE_BITMAP_CACHE_V2 = 0x13"
definition CAPSET_TYPE_VIRTUAL_CHANNEL :: u16 where "CAPSET_TYPE_VIRTUAL_CHANNEL = 0x14"
definition CAPSET_TYPE_DRAW_NINE_GRID_CACHE :: u16 where "CAPSET_TYPE_DRAW_NINE_GRID_CACHE = 0x15"
definition CAPSET_TYPE_DRAW_GDI_PLUS :: u16 where "CAPSET_TYPE_DRAW_GDI_PLUS = 0x16"
definition CAPSET_TYPE_RAIL :: u16 where "CAPSET_TYPE_RAIL = 0x17"
definition CAPSET_TYPE_WINDOW :: u16 where "CAPSET_TYPE_WINDOW = 0x18"
definition CAPSET_TYPE_COMP_DESK :: u16 where "CAPSET_TYPE_COMP_DESK = 0x19"
definition CAPSET_TYPE_MULTI_FRAGMENT_UPDATE :: u16 where "CAPSET_TYPE_MULTI_FRAGMENT_UPDATE = 0x1A"
definition CAPSET_TYPE_LARGE_POINTER :: u16 where "CAPSET_TYPE_LARGE_POINTER = 0x1B"
definition CAPSET_TYPE_SURFACE_COMMANDS :: u16 where "CAPSET_TYPE_SURFACE_COMMANDS = 0x1C"
definition CAPSET_TYPE_BITMAP_CODECS :: u16 where "CAPSET_TYPE_BITMAP_CODECS = 0x1D"
definition CAPSET_TYPE_FRAME_ACKNOWLEDGE :: u16 where "CAPSET_TYPE_FRAME_ACKNOWLEDGE = 0x1E"
definition CAPSET_HEADER_LENGTH :: int where "CAPSET_HEADER_LENGTH = 4"
definition CAPS_PROTOCOL_VERSION :: u16 where "CAPS_PROTOCOL_VERSION = 0x200"
definition FASTPATH_OUTPUT_SUPPORTED :: u16 where "FASTPATH_OUTPUT_SUPPORTED = 0x1"
definition NO_BITMAP_COMPRESSION_HDR :: u16 where "NO_BITMAP_COMPRESSION_HDR = 0x400"
definition LONG_CREDENTIALS_SUPPORTED :: u16 where "LONG_CREDENTIALS_SUPPORTED = 0x4"
definition AUTORECONNECT_SUPPORTED :: u16 where "AUTORECONNECT_SUPPORTED = 0x8"
definition NEGOTIATE_ORDER_SUPPORT :: u16 where "NEGOTIATE_ORDER_SUPPORT = 0x2"
definition ZERO_BOUNDS_DELTA_SUPPORT :: u16 where "ZERO_BOUNDS_DELTA_SUPPORT = 0x8"
definition COLOR_INDEX_SUPPORT :: u16 where "COLOR_INDEX_SUPPORT = 0x20"
definition ORDER_FLAGS_EXTRA_SUPPORT :: u16 where "ORDER_FLAGS_EXTRA_SUPPORT = 0x80"
definition CACHE_BITMAP_V3_SUPPORT :: u16 where "CACHE_BITMAP_V3_SUPPORT = 0x2"
definition ALTSEC_FRAME_MARKER_SUPPORT :: u16 where "ALTSEC_FRAME_MARKER_SUPPORT = 0x4"
definition SOUND_BEEPS_FLAG :: u16 where "SOUND_BEEPS_FLAG = 0x1"
definition INPUT_FLAG_SCANCODES :: u16 where "INPUT_FLAG_SCANCODES = 0x1"
definition INPUT_FLAG_MOUSEX :: u16 where "INPUT_FLAG_MOUSEX = 0x4"
definition INPUT_FLAG_FASTPATH_INPUT :: u16 where "INPUT_FLAG_FASTPATH_INPUT = 0x8"
definition INPUT_FLAG_UNICODE :: u16 where "INPUT_FLAG_UNICODE = 0x10"
definition INPUT_FLAG_FASTPATH_INPUT2 :: u16 where "INPUT_FLAG_FASTPATH_INPUT2 = 0x20"
definition FONTSUPPORT_FONTLIST :: u16 where "FONTSUPPORT_FONTLIST = 0x1"
definition BRUSH_COLOR_FULL :: u32 where "BRUSH_COLOR_FULL = 0x2"
definition BITMAP_CACHE_V2 :: u8 where "BITMAP_CACHE_V2 = 0x1"
definition PERSISTENT_KEYS_EXPECTED_FLAG :: u16 where "PERSISTENT_KEYS_EXPECTED_FLAG = 0x1"
definition ALLOW_CACHE_WAITING_LIST_FLAG :: u16 where "ALLOW_CACHE_WAITING_LIST_FLAG = 0x2"
definition VCCAPS_NO_COMPR :: u32 where "VCCAPS_NO_COMPR = 0"
definition VCCAPS_COMPR_CS_8K :: u32 where "VCCAPS_COMPR_CS_8K = 0x2"
definition DRAW_NINEGRID_NO_SUPPORT :: u32 where "DRAW_NINEGRID_NO_SUPPORT = 0"
definition DRAW_NINEGRID_SUPPORTED :: u32 where "DRAW_NINEGRID_SUPPORTED = 0x1"
definition DRAW_NINEGRID_SUPPORTED_V2 :: u32 where "DRAW_NINEGRID_SUPPORTED_V2 = 0x2"
definition DRAW_GDIPLUS_DEFAULT :: u32 where "DRAW_GDIPLUS_DEFAULT = 0"
definition DRAW_GDIPLUS_SUPPORTED :: u32 where "DRAW_GDIPLUS_SUPPORTED = 0x1"
definition DRAW_GDIPLUS_CACHE_LEVEL_DEFAULT :: u32 where "DRAW_GDIPLUS_CACHE_LEVEL_DEFAULT = 0"
definition DRAW_GDIPLUS_CACHE_LEVEL_ONE :: u32 where "DRAW_GDIPLUS_CACHE_LEVEL_ONE = 0x1"
definition RAIL_LEVEL_SUPPORTED :: u32 where "RAIL_LEVEL_SUPPORTED = 0x1"
definition RAIL_LEVEL_DOCKED_LANGBAR_SUPPORTED :: u32 where "RAIL_LEVEL_DOCKED_LANGBAR_SUPPORTED = 0x2"
definition WINDOW_LEVEL_SUPPORTED_EX :: u32 where "WINDOW_LEVEL_SUPPORTED_EX = 0x2"
definition COMPDESK_NOT_SUPPORTED :: u16 where "COMPDESK_NOT_SUPPORTED = 0"
definition COMPDESK_SUPPORTED :: u16 where "COMPDESK_SUPPORTED = 0x1"
definition LARGE_POINTER_FLAG_96x96 :: u16 where "LARGE_POINTER_FLAG_96x96 = 0x1"
definition SURFCMDS_SET_SURFACE_BITS :: u32 where "SURFCMDS_SET_SURFACE_BITS = 0x2"
definition SURFCMDS_FRAME_MARKER :: u32 where "SURFCMDS_FRAME_MARKER = 0x10"
definition SURFCMDS_STREAM_SURFACE_BITS :: u32 where "SURFCMDS_STREAM_SURFACE_BITS = 0x40"
definition CARDP_CAPS_CAPTURE_NON_CAC :: u32 where "CARDP_CAPS_CAPTURE_NON_CAC = 0x1"
definition CBY_CAPS :: u16 where "CBY_CAPS = 0xCBC0"
definition CBY_CAPSET :: u16 where "CBY_CAPSET = 0xCBC1"
definition CLY_CAPSET :: u16 where "CLY_CAPSET = 0xCFC0"
definition CLW_VERSION_1_0 :: u16 where "CLW_VERSION_1_0 = 0x100"
definition CT_TILE_64x64 :: u16 where "CT_TILE_64x64 = 0x40"
definition CLW_COL_CONV_ICT :: u8 where "CLW_COL_CONV_ICT = 0x1"
definition CLW_XFORM_DWT_53_A :: u8 where "CLW_XFORM_DWT_53_A = 0x1"
definition CLW_ENTROPY_RLGR1 :: u8 where "CLW_ENTROPY_RLGR1 = 0x1"
definition CLW_ENTROPY_RLGR3 :: u8 where "CLW_ENTROPY_RLGR3 = 0x4"

definition CODEC_ID_NSCODEC :: u8 where "CODEC_ID_NSCODEC = 0x01"
definition CODEC_ID_JPEG :: u8 where "CODEC_ID_JPEG = 0x02"
definition CODEC_ID_REMOTEFX :: u8 where "CODEC_ID_REMOTEFX = 0x03"

text \<open>The string literals, as bytes; \<open>sizeof\<close> counts the final zero of \<open>SOURCE_DESCRIPTOR\<close>.\<close>

definition SOURCE_DESCRIPTOR :: "u8 list" where
  "SOURCE_DESCRIPTOR = [0x46, 0x52, 0x45, 0x45, 0x52, 0x44, 0x50, 0x00]"

definition CODEC_GUID_REMOTEFX :: "u8 list" where
  "CODEC_GUID_REMOTEFX = [0x12, 0x2F, 0x77, 0x76, 0x72, 0xBD, 0x63, 0x44, 0xAF, 0xB3, 0xB7, 0x3C, 0x9C, 0x6F, 0x78, 0x86]"

definition CODEC_GUID_NSCODEC :: "u8 list" where
  "CODEC_GUID_NSCODEC = [0xB9, 0x1B, 0x8D, 0xCA, 0x0F, 0x00, 0x4F, 0x15, 0x58, 0x9F, 0xAE, 0x2D, 0x1A, 0x87, 0xE2, 0xD6]"

definition CODEC_GUID_JPEG :: "u8 list" where
  "CODEC_GUID_JPEG = [0xE6, 0x4C, 0xAF, 0x1B, 0xED, 0x9E, 0x0C, 0x43, 0x86, 0x9A, 0xCB, 0x8B, 0x37, 0xB6, 0x62, 0x37]"

lemmas cap_bytes = SOURCE_DESCRIPTOR_def CODEC_GUID_REMOTEFX_def CODEC_GUID_NSCODEC_def CODEC_GUID_JPEG_def

lemmas cap_consts =
  CAPSET_TYPE_GENERAL_def CAPSET_TYPE_BITMAP_def CAPSET_TYPE_ORDER_def CAPSET_TYPE_BITMAP_CACHE_def
  CAPSET_TYPE_CONTROL_def CAPSET_TYPE_ACTIVATION_def CAPSET_TYPE_POINTER_def CAPSET_TYPE_SHARE_def
  CAPSET_TYPE_COLOR_CACHE_def CAPSET_TYPE_SOUND_def CAPSET_TYPE_INPUT_def CAPSET_TYPE_FONT_def
  CAPSET_TYPE_BRUSH_def CAPSET_TYPE_GLYPH_CACHE_def CAPSET_TYPE_OFFSCREEN_CACHE_def CAPSET_TYPE_BITMAP_CACHE_HOST_SUPPORT_def
  CAPSET_TYPE_BITMAP_CACHE_V2_def CAPSET_TYPE_VIRTUAL_CHANNEL_def CAPSET_TYPE_DRAW_NINE_GRID_CACHE_def CAPSET_TYPE_DRAW_GDI_PLUS_def
  CAPSET_TYPE_RAIL_def CAPSET_TYPE_WINDOW_def CAPSET_TYPE_COMP_DESK_def CAPSET_TYPE_MULTI_FRAGMENT_UPDATE_def
  CAPSET_TYPE_LARGE_POINTER_def CAPSET_TYPE_SURFACE_COMMANDS_def CAPSET_TYPE_BITMAP_CODECS_def CAPSET_TYPE_FRAME_ACKNOWLEDGE_def
  CAPSET_HEADER_LENGTH_def CAPS_PROTOCOL_VERSION_def FASTPATH_OUTPUT_SUPPORTED_def NO_BITMAP_COMPRESSION_HDR_def
  LONG_CREDENTIALS_SUPPORTED_def AUTORECONNECT_SUPPORTED_def NEGOTIATE_ORDER_SUPPORT_def ZERO_BOUNDS_DELTA_SUPPORT_def
  COLOR_INDEX_SUPPORT_def ORDER_FLAGS_EXTRA_SUPPORT_def CACHE_BITMAP_V3_SUPPORT_def ALTSEC_FRAME_MARKER_SUPPORT_def
  SOUND_BEEPS_FLAG_def INPUT_FLAG_SCANCODES_def INPUT_FLAG_MOUSEX_def INPUT_FLAG_FASTPATH_INPUT_def
  INPUT_FLAG_UNICODE_def INPUT_FLAG_FASTPATH_INPUT2_def FONTSUPPORT_FONTLIST_def BRUSH_COLOR_FULL_def
  BITMAP_CACHE_V2_def PERSISTENT_KEYS_EXPECTED_FLAG_def ALLOW_CACHE_WAITING_LIST_FLAG_def VCCAPS_NO_COMPR_def
  VCCAPS_COMPR_CS_8K_def DRAW_NINEGRID_NO_SUPPORT_def DRAW_NINEGRID_SUPPORTED_def DRAW_NINEGRID_SUPPORTED_V2_def
  DRAW_GDIPLUS_DEFAULT_def DRAW_GDIPLUS_SUPPORTED_def DRAW_GDIPLUS_CACHE_LEVEL_DEFAULT_def DRAW_GDIPLUS_CACHE_LEVEL_ONE_def
  RAIL_LEVEL_SUPPORTED_def RAIL_LEVEL_DOCKED_LANGBAR_SUPPORTED_def WINDOW_LEVEL_SUPPORTED_EX_def COMPDESK_NOT_SUPPORTED_def
  COMPDESK_SUPPORTED_def LARGE_POINTER_FLAG_96x96_def SURFCMDS_SET_SURFACE_BITS_def SURFCMDS_FRAME_MARKER_def
  SURFCMDS_STREAM_SURFACE_BITS_def CARDP_CAPS_CAPTURE_NON_CAC_def CBY_CAPS_def CBY_CAPSET_def
  CLY_CAPSET_def CLW_VERSION_1_0_def CT_TILE_64x64_def CLW_COL_CONV_ICT_def
  CLW_XFORM_DWT_53_A_def CLW_ENTROPY_RLGR1_def CLW_ENTROPY_RLGR3_def
  CODEC_ID_NSCODEC_def CODEC_ID_JPEG_def CODEC_ID_REMOTEFX_def

section \<open>Settings\<close>

record GLYPH_CACHE_DEFINITION =
  cacheEntries :: u16
  cacheMaximumCellSize :: u16

record BITMAP_CACHE_V2_CELL_INFO =
  numEntries :: u32
  persistent :: tbool

record capSettings =
  cs_server_mode :: tbool
  cs_share_id :: u32
  cs_os_major_type :: u32
  cs_os_minor_type :: u32
  cs_rdp_version :: u32
  cs_width :: u32
  cs_height :: u32
  cs_color_depth :: u32
  cs_auto_reconnection :: tbool
  cs_fastpath_output :: tbool
  cs_fastpath_input :: tbool
  cs_refresh_rect :: tbool
  cs_suppress_output :: tbool
  cs_desktop_resize :: tbool
  cs_received_caps :: "tbool list"
  cs_order_support :: "u8 list"
  cs_bitmap_cache_v3 :: tbool
  cs_frame_marker :: tbool
  cs_color_pointer :: tbool
  cs_large_pointer :: tbool
  cs_pointer_cache_size :: u32
  cs_sound_beeps :: tbool
  cs_kbd_layout :: u32
  cs_kbd_type :: u32
  cs_kbd_subtype :: u32
  cs_kbd_fn_keys :: u32
  cs_glyphCache :: "GLYPH_CACHE_DEFINITION list"
  cs_fragCache :: GLYPH_CACHE_DEFINITION
  cs_glyphSupportLevel :: u32
  cs_offscreen_bitmap_cache :: tbool
  cs_offscreen_bitmap_cache_size :: u32
  cs_offscreen_bitmap_cache_entries :: u32
  cs_persistent_bitmap_cache :: tbool
  cs_bitmapCacheV2NumCells :: u32
  cs_bitmapCacheV2CellInfo :: "BITMAP_CACHE_V2_CELL_INFO list"
  cs_vc_chunk_size :: u32
  cs_draw_nine_grid :: tbool
  cs_draw_nine_grid_cache_size :: u32
  cs_draw_nine_grid_cache_entries :: u32
  cs_draw_gdi_plus :: tbool
  cs_draw_gdi_plus_cache :: tbool
  cs_remote_app :: tbool
  cs_rail_langbar_supported :: tbool
  cs_num_icon_caches :: u32
  cs_num_icon_cache_entries :: u32
  cs_desktop_composition :: tbool
  cs_multifrag_max_request_size :: u32
  cs_surface_commands :: tbool
  cs_rfx_codec :: tbool
  cs_rfx_codec_id :: u32
  cs_rfx_codec_mode :: u32
  cs_ns_codec :: tbool
  cs_ns_codec_id :: u32
  cs_jpeg_codec :: tbool
  cs_jpeg_quality :: u32
  cs_dump_rfx :: tbool
  cs_v3_codec_id :: u32
  cs_frame_acknowledge :: tbool

text \<open>Access to an element of an array.\<close>

definition elem_at :: "'a list \<Rightarrow> nat \<Rightarrow> 'a option" where
  "elem_at xs i = (if i < length xs then Some (xs ! i) else None)"

lemma elem_at_simps [simp]:
  "elem_at (x # xs) 0 = Some x" "elem_at (x # xs) (Suc i) = elem_at xs i"
  "elem_at (x # xs) (numeral n) = elem_at xs (pred_numeral n)"
  by (simp_all add: elem_at_def)

section \<open>The initial settings\<close>

text \<open>
  The settings a new client starts with: what \<open>settings_new\<close> stores in the fields above, everything else
  being zero after \<open>xzalloc\<close>.
\<close>

definition NEG_DSTBLT_INDEX :: nat where "NEG_DSTBLT_INDEX = 0"
definition NEG_PATBLT_INDEX :: nat where "NEG_PATBLT_INDEX = 1"
definition NEG_SCRBLT_INDEX :: nat where "NEG_SCRBLT_INDEX = 2"
definition NEG_MEMBLT_INDEX :: nat where "NEG_MEMBLT_INDEX = 3"
definition NEG_MEM3BLT_INDEX :: nat where "NEG_MEM3BLT_INDEX = 4"
definition NEG_DRAWNINEGRID_INDEX :: nat where "NEG_DRAWNINEGRID_INDEX = 7"
definition NEG_LINETO_INDEX :: nat where "NEG_LINETO_INDEX = 8"
definition NEG_MULTI_DRAWNINEGRID_INDEX :: nat where "NEG_MULTI_DRAWNINEGRID_INDEX = 9"
definition NEG_OPAQUE_RECT_INDEX :: nat where "NEG_OPAQUE_RECT_INDEX = 10"
definition NEG_SAVEBITMAP_INDEX :: nat where "NEG_SAVEBITMAP_INDEX = 11"
definition NEG_MULTIDSTBLT_INDEX :: nat where "NEG_MULTIDSTBLT_INDEX = 15"
definition NEG_MULTIPATBLT_INDEX :: nat where "NEG_MULTIPATBLT_INDEX = 16"
definition NEG_MULTISCRBLT_INDEX :: nat where "NEG_MULTISCRBLT_INDEX = 17"
definition NEG_MULTIOPAQUERECT_INDEX :: nat where "NEG_MULTIOPAQUERECT_INDEX = 18"
definition NEG_FAST_INDEX_INDEX :: nat where "NEG_FAST_INDEX_INDEX = 19"
definition NEG_POLYGON_SC_INDEX :: nat where "NEG_POLYGON_SC_INDEX = 20"
definition NEG_POLYGON_CB_INDEX :: nat where "NEG_POLYGON_CB_INDEX = 21"
definition NEG_POLYLINE_INDEX :: nat where "NEG_POLYLINE_INDEX = 22"
definition NEG_FAST_GLYPH_INDEX :: nat where "NEG_FAST_GLYPH_INDEX = 24"
definition NEG_ELLIPSE_SC_INDEX :: nat where "NEG_ELLIPSE_SC_INDEX = 25"
definition NEG_ELLIPSE_CB_INDEX :: nat where "NEG_ELLIPSE_CB_INDEX = 26"
definition NEG_GLYPH_INDEX_INDEX :: nat where "NEG_GLYPH_INDEX_INDEX = 27"
definition CHANNEL_CHUNK_LENGTH :: u32 where "CHANNEL_CHUNK_LENGTH = 1600"
definition GLYPH_SUPPORT_NONE :: u32 where "GLYPH_SUPPORT_NONE = 0"

definition settings_new :: capSettings where
  "settings_new = \<lparr>
     cs_server_mode = False, cs_share_id = 0, cs_os_major_type = 0, cs_os_minor_type = 0, cs_rdp_version = 7,
     cs_width = 1024, cs_height = 768, cs_color_depth = 16, cs_auto_reconnection = True, cs_fastpath_output = True,
     cs_fastpath_input = True, cs_refresh_rect = True, cs_suppress_output = True, cs_desktop_resize = True,
     cs_received_caps = replicate 32 False,
     cs_order_support = (replicate 32 0)[NEG_DSTBLT_INDEX := 1, NEG_PATBLT_INDEX := 1, NEG_SCRBLT_INDEX := 1, NEG_OPAQUE_RECT_INDEX := 1,
       NEG_DRAWNINEGRID_INDEX := 1, NEG_MULTIDSTBLT_INDEX := 1, NEG_MULTIPATBLT_INDEX := 1, NEG_MULTISCRBLT_INDEX := 1,
       NEG_MULTIOPAQUERECT_INDEX := 1, NEG_MULTI_DRAWNINEGRID_INDEX := 1, NEG_LINETO_INDEX := 1, NEG_POLYLINE_INDEX := 1,
       NEG_MEMBLT_INDEX := 1, NEG_MEM3BLT_INDEX := 1, NEG_SAVEBITMAP_INDEX := 1, NEG_GLYPH_INDEX_INDEX := 1,
       NEG_FAST_INDEX_INDEX := 1, NEG_FAST_GLYPH_INDEX := 1, NEG_POLYGON_SC_INDEX := 1, NEG_POLYGON_CB_INDEX := 1,
       NEG_ELLIPSE_SC_INDEX := 1, NEG_ELLIPSE_CB_INDEX := 1],
     cs_bitmap_cache_v3 = False, cs_frame_marker = False, cs_color_pointer = True, cs_large_pointer = True,
     cs_pointer_cache_size = 20, cs_sound_beeps = True, cs_kbd_layout = 0, cs_kbd_type = 0, cs_kbd_subtype = 0,
     cs_kbd_fn_keys = 0,
     cs_glyphCache = map (\<lambda>(n, sz). \<lparr>cacheEntries = n, cacheMaximumCellSize = sz\<rparr>)
       [(254, 4), (254, 4), (254, 8), (254, 8), (254, 16), (254, 32), (254, 64), (254, 128), (254, 256), (64, 256)],
     cs_fragCache = \<lparr>cacheEntries = 256, cacheMaximumCellSize = 256\<rparr>,
     cs_glyphSupportLevel = GLYPH_SUPPORT_NONE, cs_offscreen_bitmap_cache = True,
     cs_offscreen_bitmap_cache_size = 7680, cs_offscreen_bitmap_cache_entries = 2000,
     cs_persistent_bitmap_cache = False, cs_bitmapCacheV2NumCells = 0,
     cs_bitmapCacheV2CellInfo = replicate 6 \<lparr>numEntries = 0, persistent = False\<rparr>,
     cs_vc_chunk_size = CHANNEL_CHUNK_LENGTH, cs_draw_nine_grid = False, cs_draw_nine_grid_cache_size = 2560,
     cs_draw_nine_grid_cache_entries = 256, cs_draw_gdi_plus = False, cs_draw_gdi_plus_cache = False,
     cs_remote_app = False, cs_rail_langbar_supported = False, cs_num_icon_caches = 3,
     cs_num_icon_cache_entries = 12, cs_desktop_composition = False, cs_multifrag_max_request_size = 0x200000,
     cs_surface_commands = False, cs_rfx_codec = False, cs_rfx_codec_id = 0, cs_rfx_codec_mode = 0,
     cs_ns_codec = False, cs_ns_codec_id = 0, cs_jpeg_codec = False, cs_jpeg_quality = 0, cs_dump_rfx = False,
     cs_v3_codec_id = 0, cs_frame_acknowledge = False\<rparr>"

lemmas neg_index = NEG_DSTBLT_INDEX_def
  NEG_PATBLT_INDEX_def NEG_SCRBLT_INDEX_def NEG_OPAQUE_RECT_INDEX_def NEG_DRAWNINEGRID_INDEX_def
  NEG_MULTIDSTBLT_INDEX_def NEG_MULTIPATBLT_INDEX_def NEG_MULTISCRBLT_INDEX_def NEG_MULTIOPAQUERECT_INDEX_def
  NEG_MULTI_DRAWNINEGRID_INDEX_def NEG_LINETO_INDEX_def NEG_POLYLINE_INDEX_def NEG_MEMBLT_INDEX_def
  NEG_MEM3BLT_INDEX_def NEG_SAVEBITMAP_INDEX_def NEG_GLYPH_INDEX_INDEX_def NEG_FAST_INDEX_INDEX_def
  NEG_FAST_GLYPH_INDEX_def NEG_POLYGON_SC_INDEX_def NEG_POLYGON_CB_INDEX_def NEG_ELLIPSE_SC_INDEX_def
  NEG_ELLIPSE_CB_INDEX_def

end
