(* ===== verification/Capabilities.thy ===== *)
theory Capabilities
  imports Capability_Types
begin

text \<open>
  The capability exchange: \<^verbatim>\<open>libfreerdp-core/capabilities.c\<close>. One definition per function, in the order
  of the source: every capability set has a reader and a writer, \<open>rdp_read_capability_sets\<close> walks over the
  sets of a received unit, \<open>rdp_write_demand_active\<close> and \<open>rdp_write_confirm_active\<close> compose the units
  of the server and of the client. Positions in the stream stand for the marks, which are pointers
  into it. The settings are passed and returned where a function changes them.
\<close>

section \<open>Capability sets\<close>

definition rdp_read_capability_set_header :: "STREAM \<Rightarrow> ((u16 \<times> u16) \<times> STREAM) option" where
  "rdp_read_capability_set_header s = do {
     (type, s) \<leftarrow> stream_read_uint16 s;
     (len, s) \<leftarrow> stream_read_uint16 s;
     Some ((len, type), s) }"

definition rdp_write_capability_set_header :: "STREAM \<Rightarrow> u16 \<Rightarrow> u16 \<Rightarrow> STREAM option" where
  "rdp_write_capability_set_header s len type = do {
     s \<leftarrow> stream_write_uint16 s type;
     stream_write_uint16 s len }"

definition rdp_capability_set_start :: "STREAM \<Rightarrow> (int \<times> STREAM) option" where
  "rdp_capability_set_start s = do {
     let header = stream_get_pos s;
     s \<leftarrow> stream_write_zero s CAPSET_HEADER_LENGTH;
     Some (header, s) }"

definition rdp_capability_set_finish :: "STREAM \<Rightarrow> int \<Rightarrow> u16 \<Rightarrow> STREAM option" where
  "rdp_capability_set_finish s header type = do {
     let footer = stream_get_pos s;
     let len = word_of_int (footer - header);
     let s = stream_set_pos s header;
     s \<leftarrow> rdp_write_capability_set_header s len type;
     Some (stream_set_pos s footer) }"

definition rdp_read_general_capability_set :: "STREAM \<Rightarrow> u16 \<Rightarrow> capSettings \<Rightarrow> (capSettings \<times> STREAM) option" where
  "rdp_read_general_capability_set s len settings = do {
     (settings, s) \<leftarrow>
       (if cs_server_mode settings then do {
          (os_major_type, s) \<leftarrow> stream_read_uint16 s;
          (os_minor_type, s) \<leftarrow> stream_read_uint16 s;
          Some (settings\<lparr>cs_os_major_type := ucast os_major_type, cs_os_minor_type := ucast os_minor_type\<rparr>, s) }
        else Some (settings, stream_seek s (2 + 2)));
     let s = stream_seek s (2 + 2 + 2);
     (extraFlags, s) \<leftarrow> stream_read_uint16 s;
     let s = stream_seek s (2 + 2 + 2);
     (refreshRectSupport, s) \<leftarrow> stream_read_uint8 s;
     (suppressOutputSupport, s) \<leftarrow> stream_read_uint8 s;
     let settings = (if extraFlags AND FASTPATH_OUTPUT_SUPPORTED = 0 then settings\<lparr>cs_fastpath_output := False\<rparr> else settings);
     let settings = (if refreshRectSupport = 0 then settings\<lparr>cs_refresh_rect := False\<rparr> else settings);
     let settings = (if suppressOutputSupport = 0 then settings\<lparr>cs_suppress_output := False\<rparr> else settings);
     Some (settings, s) }"

definition rdp_write_general_capability_set :: "STREAM \<Rightarrow> capSettings \<Rightarrow> (capSettings \<times> STREAM) option" where
  "rdp_write_general_capability_set s settings = do {
     (header, s) \<leftarrow> rdp_capability_set_start s;
     let extraFlags = LONG_CREDENTIALS_SUPPORTED OR NO_BITMAP_COMPRESSION_HDR;
     let extraFlags = (if cs_auto_reconnection settings then extraFlags OR AUTORECONNECT_SUPPORTED else extraFlags);
     let extraFlags = (if cs_fastpath_output settings then extraFlags OR FASTPATH_OUTPUT_SUPPORTED else extraFlags);
     let settings = (if cs_server_mode settings then settings\<lparr>cs_refresh_rect := False, cs_suppress_output := False\<rparr>
                     else settings);
     s \<leftarrow> stream_write_uint16 s (cs_os_major_type settings);
     s \<leftarrow> stream_write_uint16 s (cs_os_minor_type settings);
     s \<leftarrow> stream_write_uint16 s CAPS_PROTOCOL_VERSION;
     s \<leftarrow> stream_write_uint16 s (0 :: u16);
     s \<leftarrow> stream_write_uint16 s (0 :: u16);
     s \<leftarrow> stream_write_uint16 s extraFlags;
     s \<leftarrow> stream_write_uint16 s (0 :: u16);
     s \<leftarrow> stream_write_uint16 s (0 :: u16);
     s \<leftarrow> stream_write_uint16 s (0 :: u16);
     s \<leftarrow> stream_write_uint8 s (of_bool (cs_refresh_rect settings) :: u8);
     s \<leftarrow> stream_write_uint8 s (of_bool (cs_suppress_output settings) :: u8);
     s \<leftarrow> rdp_capability_set_finish s header CAPSET_TYPE_GENERAL;
     Some (settings, s) }"

definition rdp_read_bitmap_capability_set :: "STREAM \<Rightarrow> u16 \<Rightarrow> capSettings \<Rightarrow> (capSettings \<times> STREAM) option" where
  "rdp_read_bitmap_capability_set s len settings = do {
     (preferredBitsPerPixel, s) \<leftarrow> stream_read_uint16 s;
     let s = stream_seek s (2 + 2 + 2);
     (desktopWidth, s) \<leftarrow> stream_read_uint16 s;
     (desktopHeight, s) \<leftarrow> stream_read_uint16 s;
     let s = stream_seek s 2;
     (desktopResizeFlag, s) \<leftarrow> stream_read_uint16 s;
     let s = stream_seek s (2 + 1);
     (drawingFlags, s) \<leftarrow> stream_read_uint8 s;
     let s = stream_seek s (2 + 2);
     let settings = (if \<not> cs_server_mode settings \<and> ucast preferredBitsPerPixel \<noteq> cs_color_depth settings
                     then settings\<lparr>cs_color_depth := ucast preferredBitsPerPixel\<rparr> else settings);
     let settings = (if desktopResizeFlag = 0 then settings\<lparr>cs_desktop_resize := False\<rparr> else settings);
     let settings = (if \<not> cs_server_mode settings \<and> cs_desktop_resize settings
                     then settings\<lparr>cs_width := ucast desktopWidth, cs_height := ucast desktopHeight\<rparr> else settings);
     Some (settings, s) }"

definition rdp_write_bitmap_capability_set :: "STREAM \<Rightarrow> capSettings \<Rightarrow> STREAM option" where
  "rdp_write_bitmap_capability_set s settings = do {
     (header, s) \<leftarrow> rdp_capability_set_start s;
     let drawingFlags = (0 :: u8);
     let preferredBitsPerPixel = (if cs_rdp_version settings > 5 then ucast (cs_color_depth settings) else 8 :: u16);
     let desktopResizeFlag = (of_bool (cs_desktop_resize settings) :: u16);
     s \<leftarrow> stream_write_uint16 s preferredBitsPerPixel;
     s \<leftarrow> stream_write_uint16 s (1 :: u16);
     s \<leftarrow> stream_write_uint16 s (1 :: u16);
     s \<leftarrow> stream_write_uint16 s (1 :: u16);
     s \<leftarrow> stream_write_uint16 s (cs_width settings);
     s \<leftarrow> stream_write_uint16 s (cs_height settings);
     s \<leftarrow> stream_write_uint16 s (0 :: u16);
     s \<leftarrow> stream_write_uint16 s desktopResizeFlag;
     s \<leftarrow> stream_write_uint16 s (1 :: u16);
     s \<leftarrow> stream_write_uint8 s (0 :: u8);
     s \<leftarrow> stream_write_uint8 s drawingFlags;
     s \<leftarrow> stream_write_uint16 s (1 :: u16);
     s \<leftarrow> stream_write_uint16 s (0 :: u16);
     rdp_capability_set_finish s header CAPSET_TYPE_BITMAP }"

definition rdp_read_order_capability_set :: "STREAM \<Rightarrow> u16 \<Rightarrow> capSettings \<Rightarrow> (capSettings \<times> STREAM) option" where
  "rdp_read_order_capability_set s len settings = do {
     let s = stream_seek s (16 + 4 + 2 + 2 + 2 + 2 + 2);
     (orderFlags, s) \<leftarrow> stream_read_uint16 s;
     (orderSupport, s) \<leftarrow> stream_read s 32;
     let s = stream_seek s 2;
     (orderSupportExFlags, s) \<leftarrow> stream_read_uint16 s;
     let s = stream_seek s (4 + 4 + 2 + 2 + 2 + 2);
     let settings = settings\<lparr>cs_order_support :=
       map2 (\<lambda>b v. if b = 0 then 0 else v) orderSupport (cs_order_support settings)\<rparr>;
     Some (settings, s) }"

definition rdp_write_order_capability_set :: "STREAM \<Rightarrow> capSettings \<Rightarrow> STREAM option" where
  "rdp_write_order_capability_set s settings = do {
     (header, s) \<leftarrow> rdp_capability_set_start s;
     let orderSupportExFlags = 0;
     let orderFlags = NEGOTIATE_ORDER_SUPPORT OR ZERO_BOUNDS_DELTA_SUPPORT OR COLOR_INDEX_SUPPORT;
     let (orderSupportExFlags, orderFlags) =
       (if cs_bitmap_cache_v3 settings
        then (orderSupportExFlags OR CACHE_BITMAP_V3_SUPPORT, orderFlags OR ORDER_FLAGS_EXTRA_SUPPORT)
        else (orderSupportExFlags, orderFlags));
     let (orderSupportExFlags, orderFlags) =
       (if cs_frame_marker settings
        then (orderSupportExFlags OR ALTSEC_FRAME_MARKER_SUPPORT, orderFlags OR ORDER_FLAGS_EXTRA_SUPPORT)
        else (orderSupportExFlags, orderFlags));
     s \<leftarrow> stream_write_zero s 16;
     s \<leftarrow> stream_write_uint32 s (0 :: u32);
     s \<leftarrow> stream_write_uint16 s (1 :: u16);
     s \<leftarrow> stream_write_uint16 s (20 :: u16);
     s \<leftarrow> stream_write_uint16 s (0 :: u16);
     s \<leftarrow> stream_write_uint16 s (1 :: u16);
     s \<leftarrow> stream_write_uint16 s (0 :: u16);
     s \<leftarrow> stream_write_uint16 s orderFlags;
     s \<leftarrow> stream_write s (cs_order_support settings) 32;
     s \<leftarrow> stream_write_uint16 s (0 :: u16);
     s \<leftarrow> stream_write_uint16 s orderSupportExFlags;
     s \<leftarrow> stream_write_uint32 s (0 :: u32);
     s \<leftarrow> stream_write_uint32 s (230400 :: u32);
     s \<leftarrow> stream_write_uint16 s (0 :: u16);
     s \<leftarrow> stream_write_uint16 s (0 :: u16);
     s \<leftarrow> stream_write_uint16 s (0 :: u16);
     s \<leftarrow> stream_write_uint16 s (0 :: u16);
     rdp_capability_set_finish s header CAPSET_TYPE_ORDER }"

definition rdp_read_bitmap_cache_capability_set :: "STREAM \<Rightarrow> u16 \<Rightarrow> capSettings \<Rightarrow> (capSettings \<times> STREAM) option" where
  "rdp_read_bitmap_cache_capability_set s len settings = do {
     let s = stream_seek s (4 + 4 + 4 + 4 + 4 + 4 + 2 + 2 + 2 + 2 + 2 + 2);
     Some (settings, s) }"

definition rdp_write_bitmap_cache_capability_set :: "STREAM \<Rightarrow> capSettings \<Rightarrow> STREAM option" where
  "rdp_write_bitmap_cache_capability_set s settings = do {
     (header, s) \<leftarrow> rdp_capability_set_start s;
     let bpp = (cs_color_depth settings + 7) div 8;
     s \<leftarrow> stream_write_uint32 s (0 :: u32);
     s \<leftarrow> stream_write_uint32 s (0 :: u32);
     s \<leftarrow> stream_write_uint32 s (0 :: u32);
     s \<leftarrow> stream_write_uint32 s (0 :: u32);
     s \<leftarrow> stream_write_uint32 s (0 :: u32);
     s \<leftarrow> stream_write_uint32 s (0 :: u32);
     let sz = (ucast (bpp * 256) :: u16);
     s \<leftarrow> stream_write_uint16 s (200 :: u16);
     s \<leftarrow> stream_write_uint16 s sz;
     let sz = (ucast (bpp * 1024) :: u16);
     s \<leftarrow> stream_write_uint16 s (600 :: u16);
     s \<leftarrow> stream_write_uint16 s sz;
     let sz = (ucast (bpp * 4096) :: u16);
     s \<leftarrow> stream_write_uint16 s (1000 :: u16);
     s \<leftarrow> stream_write_uint16 s sz;
     rdp_capability_set_finish s header CAPSET_TYPE_BITMAP_CACHE }"

definition rdp_read_control_capability_set :: "STREAM \<Rightarrow> u16 \<Rightarrow> capSettings \<Rightarrow> (capSettings \<times> STREAM) option" where
  "rdp_read_control_capability_set s len settings = do {
     let s = stream_seek s (2 + 2 + 2 + 2);
     Some (settings, s) }"

definition rdp_write_control_capability_set :: "STREAM \<Rightarrow> capSettings \<Rightarrow> STREAM option" where
  "rdp_write_control_capability_set s settings = do {
     (header, s) \<leftarrow> rdp_capability_set_start s;
     s \<leftarrow> stream_write_uint16 s (0 :: u16);
     s \<leftarrow> stream_write_uint16 s (0 :: u16);
     s \<leftarrow> stream_write_uint16 s (2 :: u16);
     s \<leftarrow> stream_write_uint16 s (2 :: u16);
     rdp_capability_set_finish s header CAPSET_TYPE_CONTROL }"

definition rdp_read_window_activation_capability_set :: "STREAM \<Rightarrow> u16 \<Rightarrow> capSettings \<Rightarrow> (capSettings \<times> STREAM) option" where
  "rdp_read_window_activation_capability_set s len settings = do {
     let s = stream_seek s (2 + 2 + 2 + 2);
     Some (settings, s) }"

definition rdp_write_window_activation_capability_set :: "STREAM \<Rightarrow> capSettings \<Rightarrow> STREAM option" where
  "rdp_write_window_activation_capability_set s settings = do {
     (header, s) \<leftarrow> rdp_capability_set_start s;
     s \<leftarrow> stream_write_uint16 s (0 :: u16);
     s \<leftarrow> stream_write_uint16 s (0 :: u16);
     s \<leftarrow> stream_write_uint16 s (0 :: u16);
     s \<leftarrow> stream_write_uint16 s (0 :: u16);
     rdp_capability_set_finish s header CAPSET_TYPE_ACTIVATION }"

definition rdp_read_pointer_capability_set :: "STREAM \<Rightarrow> u16 \<Rightarrow> capSettings \<Rightarrow> (capSettings \<times> STREAM) option" where
  "rdp_read_pointer_capability_set s len settings = do {
     (colorPointerFlag, s) \<leftarrow> stream_read_uint16 s;
     (colorPointerCacheSize, s) \<leftarrow> stream_read_uint16 s;
     (pointerCacheSize, s) \<leftarrow> stream_read_uint16 s;
     let settings = (if colorPointerFlag = 0 then settings\<lparr>cs_color_pointer := False\<rparr> else settings);
     let settings = (if cs_server_mode settings then settings\<lparr>cs_pointer_cache_size := ucast pointerCacheSize\<rparr> else settings);
     Some (settings, s) }"

definition rdp_write_pointer_capability_set :: "STREAM \<Rightarrow> capSettings \<Rightarrow> STREAM option" where
  "rdp_write_pointer_capability_set s settings = do {
     (header, s) \<leftarrow> rdp_capability_set_start s;
     let colorPointerFlag = (if cs_color_pointer settings then 1 else 0 :: u16);
     s \<leftarrow> stream_write_uint16 s colorPointerFlag;
     s \<leftarrow> stream_write_uint16 s (cs_pointer_cache_size settings);
     s \<leftarrow> (if cs_large_pointer settings then stream_write_uint16 s (cs_pointer_cache_size settings) else Some s);
     rdp_capability_set_finish s header CAPSET_TYPE_POINTER }"

definition rdp_read_share_capability_set :: "STREAM \<Rightarrow> u16 \<Rightarrow> capSettings \<Rightarrow> (capSettings \<times> STREAM) option" where
  "rdp_read_share_capability_set s len settings = do {
     let s = stream_seek s (2 + 2);
     Some (settings, s) }"

definition rdp_write_share_capability_set :: "STREAM \<Rightarrow> capSettings \<Rightarrow> STREAM option" where
  "rdp_write_share_capability_set s settings = do {
     (header, s) \<leftarrow> rdp_capability_set_start s;
     let nodeId = (if cs_server_mode settings then 0x03EA else 0 :: u16);
     s \<leftarrow> stream_write_uint16 s nodeId;
     s \<leftarrow> stream_write_uint16 s (0 :: u16);
     rdp_capability_set_finish s header CAPSET_TYPE_SHARE }"

definition rdp_read_color_cache_capability_set :: "STREAM \<Rightarrow> u16 \<Rightarrow> capSettings \<Rightarrow> (capSettings \<times> STREAM) option" where
  "rdp_read_color_cache_capability_set s len settings = do {
     let s = stream_seek s (2 + 2);
     Some (settings, s) }"

definition rdp_write_color_cache_capability_set :: "STREAM \<Rightarrow> capSettings \<Rightarrow> STREAM option" where
  "rdp_write_color_cache_capability_set s settings = do {
     (header, s) \<leftarrow> rdp_capability_set_start s;
     s \<leftarrow> stream_write_uint16 s (6 :: u16);
     s \<leftarrow> stream_write_uint16 s (0 :: u16);
     rdp_capability_set_finish s header CAPSET_TYPE_COLOR_CACHE }"

definition rdp_read_sound_capability_set :: "STREAM \<Rightarrow> u16 \<Rightarrow> capSettings \<Rightarrow> (capSettings \<times> STREAM) option" where
  "rdp_read_sound_capability_set s len settings = do {
     (soundFlags, s) \<leftarrow> stream_read_uint16 s;
     let s = stream_seek s 2;
     let settings = settings\<lparr>cs_sound_beeps := soundFlags AND SOUND_BEEPS_FLAG \<noteq> 0\<rparr>;
     Some (settings, s) }"

definition rdp_write_sound_capability_set :: "STREAM \<Rightarrow> capSettings \<Rightarrow> STREAM option" where
  "rdp_write_sound_capability_set s settings = do {
     (header, s) \<leftarrow> rdp_capability_set_start s;
     let soundFlags = (if cs_sound_beeps settings then SOUND_BEEPS_FLAG else 0);
     s \<leftarrow> stream_write_uint16 s soundFlags;
     s \<leftarrow> stream_write_uint16 s (0 :: u16);
     rdp_capability_set_finish s header CAPSET_TYPE_SOUND }"

definition rdp_read_input_capability_set :: "STREAM \<Rightarrow> u16 \<Rightarrow> capSettings \<Rightarrow> (capSettings \<times> STREAM) option" where
  "rdp_read_input_capability_set s len settings = do {
     (inputFlags, s) \<leftarrow> stream_read_uint16 s;
     let s = stream_seek s 2;
     (settings, s) \<leftarrow>
       (if cs_server_mode settings then do {
          (kbd_layout, s) \<leftarrow> stream_read_uint32 s;
          (kbd_type, s) \<leftarrow> stream_read_uint32 s;
          (kbd_subtype, s) \<leftarrow> stream_read_uint32 s;
          (kbd_fn_keys, s) \<leftarrow> stream_read_uint32 s;
          Some (settings\<lparr>cs_kbd_layout := kbd_layout, cs_kbd_type := kbd_type, cs_kbd_subtype := kbd_subtype,
                  cs_kbd_fn_keys := kbd_fn_keys\<rparr>, s) }
        else Some (settings, stream_seek s (4 + 4 + 4 + 4)));
     let s = stream_seek s 64;
     let settings = (if cs_server_mode settings then settings
                     else if inputFlags AND INPUT_FLAG_FASTPATH_INPUT \<noteq> 0 then settings
                     else if inputFlags AND INPUT_FLAG_FASTPATH_INPUT2 \<noteq> 0 then settings
                     else settings\<lparr>cs_fastpath_input := False\<rparr>);
     Some (settings, s) }"

definition rdp_write_input_capability_set :: "STREAM \<Rightarrow> capSettings \<Rightarrow> STREAM option" where
  "rdp_write_input_capability_set s settings = do {
     (header, s) \<leftarrow> rdp_capability_set_start s;
     let inputFlags = INPUT_FLAG_SCANCODES OR INPUT_FLAG_MOUSEX OR INPUT_FLAG_UNICODE;
     let inputFlags = (if cs_fastpath_input settings
                       then inputFlags OR INPUT_FLAG_FASTPATH_INPUT OR INPUT_FLAG_FASTPATH_INPUT2 else inputFlags);
     s \<leftarrow> stream_write_uint16 s inputFlags;
     s \<leftarrow> stream_write_uint16 s (0 :: u16);
     s \<leftarrow> stream_write_uint32 s (cs_kbd_layout settings);
     s \<leftarrow> stream_write_uint32 s (cs_kbd_type settings);
     s \<leftarrow> stream_write_uint32 s (cs_kbd_subtype settings);
     s \<leftarrow> stream_write_uint32 s (cs_kbd_fn_keys settings);
     s \<leftarrow> stream_write_zero s 64;
     rdp_capability_set_finish s header CAPSET_TYPE_INPUT }"

definition rdp_read_font_capability_set :: "STREAM \<Rightarrow> u16 \<Rightarrow> capSettings \<Rightarrow> (capSettings \<times> STREAM) option" where
  "rdp_read_font_capability_set s len settings = do {
     let s = (if len > 4 then stream_seek s 2 else s);
     let s = (if len > 6 then stream_seek s 2 else s);
     Some (settings, s) }"

definition rdp_write_font_capability_set :: "STREAM \<Rightarrow> capSettings \<Rightarrow> STREAM option" where
  "rdp_write_font_capability_set s settings = do {
     (header, s) \<leftarrow> rdp_capability_set_start s;
     s \<leftarrow> stream_write_uint16 s FONTSUPPORT_FONTLIST;
     s \<leftarrow> stream_write_uint16 s (0 :: u16);
     rdp_capability_set_finish s header CAPSET_TYPE_FONT }"

definition rdp_read_brush_capability_set :: "STREAM \<Rightarrow> u16 \<Rightarrow> capSettings \<Rightarrow> (capSettings \<times> STREAM) option" where
  "rdp_read_brush_capability_set s len settings = do {
     let s = stream_seek s 4;
     Some (settings, s) }"

definition rdp_write_brush_capability_set :: "STREAM \<Rightarrow> capSettings \<Rightarrow> STREAM option" where
  "rdp_write_brush_capability_set s settings = do {
     (header, s) \<leftarrow> rdp_capability_set_start s;
     s \<leftarrow> stream_write_uint32 s BRUSH_COLOR_FULL;
     rdp_capability_set_finish s header CAPSET_TYPE_BRUSH }"

definition rdp_read_cache_definition :: "STREAM \<Rightarrow> (GLYPH_CACHE_DEFINITION \<times> STREAM) option" where
  "rdp_read_cache_definition s = do {
     (entries, s) \<leftarrow> stream_read_uint16 s;
     (sz, s) \<leftarrow> stream_read_uint16 s;
     Some (\<lparr>cacheEntries = entries, cacheMaximumCellSize = sz\<rparr>, s) }"

definition rdp_write_cache_definition :: "STREAM \<Rightarrow> GLYPH_CACHE_DEFINITION \<Rightarrow> STREAM option" where
  "rdp_write_cache_definition s cache_definition = do {
     s \<leftarrow> stream_write_uint16 s (cacheEntries cache_definition);
     stream_write_uint16 s (cacheMaximumCellSize cache_definition) }"

definition rdp_read_glyph_cache_capability_set :: "STREAM \<Rightarrow> u16 \<Rightarrow> capSettings \<Rightarrow> (capSettings \<times> STREAM) option" where
  "rdp_read_glyph_cache_capability_set s len settings = do {
     let s = stream_seek s (40 + 4);
     (glyphSupportLevel, s) \<leftarrow> stream_read_uint16 s;
     let s = stream_seek s 2;
     let settings = settings\<lparr>cs_glyphSupportLevel := ucast glyphSupportLevel\<rparr>;
     Some (settings, s) }"

text \<open>Writing the entry of a pointed-to array, as in \<open>rdp_write_cache_definition(s, &(settings->glyphCache[i]))\<close>.\<close>

definition write_glyph_cache :: "STREAM \<Rightarrow> capSettings \<Rightarrow> nat \<Rightarrow> STREAM option" where
  "write_glyph_cache s settings i = do {
     d \<leftarrow> elem_at (cs_glyphCache settings) i;
     rdp_write_cache_definition s d }"

definition rdp_write_glyph_cache_capability_set :: "STREAM \<Rightarrow> capSettings \<Rightarrow> STREAM option" where
  "rdp_write_glyph_cache_capability_set s settings = do {
     (header, s) \<leftarrow> rdp_capability_set_start s;
     s \<leftarrow> write_glyph_cache s settings 0;
     s \<leftarrow> write_glyph_cache s settings 1;
     s \<leftarrow> write_glyph_cache s settings 2;
     s \<leftarrow> write_glyph_cache s settings 3;
     s \<leftarrow> write_glyph_cache s settings 4;
     s \<leftarrow> write_glyph_cache s settings 5;
     s \<leftarrow> write_glyph_cache s settings 6;
     s \<leftarrow> write_glyph_cache s settings 7;
     s \<leftarrow> write_glyph_cache s settings 8;
     s \<leftarrow> write_glyph_cache s settings 9;
     s \<leftarrow> rdp_write_cache_definition s (cs_fragCache settings);
     s \<leftarrow> stream_write_uint16 s (cs_glyphSupportLevel settings);
     s \<leftarrow> stream_write_uint16 s (0 :: u16);
     rdp_capability_set_finish s header CAPSET_TYPE_GLYPH_CACHE }"

definition rdp_read_offscreen_bitmap_cache_capability_set :: "STREAM \<Rightarrow> u16 \<Rightarrow> capSettings \<Rightarrow> (capSettings \<times> STREAM) option" where
  "rdp_read_offscreen_bitmap_cache_capability_set s len settings = do {
     (offscreenSupportLevel, s) \<leftarrow> stream_read_uint32 s;
     (cache_size, s) \<leftarrow> stream_read_uint16 s;
     let settings = settings\<lparr>cs_offscreen_bitmap_cache_size := ucast cache_size\<rparr>;
     (cache_entries, s) \<leftarrow> stream_read_uint16 s;
     let settings = settings\<lparr>cs_offscreen_bitmap_cache_entries := ucast cache_entries\<rparr>;
     let settings = (if offscreenSupportLevel AND 1 \<noteq> 0 then settings\<lparr>cs_offscreen_bitmap_cache := True\<rparr> else settings);
     Some (settings, s) }"

definition rdp_write_offscreen_bitmap_cache_capability_set :: "STREAM \<Rightarrow> capSettings \<Rightarrow> STREAM option" where
  "rdp_write_offscreen_bitmap_cache_capability_set s settings = do {
     (header, s) \<leftarrow> rdp_capability_set_start s;
     let offscreenSupportLevel = (if cs_offscreen_bitmap_cache settings then 1 else 0 :: u32);
     s \<leftarrow> stream_write_uint32 s offscreenSupportLevel;
     s \<leftarrow> stream_write_uint16 s (cs_offscreen_bitmap_cache_size settings);
     s \<leftarrow> stream_write_uint16 s (cs_offscreen_bitmap_cache_entries settings);
     rdp_capability_set_finish s header CAPSET_TYPE_OFFSCREEN_CACHE }"

definition rdp_read_bitmap_cache_host_support_capability_set :: "STREAM \<Rightarrow> u16 \<Rightarrow> capSettings \<Rightarrow> (capSettings \<times> STREAM) option" where
  "rdp_read_bitmap_cache_host_support_capability_set s len settings = do {
     (cacheVersion, s) \<leftarrow> stream_read_uint8 s;
     let s = stream_seek s (1 + 2);
     let settings = (if cacheVersion AND BITMAP_CACHE_V2 \<noteq> 0 then settings\<lparr>cs_persistent_bitmap_cache := True\<rparr> else settings);
     Some (settings, s) }"

definition rdp_write_bitmap_cache_host_support_capability_set :: "STREAM \<Rightarrow> capSettings \<Rightarrow> STREAM option" where
  "rdp_write_bitmap_cache_host_support_capability_set s settings = do {
     (header, s) \<leftarrow> rdp_capability_set_start s;
     s \<leftarrow> stream_write_uint8 s BITMAP_CACHE_V2;
     s \<leftarrow> stream_write_uint8 s (0 :: u8);
     s \<leftarrow> stream_write_uint16 s (0 :: u16);
     rdp_capability_set_finish s header CAPSET_TYPE_BITMAP_CACHE_HOST_SUPPORT }"

definition rdp_write_bitmap_cache_cell_info :: "STREAM \<Rightarrow> BITMAP_CACHE_V2_CELL_INFO \<Rightarrow> STREAM option" where
  "rdp_write_bitmap_cache_cell_info s cellInfo =
     stream_write_uint32 s (numEntries cellInfo OR push_bit 31 (of_bool (persistent cellInfo)))"

definition write_cell_info :: "STREAM \<Rightarrow> capSettings \<Rightarrow> nat \<Rightarrow> STREAM option" where
  "write_cell_info s settings i = do {
     c \<leftarrow> elem_at (cs_bitmapCacheV2CellInfo settings) i;
     rdp_write_bitmap_cache_cell_info s c }"

definition rdp_read_bitmap_cache_v2_capability_set :: "STREAM \<Rightarrow> u16 \<Rightarrow> capSettings \<Rightarrow> (capSettings \<times> STREAM) option" where
  "rdp_read_bitmap_cache_v2_capability_set s len settings = do {
     let s = stream_seek s (2 + 1 + 1 + 4 + 4 + 4 + 4 + 4 + 12);
     Some (settings, s) }"

definition rdp_write_bitmap_cache_v2_capability_set :: "STREAM \<Rightarrow> capSettings \<Rightarrow> STREAM option" where
  "rdp_write_bitmap_cache_v2_capability_set s settings = do {
     (header, s) \<leftarrow> rdp_capability_set_start s;
     let cacheFlags = ALLOW_CACHE_WAITING_LIST_FLAG;
     let cacheFlags = (if cs_persistent_bitmap_cache settings then cacheFlags OR PERSISTENT_KEYS_EXPECTED_FLAG else cacheFlags);
     s \<leftarrow> stream_write_uint16 s cacheFlags;
     s \<leftarrow> stream_write_uint8 s (0 :: u8);
     s \<leftarrow> stream_write_uint8 s (cs_bitmapCacheV2NumCells settings);
     s \<leftarrow> write_cell_info s settings 0;
     s \<leftarrow> write_cell_info s settings 1;
     s \<leftarrow> write_cell_info s settings 2;
     s \<leftarrow> write_cell_info s settings 3;
     s \<leftarrow> write_cell_info s settings 4;
     s \<leftarrow> stream_write_zero s 12;
     rdp_capability_set_finish s header CAPSET_TYPE_BITMAP_CACHE_V2 }"

definition rdp_read_virtual_channel_capability_set :: "STREAM \<Rightarrow> u16 \<Rightarrow> capSettings \<Rightarrow> (capSettings \<times> STREAM) option" where
  "rdp_read_virtual_channel_capability_set s len settings = do {
     (flags, s) \<leftarrow> stream_read_uint32 s;
     (VCChunkSize, s) \<leftarrow> (if len > 8 then stream_read_uint32 s else Some (1600, s));
     let settings = (if cs_server_mode settings then settings else settings\<lparr>cs_vc_chunk_size := VCChunkSize\<rparr>);
     Some (settings, s) }"

definition rdp_write_virtual_channel_capability_set :: "STREAM \<Rightarrow> capSettings \<Rightarrow> STREAM option" where
  "rdp_write_virtual_channel_capability_set s settings = do {
     (header, s) \<leftarrow> rdp_capability_set_start s;
     let flags = (if cs_server_mode settings then VCCAPS_COMPR_CS_8K else VCCAPS_NO_COMPR);
     s \<leftarrow> stream_write_uint32 s flags;
     s \<leftarrow> stream_write_uint32 s (cs_vc_chunk_size settings);
     rdp_capability_set_finish s header CAPSET_TYPE_VIRTUAL_CHANNEL }"

definition rdp_read_draw_nine_grid_cache_capability_set :: "STREAM \<Rightarrow> u16 \<Rightarrow> capSettings \<Rightarrow> (capSettings \<times> STREAM) option" where
  "rdp_read_draw_nine_grid_cache_capability_set s len settings = do {
     (drawNineGridSupportLevel, s) \<leftarrow> stream_read_uint32 s;
     (cache_size, s) \<leftarrow> stream_read_uint16 s;
     let settings = settings\<lparr>cs_draw_nine_grid_cache_size := ucast cache_size\<rparr>;
     (cache_entries, s) \<leftarrow> stream_read_uint16 s;
     let settings = settings\<lparr>cs_draw_nine_grid_cache_entries := ucast cache_entries\<rparr>;
     let settings = (if drawNineGridSupportLevel AND DRAW_NINEGRID_SUPPORTED \<noteq> 0
                       \<or> drawNineGridSupportLevel AND DRAW_NINEGRID_SUPPORTED_V2 \<noteq> 0
                     then settings\<lparr>cs_draw_nine_grid := True\<rparr> else settings);
     Some (settings, s) }"

definition rdp_write_draw_nine_grid_cache_capability_set :: "STREAM \<Rightarrow> capSettings \<Rightarrow> STREAM option" where
  "rdp_write_draw_nine_grid_cache_capability_set s settings = do {
     (header, s) \<leftarrow> rdp_capability_set_start s;
     let drawNineGridSupportLevel = (if cs_draw_nine_grid settings then DRAW_NINEGRID_SUPPORTED else DRAW_NINEGRID_NO_SUPPORT);
     s \<leftarrow> stream_write_uint32 s drawNineGridSupportLevel;
     s \<leftarrow> stream_write_uint16 s (cs_draw_nine_grid_cache_size settings);
     s \<leftarrow> stream_write_uint16 s (cs_draw_nine_grid_cache_entries settings);
     rdp_capability_set_finish s header CAPSET_TYPE_DRAW_NINE_GRID_CACHE }"

definition rdp_write_gdiplus_cache_entries :: "STREAM \<Rightarrow> u16 \<Rightarrow> u16 \<Rightarrow> u16 \<Rightarrow> u16 \<Rightarrow> u16 \<Rightarrow> STREAM option" where
  "rdp_write_gdiplus_cache_entries s gce bce pce ice ace = do {
     s \<leftarrow> stream_write_uint16 s gce;
     s \<leftarrow> stream_write_uint16 s bce;
     s \<leftarrow> stream_write_uint16 s pce;
     s \<leftarrow> stream_write_uint16 s ice;
     stream_write_uint16 s ace }"

definition rdp_write_gdiplus_cache_chunk_size :: "STREAM \<Rightarrow> u16 \<Rightarrow> u16 \<Rightarrow> u16 \<Rightarrow> u16 \<Rightarrow> STREAM option" where
  "rdp_write_gdiplus_cache_chunk_size s gccs obccs opccs oiaccs = do {
     s \<leftarrow> stream_write_uint16 s gccs;
     s \<leftarrow> stream_write_uint16 s obccs;
     s \<leftarrow> stream_write_uint16 s opccs;
     stream_write_uint16 s oiaccs }"

definition rdp_write_gdiplus_image_cache_properties :: "STREAM \<Rightarrow> u16 \<Rightarrow> u16 \<Rightarrow> u16 \<Rightarrow> STREAM option" where
  "rdp_write_gdiplus_image_cache_properties s oiccs oicts oicms = do {
     s \<leftarrow> stream_write_uint16 s oiccs;
     s \<leftarrow> stream_write_uint16 s oicts;
     stream_write_uint16 s oicms }"

definition rdp_read_draw_gdiplus_cache_capability_set :: "STREAM \<Rightarrow> u16 \<Rightarrow> capSettings \<Rightarrow> (capSettings \<times> STREAM) option" where
  "rdp_read_draw_gdiplus_cache_capability_set s len settings = do {
     (drawGDIPlusSupportLevel, s) \<leftarrow> stream_read_uint32 s;
     let s = stream_seek s 4;
     (drawGdiplusCacheLevel, s) \<leftarrow> stream_read_uint32 s;
     let s = stream_seek s (10 + 8 + 6);
     let settings = (if drawGDIPlusSupportLevel AND DRAW_GDIPLUS_SUPPORTED \<noteq> 0
                     then settings\<lparr>cs_draw_gdi_plus := True\<rparr> else settings);
     let settings = (if drawGdiplusCacheLevel AND DRAW_GDIPLUS_CACHE_LEVEL_ONE \<noteq> 0
                     then settings\<lparr>cs_draw_gdi_plus_cache := True\<rparr> else settings);
     Some (settings, s) }"

definition rdp_write_draw_gdiplus_cache_capability_set :: "STREAM \<Rightarrow> capSettings \<Rightarrow> STREAM option" where
  "rdp_write_draw_gdiplus_cache_capability_set s settings = do {
     (header, s) \<leftarrow> rdp_capability_set_start s;
     let drawGDIPlusSupportLevel = (if cs_draw_gdi_plus settings then DRAW_GDIPLUS_SUPPORTED else DRAW_GDIPLUS_DEFAULT);
     let drawGdiplusCacheLevel = (if cs_draw_gdi_plus settings then DRAW_GDIPLUS_CACHE_LEVEL_ONE
                                  else DRAW_GDIPLUS_CACHE_LEVEL_DEFAULT);
     s \<leftarrow> stream_write_uint32 s drawGDIPlusSupportLevel;
     s \<leftarrow> stream_write_uint32 s (0 :: u32);
     s \<leftarrow> stream_write_uint32 s drawGdiplusCacheLevel;
     s \<leftarrow> rdp_write_gdiplus_cache_entries s 10 5 5 10 2;
     s \<leftarrow> rdp_write_gdiplus_cache_chunk_size s 512 2048 1024 64;
     s \<leftarrow> rdp_write_gdiplus_image_cache_properties s 4096 256 128;
     rdp_capability_set_finish s header CAPSET_TYPE_DRAW_GDI_PLUS }"

definition rdp_read_remote_programs_capability_set :: "STREAM \<Rightarrow> u16 \<Rightarrow> capSettings \<Rightarrow> (capSettings \<times> STREAM) option" where
  "rdp_read_remote_programs_capability_set s len settings = do {
     (railSupportLevel, s) \<leftarrow> stream_read_uint32 s;
     let settings = (if railSupportLevel AND RAIL_LEVEL_SUPPORTED = 0 then
                       (if cs_remote_app settings then settings\<lparr>cs_remote_app := False\<rparr> else settings)
                     else settings);
     Some (settings, s) }"

definition rdp_write_remote_programs_capability_set :: "STREAM \<Rightarrow> capSettings \<Rightarrow> STREAM option" where
  "rdp_write_remote_programs_capability_set s settings = do {
     (header, s) \<leftarrow> rdp_capability_set_start s;
     let railSupportLevel = RAIL_LEVEL_SUPPORTED;
     let railSupportLevel = (if cs_rail_langbar_supported settings then railSupportLevel OR RAIL_LEVEL_DOCKED_LANGBAR_SUPPORTED
                             else railSupportLevel);
     s \<leftarrow> stream_write_uint32 s railSupportLevel;
     rdp_capability_set_finish s header CAPSET_TYPE_RAIL }"

definition rdp_read_window_list_capability_set :: "STREAM \<Rightarrow> u16 \<Rightarrow> capSettings \<Rightarrow> (capSettings \<times> STREAM) option" where
  "rdp_read_window_list_capability_set s len settings = do {
     let s = stream_seek s (4 + 1 + 2);
     Some (settings, s) }"

definition rdp_write_window_list_capability_set :: "STREAM \<Rightarrow> capSettings \<Rightarrow> STREAM option" where
  "rdp_write_window_list_capability_set s settings = do {
     (header, s) \<leftarrow> rdp_capability_set_start s;
     let wndSupportLevel = WINDOW_LEVEL_SUPPORTED_EX;
     s \<leftarrow> stream_write_uint32 s wndSupportLevel;
     s \<leftarrow> stream_write_uint8 s (cs_num_icon_caches settings);
     s \<leftarrow> stream_write_uint16 s (cs_num_icon_cache_entries settings);
     rdp_capability_set_finish s header CAPSET_TYPE_WINDOW }"

definition rdp_read_desktop_composition_capability_set :: "STREAM \<Rightarrow> u16 \<Rightarrow> capSettings \<Rightarrow> (capSettings \<times> STREAM) option" where
  "rdp_read_desktop_composition_capability_set s len settings = do {
     let s = stream_seek s 2;
     Some (settings, s) }"

definition rdp_write_desktop_composition_capability_set :: "STREAM \<Rightarrow> capSettings \<Rightarrow> STREAM option" where
  "rdp_write_desktop_composition_capability_set s settings = do {
     (header, s) \<leftarrow> rdp_capability_set_start s;
     let compDeskSupportLevel = (if cs_desktop_composition settings then COMPDESK_SUPPORTED else COMPDESK_NOT_SUPPORTED);
     s \<leftarrow> stream_write_uint16 s compDeskSupportLevel;
     rdp_capability_set_finish s header CAPSET_TYPE_COMP_DESK }"

definition rdp_read_multifragment_update_capability_set :: "STREAM \<Rightarrow> u16 \<Rightarrow> capSettings \<Rightarrow> (capSettings \<times> STREAM) option" where
  "rdp_read_multifragment_update_capability_set s len settings = do {
     (max_request_size, s) \<leftarrow> stream_read_uint32 s;
     Some (settings\<lparr>cs_multifrag_max_request_size := max_request_size\<rparr>, s) }"

definition rdp_write_multifragment_update_capability_set :: "STREAM \<Rightarrow> capSettings \<Rightarrow> STREAM option" where
  "rdp_write_multifragment_update_capability_set s settings = do {
     (header, s) \<leftarrow> rdp_capability_set_start s;
     s \<leftarrow> stream_write_uint32 s (cs_multifrag_max_request_size settings);
     rdp_capability_set_finish s header CAPSET_TYPE_MULTI_FRAGMENT_UPDATE }"

definition rdp_read_large_pointer_capability_set :: "STREAM \<Rightarrow> u16 \<Rightarrow> capSettings \<Rightarrow> (capSettings \<times> STREAM) option" where
  "rdp_read_large_pointer_capability_set s len settings = do {
     let s = stream_seek s 2;
     Some (settings, s) }"

definition rdp_write_large_pointer_capability_set :: "STREAM \<Rightarrow> capSettings \<Rightarrow> STREAM option" where
  "rdp_write_large_pointer_capability_set s settings = do {
     (header, s) \<leftarrow> rdp_capability_set_start s;
     let largePointerSupportFlags = (if cs_large_pointer settings then LARGE_POINTER_FLAG_96x96 else 0);
     s \<leftarrow> stream_write_uint16 s largePointerSupportFlags;
     rdp_capability_set_finish s header CAPSET_TYPE_LARGE_POINTER }"

definition rdp_read_surface_commands_capability_set :: "STREAM \<Rightarrow> u16 \<Rightarrow> capSettings \<Rightarrow> (capSettings \<times> STREAM) option" where
  "rdp_read_surface_commands_capability_set s len settings = do {
     let s = stream_seek s (4 + 4);
     let settings = settings\<lparr>cs_surface_commands := True\<rparr>;
     Some (settings, s) }"

definition rdp_write_surface_commands_capability_set :: "STREAM \<Rightarrow> capSettings \<Rightarrow> STREAM option" where
  "rdp_write_surface_commands_capability_set s settings = do {
     (header, s) \<leftarrow> rdp_capability_set_start s;
     let cmdFlags = SURFCMDS_FRAME_MARKER OR SURFCMDS_SET_SURFACE_BITS OR SURFCMDS_STREAM_SURFACE_BITS;
     s \<leftarrow> stream_write_uint32 s cmdFlags;
     s \<leftarrow> stream_write_uint32 s (0 :: u32);
     rdp_capability_set_finish s header CAPSET_TYPE_SURFACE_COMMANDS }"

text \<open>
  \<open>strncmp(tail, guid, 16) == 0\<close>: the bytes are compared one by one, up to the first difference or
  the first common zero.
\<close>

fun strncmp_equal :: "STREAM \<Rightarrow> int \<Rightarrow> u8 list \<Rightarrow> bool option" where
  "strncmp_equal s k [] = Some True"
| "strncmp_equal s k (g # gs) = do {
     b \<leftarrow> byte_at s k;
     if b \<noteq> g then Some False
     else if g = 0 then Some True
     else strncmp_equal s (k + 1) gs }"

definition read_bitmap_codec :: "STREAM \<Rightarrow> capSettings \<Rightarrow> (capSettings \<times> STREAM) option" where
  "read_bitmap_codec s settings = do {
     remotefx \<leftarrow> (if cs_server_mode settings then strncmp_equal s 0 CODEC_GUID_REMOTEFX else Some False);
     nscodec \<leftarrow> (if remotefx then Some False
       else if cs_server_mode settings then strncmp_equal s 0 CODEC_GUID_NSCODEC else Some False);
     (settings, s) \<leftarrow>
       (if remotefx then do {
          let s = stream_seek s 16;
          (codec_id, s) \<leftarrow> stream_read_uint8 s;
          Some (settings\<lparr>cs_rfx_codec_id := ucast codec_id, cs_rfx_codec := True\<rparr>, s) }
        else if nscodec then do {
          let s = stream_seek s 16;
          (codec_id, s) \<leftarrow> stream_read_uint8 s;
          Some (settings\<lparr>cs_ns_codec_id := ucast codec_id, cs_ns_codec := True\<rparr>, s) }
        else Some (settings, stream_seek s (16 + 1)));
     (codecPropertiesLength, s) \<leftarrow> stream_read_uint16 s;
     Some (settings, stream_seek s (uint codecPropertiesLength)) }"

fun read_bitmap_codecs :: "nat \<Rightarrow> STREAM \<Rightarrow> capSettings \<Rightarrow> (capSettings \<times> STREAM) option" where
  "read_bitmap_codecs 0 s settings = Some (settings, s)"
| "read_bitmap_codecs (Suc bitmapCodecCount) s settings = do {
     (settings, s) \<leftarrow> read_bitmap_codec s settings;
     read_bitmap_codecs bitmapCodecCount s settings }"

definition rdp_read_bitmap_codecs_capability_set :: "STREAM \<Rightarrow> u16 \<Rightarrow> capSettings \<Rightarrow> (capSettings \<times> STREAM) option" where
  "rdp_read_bitmap_codecs_capability_set s len settings = do {
     (bitmapCodecCount, s) \<leftarrow> stream_read_uint8 s;
     let settings = (if cs_server_mode settings then settings\<lparr>cs_rfx_codec := False, cs_ns_codec := False\<rparr> else settings);
     read_bitmap_codecs (unat bitmapCodecCount) s settings }"

definition rdp_write_rfx_client_capability_container :: "STREAM \<Rightarrow> capSettings \<Rightarrow> STREAM option" where
  "rdp_write_rfx_client_capability_container s settings = do {
     let captureFlags = (if cs_dump_rfx settings then 0 else CARDP_CAPS_CAPTURE_NON_CAC);
     let codecMode = (ucast (cs_rfx_codec_mode settings) :: u8);
     s \<leftarrow> stream_write_uint16 s (49 :: u16);
     s \<leftarrow> stream_write_uint32 s (49 :: u32);
     s \<leftarrow> stream_write_uint32 s captureFlags;
     s \<leftarrow> stream_write_uint32 s (37 :: u32);
     s \<leftarrow> stream_write_uint16 s CBY_CAPS;
     s \<leftarrow> stream_write_uint32 s (8 :: u32);
     s \<leftarrow> stream_write_uint16 s (1 :: u16);
     s \<leftarrow> stream_write_uint16 s CBY_CAPSET;
     s \<leftarrow> stream_write_uint32 s (29 :: u32);
     s \<leftarrow> stream_write_uint8 s (0x01 :: u8);
     s \<leftarrow> stream_write_uint16 s CLY_CAPSET;
     s \<leftarrow> stream_write_uint16 s (2 :: u16);
     s \<leftarrow> stream_write_uint16 s (8 :: u16);
     s \<leftarrow> stream_write_uint16 s CLW_VERSION_1_0;
     s \<leftarrow> stream_write_uint16 s CT_TILE_64x64;
     s \<leftarrow> stream_write_uint8 s codecMode;
     s \<leftarrow> stream_write_uint8 s CLW_COL_CONV_ICT;
     s \<leftarrow> stream_write_uint8 s CLW_XFORM_DWT_53_A;
     s \<leftarrow> stream_write_uint8 s CLW_ENTROPY_RLGR1;
     s \<leftarrow> stream_write_uint16 s CLW_VERSION_1_0;
     s \<leftarrow> stream_write_uint16 s CT_TILE_64x64;
     s \<leftarrow> stream_write_uint8 s codecMode;
     s \<leftarrow> stream_write_uint8 s CLW_COL_CONV_ICT;
     s \<leftarrow> stream_write_uint8 s CLW_XFORM_DWT_53_A;
     stream_write_uint8 s CLW_ENTROPY_RLGR3 }"

definition rdp_write_nsc_client_capability_container :: "STREAM \<Rightarrow> capSettings \<Rightarrow> STREAM option" where
  "rdp_write_nsc_client_capability_container s settings = do {
     s \<leftarrow> stream_write_uint16 s (3 :: u16);
     s \<leftarrow> stream_write_uint8 s (1 :: u8);
     s \<leftarrow> stream_write_uint8 s (1 :: u8);
     stream_write_uint8 s (3 :: u8) }"

definition rdp_write_jpeg_client_capability_container :: "STREAM \<Rightarrow> capSettings \<Rightarrow> STREAM option" where
  "rdp_write_jpeg_client_capability_container s settings = do {
     s \<leftarrow> stream_write_uint16 s (1 :: u16);
     stream_write_uint8 s (cs_jpeg_quality settings) }"

definition rdp_write_rfx_server_capability_container :: "STREAM \<Rightarrow> capSettings \<Rightarrow> STREAM option" where
  "rdp_write_rfx_server_capability_container s settings = do {
     s \<leftarrow> stream_write_uint16 s (4 :: u16);
     stream_write_uint32 s (0 :: u32) }"

definition rdp_write_jpeg_server_capability_container :: "STREAM \<Rightarrow> capSettings \<Rightarrow> STREAM option" where
  "rdp_write_jpeg_server_capability_container s settings = do {
     s \<leftarrow> stream_write_uint16 s (1 :: u16);
     stream_write_uint8 s (75 :: u8) }"

definition rdp_write_nsc_server_capability_container :: "STREAM \<Rightarrow> capSettings \<Rightarrow> STREAM option" where
  "rdp_write_nsc_server_capability_container s settings = do {
     s \<leftarrow> stream_write_uint16 s (4 :: u16);
     stream_write_uint32 s (0 :: u32) }"

definition rdp_write_bitmap_codecs_capability_set :: "STREAM \<Rightarrow> capSettings \<Rightarrow> STREAM option" where
  "rdp_write_bitmap_codecs_capability_set s settings = do {
     (header, s) \<leftarrow> rdp_capability_set_start s;
     let bitmapCodecCount = (0 :: u8);
     let bitmapCodecCount = (if cs_rfx_codec settings then bitmapCodecCount + 1 else bitmapCodecCount);
     let bitmapCodecCount = (if cs_ns_codec settings then bitmapCodecCount + 1 else bitmapCodecCount);
     let bitmapCodecCount = (if cs_jpeg_codec settings then bitmapCodecCount + 1 else bitmapCodecCount);
     s \<leftarrow> stream_write_uint8 s bitmapCodecCount;
     s \<leftarrow> (if cs_rfx_codec settings then do {
            s \<leftarrow> stream_write s CODEC_GUID_REMOTEFX 16;
            if cs_server_mode settings then do {
              s \<leftarrow> stream_write_uint8 s (0 :: u8);
              rdp_write_rfx_server_capability_container s settings }
            else do {
              s \<leftarrow> stream_write_uint8 s CODEC_ID_REMOTEFX;
              rdp_write_rfx_client_capability_container s settings } }
          else Some s);
     s \<leftarrow> (if cs_ns_codec settings then do {
            s \<leftarrow> stream_write s CODEC_GUID_NSCODEC 16;
            if cs_server_mode settings then do {
              s \<leftarrow> stream_write_uint8 s (0 :: u8);
              rdp_write_nsc_server_capability_container s settings }
            else do {
              s \<leftarrow> stream_write_uint8 s CODEC_ID_NSCODEC;
              rdp_write_nsc_client_capability_container s settings } }
          else Some s);
     s \<leftarrow> (if cs_jpeg_codec settings then do {
            s \<leftarrow> stream_write s CODEC_GUID_JPEG 16;
            if cs_server_mode settings then do {
              s \<leftarrow> stream_write_uint8 s (0 :: u8);
              rdp_write_jpeg_server_capability_container s settings }
            else do {
              s \<leftarrow> stream_write_uint8 s CODEC_ID_JPEG;
              rdp_write_jpeg_client_capability_container s settings } }
          else Some s);
     rdp_capability_set_finish s header CAPSET_TYPE_BITMAP_CODECS }"

definition rdp_read_frame_acknowledge_capability_set :: "STREAM \<Rightarrow> u16 \<Rightarrow> capSettings \<Rightarrow> (capSettings \<times> STREAM) option" where
  "rdp_read_frame_acknowledge_capability_set s len settings = do {
     let s = stream_seek s 4;
     Some (settings, s) }"

definition rdp_read_bitmap_cache_v3_codec_id_capability_set :: "STREAM \<Rightarrow> u16 \<Rightarrow> capSettings \<Rightarrow> (capSettings \<times> STREAM) option" where
  "rdp_read_bitmap_cache_v3_codec_id_capability_set s len settings = do {
     let s = stream_seek s 1;
     Some (settings, s) }"

definition rdp_write_bitmap_cache_v3_codec_id_capability_set :: "STREAM \<Rightarrow> capSettings \<Rightarrow> STREAM option" where
  "rdp_write_bitmap_cache_v3_codec_id_capability_set s settings = do {
     (header, s) \<leftarrow> rdp_capability_set_start s;
     s \<leftarrow> stream_write_uint8 s (cs_v3_codec_id settings);
     rdp_capability_set_finish s header 6 }"

definition rdp_write_frame_acknowledge_capability_set :: "STREAM \<Rightarrow> capSettings \<Rightarrow> STREAM option" where
  "rdp_write_frame_acknowledge_capability_set s settings = do {
     (header, s) \<leftarrow> rdp_capability_set_start s;
     s \<leftarrow> stream_write_uint32 s (2 :: u32);
     rdp_capability_set_finish s header CAPSET_TYPE_FRAME_ACKNOWLEDGE }"

section \<open>Reading the sets of a unit\<close>

definition read_capability_set :: "u16 \<Rightarrow> STREAM \<Rightarrow> u16 \<Rightarrow> capSettings \<Rightarrow> (capSettings \<times> STREAM) option" where
  "read_capability_set type s len settings =
     (if type = CAPSET_TYPE_GENERAL then rdp_read_general_capability_set s len settings
      else if type = CAPSET_TYPE_BITMAP then rdp_read_bitmap_capability_set s len settings
      else if type = CAPSET_TYPE_ORDER then rdp_read_order_capability_set s len settings
      else if type = CAPSET_TYPE_BITMAP_CACHE then rdp_read_bitmap_cache_capability_set s len settings
      else if type = CAPSET_TYPE_CONTROL then rdp_read_control_capability_set s len settings
      else if type = CAPSET_TYPE_ACTIVATION then rdp_read_window_activation_capability_set s len settings
      else if type = CAPSET_TYPE_POINTER then rdp_read_pointer_capability_set s len settings
      else if type = CAPSET_TYPE_SHARE then rdp_read_share_capability_set s len settings
      else if type = CAPSET_TYPE_COLOR_CACHE then rdp_read_color_cache_capability_set s len settings
      else if type = CAPSET_TYPE_SOUND then rdp_read_sound_capability_set s len settings
      else if type = CAPSET_TYPE_INPUT then rdp_read_input_capability_set s len settings
      else if type = CAPSET_TYPE_FONT then rdp_read_font_capability_set s len settings
      else if type = CAPSET_TYPE_BRUSH then rdp_read_brush_capability_set s len settings
      else if type = CAPSET_TYPE_GLYPH_CACHE then rdp_read_glyph_cache_capability_set s len settings
      else if type = CAPSET_TYPE_OFFSCREEN_CACHE then rdp_read_offscreen_bitmap_cache_capability_set s len settings
      else if type = CAPSET_TYPE_BITMAP_CACHE_HOST_SUPPORT then rdp_read_bitmap_cache_host_support_capability_set s len settings
      else if type = CAPSET_TYPE_BITMAP_CACHE_V2 then rdp_read_bitmap_cache_v2_capability_set s len settings
      else if type = CAPSET_TYPE_VIRTUAL_CHANNEL then rdp_read_virtual_channel_capability_set s len settings
      else if type = CAPSET_TYPE_DRAW_NINE_GRID_CACHE then rdp_read_draw_nine_grid_cache_capability_set s len settings
      else if type = CAPSET_TYPE_DRAW_GDI_PLUS then rdp_read_draw_gdiplus_cache_capability_set s len settings
      else if type = CAPSET_TYPE_RAIL then rdp_read_remote_programs_capability_set s len settings
      else if type = CAPSET_TYPE_WINDOW then rdp_read_window_list_capability_set s len settings
      else if type = CAPSET_TYPE_COMP_DESK then rdp_read_desktop_composition_capability_set s len settings
      else if type = CAPSET_TYPE_MULTI_FRAGMENT_UPDATE then rdp_read_multifragment_update_capability_set s len settings
      else if type = CAPSET_TYPE_LARGE_POINTER then rdp_read_large_pointer_capability_set s len settings
      else if type = CAPSET_TYPE_SURFACE_COMMANDS then rdp_read_surface_commands_capability_set s len settings
      else if type = CAPSET_TYPE_BITMAP_CODECS then rdp_read_bitmap_codecs_capability_set s len settings
      else if type = CAPSET_TYPE_FRAME_ACKNOWLEDGE then rdp_read_frame_acknowledge_capability_set s len settings
      else if type = 6 then rdp_read_bitmap_cache_v3_codec_id_capability_set s len settings
      else Some (settings, s))"

text \<open>
  The loop. Storing in \<open>received_caps\<close> beyond the 32 flags is a fault; \<open>length - 4\<close> is computed in
  \<open>int\<close> and may be negative.
\<close>

fun read_capability_sets :: "nat \<Rightarrow> STREAM \<Rightarrow> capSettings \<Rightarrow> (tbool \<times> capSettings \<times> STREAM) option" where
  "read_capability_sets 0 s settings = Some (True, settings, s)"
| "read_capability_sets (Suc numberCapabilities) s settings = do {
     let bm = stream_get_pos s;
     ((len, type), s) \<leftarrow> rdp_read_capability_set_header s;
     if unat type < length (cs_received_caps settings) then do {
       let settings = settings\<lparr>cs_received_caps := (cs_received_caps settings)[unat type := True]\<rparr>;
       let em = bm + uint len;
       if stream_get_left s < uint len - 4 then Some (False, settings, s)
       else do {
         (settings, s) \<leftarrow> read_capability_set type s len settings;
         read_capability_sets numberCapabilities (stream_set_pos s em) settings } }
     else None }"

definition rdp_read_capability_sets :: "STREAM \<Rightarrow> capSettings \<Rightarrow> u16 \<Rightarrow> (tbool \<times> capSettings \<times> STREAM) option" where
  "rdp_read_capability_sets s settings numberCapabilities = read_capability_sets (unat numberCapabilities) s settings"

text \<open>
  The capabilities in a received unit: what \<open>rdp_recv_demand_active\<close> and \<open>rdp_recv_confirm_active\<close> do with
  the stream after the share control header.
\<close>

definition recv_demand_active_sets :: "STREAM \<Rightarrow> capSettings \<Rightarrow> (tbool \<times> capSettings \<times> STREAM) option" where
  "recv_demand_active_sets s settings = do {
     (share_id, s) \<leftarrow> stream_read_uint32 s;
     let settings = settings\<lparr>cs_share_id := share_id\<rparr>;
     (lengthSourceDescriptor, s) \<leftarrow> stream_read_uint16 s;
     (lengthCombinedCapabilities, s) \<leftarrow> stream_read_uint16 s;
     let s = stream_seek s (uint lengthSourceDescriptor);
     (numberCapabilities, s) \<leftarrow> stream_read_uint16 s;
     let s = stream_seek s 2;
     rdp_read_capability_sets s settings numberCapabilities }"

definition recv_confirm_active_sets :: "STREAM \<Rightarrow> capSettings \<Rightarrow> (tbool \<times> capSettings \<times> STREAM) option" where
  "recv_confirm_active_sets s settings = do {
     let s = stream_seek s (4 + 2);
     (lengthSourceDescriptor, s) \<leftarrow> stream_read_uint16 s;
     (lengthCombinedCapabilities, s) \<leftarrow> stream_read_uint16 s;
     let s = stream_seek s (uint lengthSourceDescriptor);
     (numberCapabilities, s) \<leftarrow> stream_read_uint16 s;
     let s = stream_seek s 2;
     rdp_read_capability_sets s settings numberCapabilities }"

section \<open>Writing the units\<close>

text \<open>The end of both writers: going back to the two fields that were left out.\<close>

definition finish_capabilities :: "STREAM \<Rightarrow> int \<Rightarrow> int \<Rightarrow> u16 \<Rightarrow> STREAM option" where
  "finish_capabilities s lm bm numberCapabilities = do {
     let em = stream_get_pos s;
     let s = stream_set_pos s lm;
     let lengthCombinedCapabilities = (word_of_int (em - bm) :: u16);
     s \<leftarrow> stream_write_uint16 s lengthCombinedCapabilities;
     let s = stream_set_pos s bm;
     s \<leftarrow> stream_write_uint16 s numberCapabilities;
     Some (stream_set_pos s em) }"

definition write_demand_sets :: "STREAM \<Rightarrow> capSettings \<Rightarrow> (capSettings \<times> STREAM) option" where
  "write_demand_sets s settings = do {
     (settings, s) \<leftarrow> rdp_write_general_capability_set s settings;
     s \<leftarrow> rdp_write_bitmap_capability_set s settings;
     s \<leftarrow> rdp_write_order_capability_set s settings;
     s \<leftarrow> rdp_write_pointer_capability_set s settings;
     s \<leftarrow> rdp_write_input_capability_set s settings;
     s \<leftarrow> rdp_write_virtual_channel_capability_set s settings;
     s \<leftarrow> rdp_write_bitmap_cache_host_support_capability_set s settings;
     s \<leftarrow> rdp_write_share_capability_set s settings;
     s \<leftarrow> rdp_write_font_capability_set s settings;
     s \<leftarrow> rdp_write_multifragment_update_capability_set s settings;
     s \<leftarrow> rdp_write_large_pointer_capability_set s settings;
     s \<leftarrow> rdp_write_desktop_composition_capability_set s settings;
     s \<leftarrow> rdp_write_surface_commands_capability_set s settings;
     s \<leftarrow> rdp_write_bitmap_codecs_capability_set s settings;
     Some (settings, s) }"

definition rdp_write_demand_active :: "STREAM \<Rightarrow> capSettings \<Rightarrow> (capSettings \<times> STREAM) option" where
  "rdp_write_demand_active s settings = do {
     s \<leftarrow> stream_write_uint32 s (cs_share_id settings);
     s \<leftarrow> stream_write_uint16 s (4 :: u16);
     let lm = stream_get_pos s;
     let s = stream_seek s 2;
     s \<leftarrow> stream_write s [0x52, 0x44, 0x50, 0x00] 4;
     let bm = stream_get_pos s;
     let s = stream_seek s 2;
     s \<leftarrow> stream_write_uint16 s (0 :: u16);
     (settings, s) \<leftarrow> write_demand_sets s settings;
     s \<leftarrow> finish_capabilities s lm bm 14;
     s \<leftarrow> stream_write_uint32 s (0 :: u32);
     Some (settings, s) }"

text \<open>A capability set that is written, and counted, only under a condition.\<close>

definition optional_sets :: "tbool \<Rightarrow> u16 \<Rightarrow> (STREAM \<Rightarrow> STREAM option) \<Rightarrow> u16 \<times> STREAM \<Rightarrow> (u16 \<times> STREAM) option" where
  "optional_sets c k w ns = (if c then do { s \<leftarrow> w (snd ns); Some (fst ns + k, s) } else Some ns)"

definition write_confirm_sets :: "STREAM \<Rightarrow> capSettings \<Rightarrow> (capSettings \<times> u16 \<times> STREAM) option" where
  "write_confirm_sets s settings = do {
     (settings, s) \<leftarrow> rdp_write_general_capability_set s settings;
     s \<leftarrow> rdp_write_bitmap_capability_set s settings;
     s \<leftarrow> rdp_write_order_capability_set s settings;
     s \<leftarrow> (if cs_rdp_version settings \<ge> 5 then rdp_write_bitmap_cache_v2_capability_set s settings
          else rdp_write_bitmap_cache_capability_set s settings);
     s \<leftarrow> rdp_write_pointer_capability_set s settings;
     s \<leftarrow> rdp_write_input_capability_set s settings;
     s \<leftarrow> rdp_write_brush_capability_set s settings;
     s \<leftarrow> rdp_write_glyph_cache_capability_set s settings;
     s \<leftarrow> rdp_write_virtual_channel_capability_set s settings;
     s \<leftarrow> rdp_write_sound_capability_set s settings;
     s \<leftarrow> rdp_write_share_capability_set s settings;
     s \<leftarrow> rdp_write_font_capability_set s settings;
     s \<leftarrow> rdp_write_control_capability_set s settings;
     s \<leftarrow> rdp_write_color_cache_capability_set s settings;
     s \<leftarrow> rdp_write_window_activation_capability_set s settings;
     let caps = cs_received_caps settings;
     ns \<leftarrow> optional_sets (cs_offscreen_bitmap_cache settings) 1
       (\<lambda>s. rdp_write_offscreen_bitmap_cache_capability_set s settings) (15, s);
     received \<leftarrow> elem_at caps (unat CAPSET_TYPE_LARGE_POINTER);
     ns \<leftarrow> optional_sets (received \<and> cs_large_pointer settings) 1
       (\<lambda>s. rdp_write_large_pointer_capability_set s settings) ns;
     ns \<leftarrow> optional_sets (cs_remote_app settings) 2
       (\<lambda>s. do { s \<leftarrow> rdp_write_remote_programs_capability_set s settings;
                 rdp_write_window_list_capability_set s settings }) ns;
     received \<leftarrow> elem_at caps (unat CAPSET_TYPE_MULTI_FRAGMENT_UPDATE);
     ns \<leftarrow> optional_sets received 1 (\<lambda>s. rdp_write_multifragment_update_capability_set s settings) ns;
     received \<leftarrow> elem_at caps (unat CAPSET_TYPE_SURFACE_COMMANDS);
     ns \<leftarrow> optional_sets received 1 (\<lambda>s. rdp_write_surface_commands_capability_set s settings) ns;
     received \<leftarrow> elem_at caps (unat CAPSET_TYPE_BITMAP_CODECS);
     ns \<leftarrow> optional_sets received 1 (\<lambda>s. rdp_write_bitmap_codecs_capability_set s settings) ns;
     received \<leftarrow> elem_at caps (unat CAPSET_TYPE_FRAME_ACKNOWLEDGE);
     ns \<leftarrow> optional_sets (received \<and> cs_frame_acknowledge settings) 1
       (\<lambda>s. rdp_write_frame_acknowledge_capability_set s settings) ns;
     received \<leftarrow> elem_at caps 6;
     ns \<leftarrow> optional_sets (received \<and> cs_v3_codec_id settings \<noteq> 0) 1
       (\<lambda>s. rdp_write_bitmap_cache_v3_codec_id_capability_set s settings) ns;
     Some (settings, ns) }"

definition rdp_write_confirm_active :: "STREAM \<Rightarrow> capSettings \<Rightarrow> (capSettings \<times> STREAM) option" where
  "rdp_write_confirm_active s settings = do {
     let lengthSourceDescriptor = (8 :: u16);
     s \<leftarrow> stream_write_uint32 s (cs_share_id settings);
     s \<leftarrow> stream_write_uint16 s (0x03EA :: u16);
     s \<leftarrow> stream_write_uint16 s lengthSourceDescriptor;
     let lm = stream_get_pos s;
     let s = stream_seek s 2;
     s \<leftarrow> stream_write s SOURCE_DESCRIPTOR (uint lengthSourceDescriptor);
     let bm = stream_get_pos s;
     let s = stream_seek s 2;
     s \<leftarrow> stream_write_uint16 s (0 :: u16);
     (settings, numberCapabilities, s) \<leftarrow> write_confirm_sets s settings;
     s \<leftarrow> finish_capabilities s lm bm numberCapabilities;
     Some (settings, s) }"

end
