(* ===== verification/Capability_Bodies.thy ===== *)
theory Capability_Bodies
  imports Capabilities
begin

text \<open>
  The wire format of the capability sets: every writer of \<^verbatim>\<open>capabilities.c\<close> emits one framed set, whose
  header announces its type and its length. The bodies are given as byte strings of the settings.
\<close>

section \<open>Framing\<close>

definition le16 :: "'a::len word \<Rightarrow> u8 list" where
  "le16 w = [octet 0 w, octet (Suc 0) w]"

definition le32 :: "'a::len word \<Rightarrow> u8 list" where
  "le32 w = [octet 0 w, octet (Suc 0) w, octet 2 w, octet 3 w]"

lemma length_le [simp]: "length (le16 w) = 2" "length (le32 w) = 4"
  by (simp_all add: le16_def le32_def)

text \<open>A framed set: type, length including the header, body.\<close>

definition capset :: "u16 \<Rightarrow> u8 list \<Rightarrow> u8 list" where
  "capset T b = le16 T @ le16 (word_of_int (4 + int (length b)) :: u16) @ b"

lemma length_capset [simp]: "length (capset T b) = 4 + length b"
  by (simp add: capset_def)

lemma set_start:
  "rdp_capability_set_start s = Option.bind (emit [0, 0, 0, 0] s) (\<lambda>s'. Some (stream_get_pos s, s'))"
  by (simp add: rdp_capability_set_start_def stream_write_zero_def CAPSET_HEADER_LENGTH_def wire numeral_eq_Suc)

lemma set_finish:
  "Option.bind (emit (0 # 0 # 0 # 0 # b) s) (\<lambda>s'. rdp_capability_set_finish s' (stream_get_pos s) T) = emit (capset T b) s"
proof (cases "stream_ok s")
  case True
  then obtain pre rst sz where s: "s = stm pre rst sz" by (rule stream_ok_cases)
  show ?thesis
  proof (cases "4 + length b \<le> length rst")
    case False
    then show ?thesis by (simp add: s emit_stm)
  next
    case fits: True
    let ?h = "le16 T @ le16 (word_of_int (4 + int (length b)) :: u16)"
    have rew: "stream_set_pos (stm (pre @ [0, 0, 0, 0] @ b) r sz) (int (length pre)) = stm pre (([0, 0, 0, 0] @ b) @ r) sz" for r
      by (rule stream_set_pos_stm) simp
    have fwd: "stream_set_pos (stm (pre @ ?h) (b @ r) sz) (4 + (int (length pre) + int (length b)))
        = stm (pre @ capset T b) r sz" for r
      by (simp add: stm_def stream_set_pos_def capset_def)
    have "rdp_write_capability_set_header (stm pre (([0, 0, 0, 0] @ b) @ r) sz) L T
        = Some (stm (pre @ le16 T @ le16 L) (b @ r) sz)" for r and L :: u16
      by (simp add: rdp_write_capability_set_header_def wire emit_stm le16_def)
    then show ?thesis
      using fits rew fwd
      by (simp add: s emit_stm rdp_capability_set_finish_def Let_def stream_get_pos_def numeral_eq_Suc)
  qed
next
  case False
  then show ?thesis by (simp add: emit_not_ok capset_def le16_def)
qed

text \<open>The shape every writer has after evaluation of its stream operations.\<close>

lemmas set_frame = set_start set_finish

lemma join16: "ucast (octet 0 w) + push_bit 8 (ucast (octet (Suc 0) w)) = (ucast (w :: 'a::len word) :: u16)"
  using join_u16_be [of w] by (simp add: add.commute)

lemma emit_zero [wire]: "0 \<le> n \<Longrightarrow> stream_write_zero s n = emit (replicate (nat n) 0) s"
  by (simp add: stream_write_zero_def wire)

section \<open>Bodies\<close>

definition general_body :: "capSettings \<Rightarrow> u8 list" where
  "general_body c = le16 (cs_os_major_type c) @ le16 (cs_os_minor_type c) @ le16 CAPS_PROTOCOL_VERSION
     @ le16 (0 :: u16) @ le16 (0 :: u16)
     @ le16 (LONG_CREDENTIALS_SUPPORTED OR NO_BITMAP_COMPRESSION_HDR
         OR (if cs_auto_reconnection c then AUTORECONNECT_SUPPORTED else 0)
         OR (if cs_fastpath_output c then FASTPATH_OUTPUT_SUPPORTED else 0))
     @ le16 (0 :: u16) @ le16 (0 :: u16) @ le16 (0 :: u16)
     @ [of_bool (cs_refresh_rect c \<and> \<not> cs_server_mode c), of_bool (cs_suppress_output c \<and> \<not> cs_server_mode c)]"

lemma write_general:
  "rdp_write_general_capability_set s c = Option.bind (emit (capset CAPSET_TYPE_GENERAL (general_body c)) s)
     (\<lambda>s. Some (if cs_server_mode c then c\<lparr>cs_refresh_rect := False, cs_suppress_output := False\<rparr> else c, s))"
  unfolding rdp_write_general_capability_set_def general_body_def
  by (auto simp: wire set_start Let_def le16_def or.assoc simp flip: set_finish)

definition bitmap_body :: "capSettings \<Rightarrow> u8 list" where
  "bitmap_body c = le16 (if cs_rdp_version c > 5 then ucast (cs_color_depth c) else 8 :: u16)
     @ le16 (1 :: u16) @ le16 (1 :: u16) @ le16 (1 :: u16) @ le16 (cs_width c) @ le16 (cs_height c) @ le16 (0 :: u16)
     @ le16 (of_bool (cs_desktop_resize c) :: u16) @ le16 (1 :: u16) @ [0, 0] @ le16 (1 :: u16) @ le16 (0 :: u16)"

lemma write_bitmap:
  "rdp_write_bitmap_capability_set s c = emit (capset CAPSET_TYPE_BITMAP (bitmap_body c)) s"
  unfolding rdp_write_bitmap_capability_set_def bitmap_body_def
  by (auto simp: wire set_start Let_def le16_def le32_def or.assoc simp flip: set_finish)

definition order_body :: "capSettings \<Rightarrow> u8 list" where
  "order_body c = replicate 16 0 @ le32 (0 :: u32) @ le16 (1 :: u16) @ le16 (20 :: u16) @ le16 (0 :: u16) @ le16 (1 :: u16)
     @ le16 (0 :: u16)
     @ le16 (NEGOTIATE_ORDER_SUPPORT OR ZERO_BOUNDS_DELTA_SUPPORT OR COLOR_INDEX_SUPPORT
         OR (if cs_bitmap_cache_v3 c \<or> cs_frame_marker c then ORDER_FLAGS_EXTRA_SUPPORT else 0))
     @ take 32 (cs_order_support c) @ le16 (0 :: u16)
     @ le16 ((if cs_bitmap_cache_v3 c then CACHE_BITMAP_V3_SUPPORT else 0)
         OR (if cs_frame_marker c then ALTSEC_FRAME_MARKER_SUPPORT else 0))
     @ le32 (0 :: u32) @ le32 (230400 :: u32) @ le16 (0 :: u16) @ le16 (0 :: u16) @ le16 (0 :: u16) @ le16 (0 :: u16)"

lemma write_order:
  "32 \<le> length (cs_order_support c) \<Longrightarrow>
   rdp_write_order_capability_set s c = emit (capset CAPSET_TYPE_ORDER (order_body c)) s"
  unfolding rdp_write_order_capability_set_def order_body_def
  by (auto simp: wire set_start Let_def le16_def le32_def or.assoc simp flip: set_finish)

definition bitmap_cache_body :: "capSettings \<Rightarrow> u8 list" where
  "bitmap_cache_body c = le32 (0 :: u32) @ le32 (0 :: u32) @ le32 (0 :: u32) @ le32 (0 :: u32) @ le32 (0 :: u32) @ le32 (0 :: u32)
     @ le16 (200 :: u16) @ le16 (ucast ((cs_color_depth c + 7) div 8 * 256) :: u16)
     @ le16 (600 :: u16) @ le16 (ucast ((cs_color_depth c + 7) div 8 * 1024) :: u16)
     @ le16 (1000 :: u16) @ le16 (ucast ((cs_color_depth c + 7) div 8 * 4096) :: u16)"

lemma write_bitmap_cache:
  "rdp_write_bitmap_cache_capability_set s c = emit (capset CAPSET_TYPE_BITMAP_CACHE (bitmap_cache_body c)) s"
  unfolding rdp_write_bitmap_cache_capability_set_def bitmap_cache_body_def
  by (auto simp: wire set_start Let_def le16_def le32_def or.assoc simp flip: set_finish)

definition control_body :: "capSettings \<Rightarrow> u8 list" where
  "control_body c = le16 (0 :: u16) @ le16 (0 :: u16) @ le16 (2 :: u16) @ le16 (2 :: u16)"

lemma write_control:
  "rdp_write_control_capability_set s c = emit (capset CAPSET_TYPE_CONTROL (control_body c)) s"
  unfolding rdp_write_control_capability_set_def control_body_def
  by (auto simp: wire set_start Let_def le16_def le32_def or.assoc simp flip: set_finish)

definition window_activation_body :: "capSettings \<Rightarrow> u8 list" where
  "window_activation_body c = le16 (0 :: u16) @ le16 (0 :: u16) @ le16 (0 :: u16) @ le16 (0 :: u16)"

lemma write_window_activation:
  "rdp_write_window_activation_capability_set s c = emit (capset CAPSET_TYPE_ACTIVATION (window_activation_body c)) s"
  unfolding rdp_write_window_activation_capability_set_def window_activation_body_def
  by (auto simp: wire set_start Let_def le16_def le32_def or.assoc simp flip: set_finish)

definition pointer_body :: "capSettings \<Rightarrow> u8 list" where
  "pointer_body c = le16 (of_bool (cs_color_pointer c) :: u16) @ le16 (cs_pointer_cache_size c)
     @ (if cs_large_pointer c then le16 (cs_pointer_cache_size c) else [])"

lemma write_pointer:
  "rdp_write_pointer_capability_set s c = emit (capset CAPSET_TYPE_POINTER (pointer_body c)) s"
  unfolding rdp_write_pointer_capability_set_def pointer_body_def
  by (auto simp: wire set_start Let_def le16_def le32_def or.assoc simp flip: set_finish)

definition share_body :: "capSettings \<Rightarrow> u8 list" where
  "share_body c = le16 (if cs_server_mode c then 0x03EA else 0 :: u16) @ le16 (0 :: u16)"

lemma write_share:
  "rdp_write_share_capability_set s c = emit (capset CAPSET_TYPE_SHARE (share_body c)) s"
  unfolding rdp_write_share_capability_set_def share_body_def
  by (auto simp: wire set_start Let_def le16_def le32_def or.assoc simp flip: set_finish)

definition color_cache_body :: "capSettings \<Rightarrow> u8 list" where
  "color_cache_body c = le16 (6 :: u16) @ le16 (0 :: u16)"

lemma write_color_cache:
  "rdp_write_color_cache_capability_set s c = emit (capset CAPSET_TYPE_COLOR_CACHE (color_cache_body c)) s"
  unfolding rdp_write_color_cache_capability_set_def color_cache_body_def
  by (auto simp: wire set_start Let_def le16_def le32_def or.assoc simp flip: set_finish)

definition sound_body :: "capSettings \<Rightarrow> u8 list" where
  "sound_body c = le16 (if cs_sound_beeps c then SOUND_BEEPS_FLAG else 0) @ le16 (0 :: u16)"

lemma write_sound:
  "rdp_write_sound_capability_set s c = emit (capset CAPSET_TYPE_SOUND (sound_body c)) s"
  unfolding rdp_write_sound_capability_set_def sound_body_def
  by (auto simp: wire set_start Let_def le16_def le32_def or.assoc simp flip: set_finish)

definition input_body :: "capSettings \<Rightarrow> u8 list" where
  "input_body c = le16 (INPUT_FLAG_SCANCODES OR INPUT_FLAG_MOUSEX OR INPUT_FLAG_UNICODE
         OR (if cs_fastpath_input c then INPUT_FLAG_FASTPATH_INPUT OR INPUT_FLAG_FASTPATH_INPUT2 else 0))
     @ le16 (0 :: u16) @ le32 (cs_kbd_layout c) @ le32 (cs_kbd_type c) @ le32 (cs_kbd_subtype c) @ le32 (cs_kbd_fn_keys c)
     @ replicate 64 0"

lemma write_input:
  "rdp_write_input_capability_set s c = emit (capset CAPSET_TYPE_INPUT (input_body c)) s"
  unfolding rdp_write_input_capability_set_def input_body_def
  by (auto simp: wire set_start Let_def le16_def le32_def or.assoc simp flip: set_finish)

definition font_body :: "capSettings \<Rightarrow> u8 list" where
  "font_body c = le16 FONTSUPPORT_FONTLIST @ le16 (0 :: u16)"

lemma write_font:
  "rdp_write_font_capability_set s c = emit (capset CAPSET_TYPE_FONT (font_body c)) s"
  unfolding rdp_write_font_capability_set_def font_body_def
  by (auto simp: wire set_start Let_def le16_def le32_def or.assoc simp flip: set_finish)

definition brush_body :: "capSettings \<Rightarrow> u8 list" where
  "brush_body c = le32 BRUSH_COLOR_FULL"

lemma write_brush:
  "rdp_write_brush_capability_set s c = emit (capset CAPSET_TYPE_BRUSH (brush_body c)) s"
  unfolding rdp_write_brush_capability_set_def brush_body_def
  by (auto simp: wire set_start Let_def le16_def le32_def or.assoc simp flip: set_finish)

lemma take_nths: "n \<le> length xs \<Longrightarrow> take n xs = map ((!) xs) [0..<n]"
  by (intro nth_equalityI) simp_all

lemma upto_5_10: "[0..<5] = [0, 1, 2, 3, 4]" "[0..<10] = [0, 1, 2, 3, 4, 5, 6, 7, 8, 9]"
  by (simp_all add: upt_rec)

lemma write_cache_definition [wire]:
  "rdp_write_cache_definition s d = emit (le16 (cacheEntries d) @ le16 (cacheMaximumCellSize d)) s"
  by (simp add: rdp_write_cache_definition_def wire le16_def)

lemma write_glyph_cache_entry [wire]:
  "i < length (cs_glyphCache c) \<Longrightarrow> write_glyph_cache s c i =
     emit (le16 (cacheEntries (cs_glyphCache c ! i)) @ le16 (cacheMaximumCellSize (cs_glyphCache c ! i))) s"
  by (simp add: write_glyph_cache_def elem_at_def wire)

lemma write_cell_info_entry [wire]:
  "i < length (cs_bitmapCacheV2CellInfo c) \<Longrightarrow> write_cell_info s c i =
     emit (le32 (numEntries (cs_bitmapCacheV2CellInfo c ! i)
       OR push_bit 31 (of_bool (persistent (cs_bitmapCacheV2CellInfo c ! i))))) s"
  by (simp add: write_cell_info_def elem_at_def rdp_write_bitmap_cache_cell_info_def wire le32_def)

definition glyph_cache_body :: "capSettings \<Rightarrow> u8 list" where
  "glyph_cache_body c = concat (map (\<lambda>d. le16 (cacheEntries d) @ le16 (cacheMaximumCellSize d)) (take 10 (cs_glyphCache c) @ [cs_fragCache c]))
     @ le16 (cs_glyphSupportLevel c) @ le16 (0 :: u16)"

lemma write_glyph_cache:
  "10 \<le> length (cs_glyphCache c) \<Longrightarrow>
   rdp_write_glyph_cache_capability_set s c = emit (capset CAPSET_TYPE_GLYPH_CACHE (glyph_cache_body c)) s"
  unfolding rdp_write_glyph_cache_capability_set_def glyph_cache_body_def
  by (cases "cs_glyphCache c = []")
    (simp_all add: wire set_start Let_def le16_def le32_def or.assoc take_nths upto_5_10 flip: set_finish)

definition offscreen_bitmap_cache_body :: "capSettings \<Rightarrow> u8 list" where
  "offscreen_bitmap_cache_body c = le32 (of_bool (cs_offscreen_bitmap_cache c) :: u32) @ le16 (cs_offscreen_bitmap_cache_size c)
     @ le16 (cs_offscreen_bitmap_cache_entries c)"

lemma write_offscreen_bitmap_cache:
  "rdp_write_offscreen_bitmap_cache_capability_set s c = emit (capset CAPSET_TYPE_OFFSCREEN_CACHE (offscreen_bitmap_cache_body c)) s"
  unfolding rdp_write_offscreen_bitmap_cache_capability_set_def offscreen_bitmap_cache_body_def
  by (auto simp: wire set_start Let_def le16_def le32_def or.assoc simp flip: set_finish)

definition bitmap_cache_host_support_body :: "capSettings \<Rightarrow> u8 list" where
  "bitmap_cache_host_support_body c = [BITMAP_CACHE_V2, 0, 0, 0]"

lemma write_bitmap_cache_host_support:
  "rdp_write_bitmap_cache_host_support_capability_set s c = emit (capset CAPSET_TYPE_BITMAP_CACHE_HOST_SUPPORT (bitmap_cache_host_support_body c)) s"
  unfolding rdp_write_bitmap_cache_host_support_capability_set_def bitmap_cache_host_support_body_def
  by (auto simp: wire set_start Let_def le16_def le32_def or.assoc simp flip: set_finish)

definition bitmap_cache_v2_body :: "capSettings \<Rightarrow> u8 list" where
  "bitmap_cache_v2_body c = le16 (ALLOW_CACHE_WAITING_LIST_FLAG OR (if cs_persistent_bitmap_cache c then PERSISTENT_KEYS_EXPECTED_FLAG else 0))
     @ [0, octet 0 (cs_bitmapCacheV2NumCells c)]
     @ concat (map (\<lambda>d. le32 (numEntries d OR push_bit 31 (of_bool (persistent d)))) (take 5 (cs_bitmapCacheV2CellInfo c)))
     @ replicate 12 0"

lemma write_bitmap_cache_v2:
  "5 \<le> length (cs_bitmapCacheV2CellInfo c) \<Longrightarrow>
   rdp_write_bitmap_cache_v2_capability_set s c = emit (capset CAPSET_TYPE_BITMAP_CACHE_V2 (bitmap_cache_v2_body c)) s"
  unfolding rdp_write_bitmap_cache_v2_capability_set_def bitmap_cache_v2_body_def
  by (cases "cs_bitmapCacheV2CellInfo c = []"; cases "cs_persistent_bitmap_cache c")
    (simp_all add: wire set_start Let_def le16_def le32_def or.assoc take_nths upto_5_10 flip: set_finish)

definition virtual_channel_body :: "capSettings \<Rightarrow> u8 list" where
  "virtual_channel_body c = le32 (if cs_server_mode c then VCCAPS_COMPR_CS_8K else VCCAPS_NO_COMPR) @ le32 (cs_vc_chunk_size c)"

lemma write_virtual_channel:
  "rdp_write_virtual_channel_capability_set s c = emit (capset CAPSET_TYPE_VIRTUAL_CHANNEL (virtual_channel_body c)) s"
  unfolding rdp_write_virtual_channel_capability_set_def virtual_channel_body_def
  by (auto simp: wire set_start Let_def le16_def le32_def or.assoc simp flip: set_finish)

definition draw_nine_grid_cache_body :: "capSettings \<Rightarrow> u8 list" where
  "draw_nine_grid_cache_body c = le32 (if cs_draw_nine_grid c then DRAW_NINEGRID_SUPPORTED else DRAW_NINEGRID_NO_SUPPORT)
     @ le16 (cs_draw_nine_grid_cache_size c) @ le16 (cs_draw_nine_grid_cache_entries c)"

lemma write_draw_nine_grid_cache:
  "rdp_write_draw_nine_grid_cache_capability_set s c = emit (capset CAPSET_TYPE_DRAW_NINE_GRID_CACHE (draw_nine_grid_cache_body c)) s"
  unfolding rdp_write_draw_nine_grid_cache_capability_set_def draw_nine_grid_cache_body_def
  by (auto simp: wire set_start Let_def le16_def le32_def or.assoc simp flip: set_finish)

definition remote_programs_body :: "capSettings \<Rightarrow> u8 list" where
  "remote_programs_body c = le32 (RAIL_LEVEL_SUPPORTED OR (if cs_rail_langbar_supported c then RAIL_LEVEL_DOCKED_LANGBAR_SUPPORTED else 0))"

lemma write_remote_programs:
  "rdp_write_remote_programs_capability_set s c = emit (capset CAPSET_TYPE_RAIL (remote_programs_body c)) s"
  unfolding rdp_write_remote_programs_capability_set_def remote_programs_body_def
  by (auto simp: wire set_start Let_def le16_def le32_def or.assoc simp flip: set_finish)

definition window_list_body :: "capSettings \<Rightarrow> u8 list" where
  "window_list_body c = le32 WINDOW_LEVEL_SUPPORTED_EX @ [octet 0 (cs_num_icon_caches c)] @ le16 (cs_num_icon_cache_entries c)"

lemma write_window_list:
  "rdp_write_window_list_capability_set s c = emit (capset CAPSET_TYPE_WINDOW (window_list_body c)) s"
  unfolding rdp_write_window_list_capability_set_def window_list_body_def
  by (auto simp: wire set_start Let_def le16_def le32_def or.assoc simp flip: set_finish)

definition desktop_composition_body :: "capSettings \<Rightarrow> u8 list" where
  "desktop_composition_body c = le16 (if cs_desktop_composition c then COMPDESK_SUPPORTED else COMPDESK_NOT_SUPPORTED)"

lemma write_desktop_composition:
  "rdp_write_desktop_composition_capability_set s c = emit (capset CAPSET_TYPE_COMP_DESK (desktop_composition_body c)) s"
  unfolding rdp_write_desktop_composition_capability_set_def desktop_composition_body_def
  by (auto simp: wire set_start Let_def le16_def le32_def or.assoc simp flip: set_finish)

definition multifragment_update_body :: "capSettings \<Rightarrow> u8 list" where
  "multifragment_update_body c = le32 (cs_multifrag_max_request_size c)"

lemma write_multifragment_update:
  "rdp_write_multifragment_update_capability_set s c = emit (capset CAPSET_TYPE_MULTI_FRAGMENT_UPDATE (multifragment_update_body c)) s"
  unfolding rdp_write_multifragment_update_capability_set_def multifragment_update_body_def
  by (auto simp: wire set_start Let_def le16_def le32_def or.assoc simp flip: set_finish)

definition large_pointer_body :: "capSettings \<Rightarrow> u8 list" where
  "large_pointer_body c = le16 (if cs_large_pointer c then LARGE_POINTER_FLAG_96x96 else 0)"

lemma write_large_pointer:
  "rdp_write_large_pointer_capability_set s c = emit (capset CAPSET_TYPE_LARGE_POINTER (large_pointer_body c)) s"
  unfolding rdp_write_large_pointer_capability_set_def large_pointer_body_def
  by (auto simp: wire set_start Let_def le16_def le32_def or.assoc simp flip: set_finish)

definition surface_commands_body :: "capSettings \<Rightarrow> u8 list" where
  "surface_commands_body c = le32 (SURFCMDS_FRAME_MARKER OR SURFCMDS_SET_SURFACE_BITS OR SURFCMDS_STREAM_SURFACE_BITS) @ le32 (0 :: u32)"

lemma write_surface_commands:
  "rdp_write_surface_commands_capability_set s c = emit (capset CAPSET_TYPE_SURFACE_COMMANDS (surface_commands_body c)) s"
  unfolding rdp_write_surface_commands_capability_set_def surface_commands_body_def
  by (auto simp: wire set_start Let_def le16_def le32_def or.assoc simp flip: set_finish)

definition frame_acknowledge_body :: "capSettings \<Rightarrow> u8 list" where
  "frame_acknowledge_body c = le32 (2 :: u32)"

lemma write_frame_acknowledge:
  "rdp_write_frame_acknowledge_capability_set s c = emit (capset CAPSET_TYPE_FRAME_ACKNOWLEDGE (frame_acknowledge_body c)) s"
  unfolding rdp_write_frame_acknowledge_capability_set_def frame_acknowledge_body_def
  by (auto simp: wire set_start Let_def le16_def le32_def or.assoc simp flip: set_finish)


lemma gdiplus_emit [wire]:
  "rdp_write_gdiplus_cache_entries s gce bce pce ice ace = emit (le16 gce @ le16 bce @ le16 pce @ le16 ice @ le16 ace) s"
  "rdp_write_gdiplus_cache_chunk_size s gccs obccs opccs oiaccs = emit (le16 gccs @ le16 obccs @ le16 opccs @ le16 oiaccs) s"
  "rdp_write_gdiplus_image_cache_properties s oiccs oicts oicms = emit (le16 oiccs @ le16 oicts @ le16 oicms) s"
  by (simp_all add: rdp_write_gdiplus_cache_entries_def rdp_write_gdiplus_cache_chunk_size_def
      rdp_write_gdiplus_image_cache_properties_def wire le16_def)

definition draw_gdiplus_cache_body :: "capSettings \<Rightarrow> u8 list" where
  "draw_gdiplus_cache_body c =
     le32 (if cs_draw_gdi_plus c then DRAW_GDIPLUS_SUPPORTED else DRAW_GDIPLUS_DEFAULT) @ le32 (0 :: u32)
     @ le32 (if cs_draw_gdi_plus c then DRAW_GDIPLUS_CACHE_LEVEL_ONE else DRAW_GDIPLUS_CACHE_LEVEL_DEFAULT)
     @ concat (map le16 [10, 5, 5, 10, 2 :: u16]) @ concat (map le16 [512, 2048, 1024, 64 :: u16])
     @ concat (map le16 [4096, 256, 128 :: u16])"

lemma write_draw_gdiplus_cache:
  "rdp_write_draw_gdiplus_cache_capability_set s c = emit (capset CAPSET_TYPE_DRAW_GDI_PLUS (draw_gdiplus_cache_body c)) s"
  unfolding rdp_write_draw_gdiplus_cache_capability_set_def draw_gdiplus_cache_body_def
  by (simp add: wire set_start Let_def le16_def le32_def flip: set_finish)

definition v3_codec_body :: "capSettings \<Rightarrow> u8 list" where
  "v3_codec_body c = [octet 0 (cs_v3_codec_id c)]"

lemma write_v3_codec:
  "rdp_write_bitmap_cache_v3_codec_id_capability_set s c = emit (capset 6 (v3_codec_body c)) s"
  unfolding rdp_write_bitmap_cache_v3_codec_id_capability_set_def v3_codec_body_def
  by (simp add: wire set_start Let_def flip: set_finish)

text \<open>A codec: its identifier, the number the client gives it, its properties with their length.\<close>

definition codec_entry :: "u8 list \<Rightarrow> u8 \<Rightarrow> u8 list \<Rightarrow> u8 list" where
  "codec_entry guid n props = guid @ [n] @ le16 (of_nat (length props) :: u16) @ props"

definition rfx_icap :: "capSettings \<Rightarrow> u8 \<Rightarrow> u8 list" where
  "rfx_icap c entropy = le16 CLW_VERSION_1_0 @ le16 CT_TILE_64x64
     @ [ucast (cs_rfx_codec_mode c), CLW_COL_CONV_ICT, CLW_XFORM_DWT_53_A, entropy]"

definition rfx_properties :: "capSettings \<Rightarrow> u8 list" where
  "rfx_properties c = (if cs_server_mode c then le32 (0 :: u32)
     else le32 (49 :: u32) @ le32 (if cs_dump_rfx c then 0 else CARDP_CAPS_CAPTURE_NON_CAC) @ le32 (37 :: u32)
       @ le16 CBY_CAPS @ le32 (8 :: u32) @ le16 (1 :: u16)
       @ le16 CBY_CAPSET @ le32 (29 :: u32) @ [1] @ le16 CLY_CAPSET @ le16 (2 :: u16) @ le16 (8 :: u16)
       @ rfx_icap c CLW_ENTROPY_RLGR1 @ rfx_icap c CLW_ENTROPY_RLGR3)"

definition nsc_properties :: "capSettings \<Rightarrow> u8 list" where
  "nsc_properties c = (if cs_server_mode c then le32 (0 :: u32) else [1, 1, 3])"

definition jpeg_properties :: "capSettings \<Rightarrow> u8 list" where
  "jpeg_properties c = [if cs_server_mode c then 75 else octet 0 (cs_jpeg_quality c)]"

definition bitmap_codecs_body :: "capSettings \<Rightarrow> u8 list" where
  "bitmap_codecs_body c = [of_bool (cs_rfx_codec c) + of_bool (cs_ns_codec c) + of_bool (cs_jpeg_codec c)]
     @ (if cs_rfx_codec c then codec_entry CODEC_GUID_REMOTEFX (if cs_server_mode c then 0 else CODEC_ID_REMOTEFX) (rfx_properties c)
        else [])
     @ (if cs_ns_codec c then codec_entry CODEC_GUID_NSCODEC (if cs_server_mode c then 0 else CODEC_ID_NSCODEC) (nsc_properties c)
        else [])
     @ (if cs_jpeg_codec c then codec_entry CODEC_GUID_JPEG (if cs_server_mode c then 0 else CODEC_ID_JPEG) (jpeg_properties c)
        else [])"

lemma length_properties:
  "length (rfx_properties c) = (if cs_server_mode c then 4 else 49)"
  "length (nsc_properties c) = (if cs_server_mode c then 4 else 3)"
  "length (jpeg_properties c) = 1"
  by (simp_all add: rfx_properties_def nsc_properties_def jpeg_properties_def rfx_icap_def)

lemma client_containers [wire]:
  "\<not> cs_server_mode c \<Longrightarrow> rdp_write_rfx_client_capability_container s c = emit (le16 (49 :: u16) @ rfx_properties c) s"
  "\<not> cs_server_mode c \<Longrightarrow> rdp_write_nsc_client_capability_container s c = emit (le16 (3 :: u16) @ nsc_properties c) s"
  "\<not> cs_server_mode c \<Longrightarrow> rdp_write_jpeg_client_capability_container s c = emit (le16 (1 :: u16) @ jpeg_properties c) s"
  by (simp_all add: rdp_write_rfx_client_capability_container_def rdp_write_nsc_client_capability_container_def
      rdp_write_jpeg_client_capability_container_def wire Let_def le16_def le32_def
      rfx_properties_def nsc_properties_def jpeg_properties_def rfx_icap_def)

lemma server_containers [wire]:
  "cs_server_mode c \<Longrightarrow> rdp_write_rfx_server_capability_container s c = emit (le16 (4 :: u16) @ rfx_properties c) s"
  "cs_server_mode c \<Longrightarrow> rdp_write_nsc_server_capability_container s c = emit (le16 (4 :: u16) @ nsc_properties c) s"
  "cs_server_mode c \<Longrightarrow> rdp_write_jpeg_server_capability_container s c = emit (le16 (1 :: u16) @ jpeg_properties c) s"
  by (simp_all add: rdp_write_rfx_server_capability_container_def rdp_write_nsc_server_capability_container_def
      rdp_write_jpeg_server_capability_container_def wire Let_def le16_def le32_def
      rfx_properties_def nsc_properties_def jpeg_properties_def)

lemma length_guids [simp]:
  "length CODEC_GUID_REMOTEFX = 16" "length CODEC_GUID_NSCODEC = 16" "length CODEC_GUID_JPEG = 16"
  by (simp_all add: cap_bytes)

lemma write_bitmap_codecs:
  "rdp_write_bitmap_codecs_capability_set s c = emit (capset CAPSET_TYPE_BITMAP_CODECS (bitmap_codecs_body c)) s"
  unfolding rdp_write_bitmap_codecs_capability_set_def bitmap_codecs_body_def
  by (cases "cs_rfx_codec c"; cases "cs_ns_codec c"; cases "cs_jpeg_codec c"; cases "cs_server_mode c")
    (simp_all add: wire set_start Let_def codec_entry_def length_properties flip: set_finish)

end
