(* ===== verification/Capability_Readers.thy ===== *)
theory Capability_Readers
  imports Capability_Bodies
begin

text \<open>
  What the readers of \<^verbatim>\<open>capabilities.c\<close> make of the bodies the writers produce. The writer's settings are
  \<open>c\<close>, the reader's \<open>st\<close>; the reader may be the server or the client.
\<close>

section \<open>One lemma per reader\<close>

text \<open>Fields of a body are read, or skipped, one by one.\<close>

named_theorems fields

lemma read_le16 [fields]: "stream_read_uint16 (stm pre (le16 w @ rst) sz) = Some (ucast w, stm (pre @ le16 w) rst sz)"
  by (simp add: le16_def wire join16)

lemma read_le32 [fields]: "stream_read_uint32 (stm pre (le32 w @ rst) sz) = Some (w :: u32, stm (pre @ le32 w) rst sz)"
  by (simp add: le32_def wire join_u32)

lemma seek_fields [fields]:
  "stream_seek s 0 = s"
  "2 \<le> n \<Longrightarrow> stream_seek (stm pre (le16 w @ rst) sz) n = stream_seek (stm (pre @ le16 w) rst sz) (n - 2)"
  "4 \<le> n \<Longrightarrow> stream_seek (stm pre (le32 v @ rst) sz) n = stream_seek (stm (pre @ le32 v) rst sz) (n - 4)"
  "1 \<le> n \<Longrightarrow> stream_seek (stm pre (b # rst) sz) n = stream_seek (stm (pre @ [b]) rst sz) (n - 1)"
  "int k \<le> n \<Longrightarrow> stream_seek (stm pre (replicate k b @ rst) sz) n = stream_seek (stm (pre @ replicate k b) rst sz) (n - int k)"
  by (simp_all add: stm_def stream_seek_def)

lemmas read_fields = fields stream_read_uint8_stm

definition general_effect :: "capSettings \<Rightarrow> capSettings \<Rightarrow> capSettings" where
  "general_effect c st =
     (if cs_server_mode st
      then st\<lparr>cs_os_major_type := ucast (ucast (cs_os_major_type c) :: u16), cs_os_minor_type := ucast (ucast (cs_os_minor_type c) :: u16)\<rparr>
      else st)
     \<lparr>cs_fastpath_output := cs_fastpath_output st \<and> cs_fastpath_output c,
      cs_refresh_rect := cs_refresh_rect st \<and> cs_refresh_rect c \<and> \<not> cs_server_mode c,
      cs_suppress_output := cs_suppress_output st \<and> cs_suppress_output c \<and> \<not> cs_server_mode c\<rparr>"

lemma read_general:
  "rdp_read_general_capability_set (stm pre (general_body c @ rst) sz) len st
     = Some (general_effect c st, stm (pre @ general_body c) rst sz)"
  unfolding rdp_read_general_capability_set_def general_body_def general_effect_def
  by (cases "cs_server_mode st"; cases "cs_server_mode c"; cases "cs_fastpath_output c"; cases "cs_auto_reconnection c";
      cases "cs_refresh_rect c"; cases "cs_suppress_output c")
    (simp_all add: read_fields Let_def cap_consts)

abbreviation low16 :: "u32 \<Rightarrow> u32" where
  "low16 w \<equiv> ucast (ucast w :: u16)"

definition announced_depth :: "capSettings \<Rightarrow> u16" where
  "announced_depth c = (if cs_rdp_version c > 5 then ucast (cs_color_depth c) else 8)"

definition bitmap_effect :: "capSettings \<Rightarrow> capSettings \<Rightarrow> capSettings" where
  "bitmap_effect c st =
     (if cs_server_mode st then st
      else if cs_desktop_resize st \<and> cs_desktop_resize c
      then st\<lparr>cs_color_depth := ucast (announced_depth c), cs_width := low16 (cs_width c), cs_height := low16 (cs_height c)\<rparr>
      else st\<lparr>cs_color_depth := ucast (announced_depth c)\<rparr>)
     \<lparr>cs_desktop_resize := cs_desktop_resize st \<and> cs_desktop_resize c\<rparr>"

lemma read_bitmap:
  "rdp_read_bitmap_capability_set (stm pre (bitmap_body c @ rst) sz) len st
     = Some (bitmap_effect c st, stm (pre @ bitmap_body c) rst sz)"
  unfolding rdp_read_bitmap_capability_set_def bitmap_body_def bitmap_effect_def announced_depth_def [symmetric]
  by (cases "cs_server_mode st"; cases "cs_desktop_resize st"; cases "cs_desktop_resize c";
      cases "ucast (announced_depth c) = cs_color_depth st")
    (simp_all add: read_fields Let_def)

definition order_effect :: "capSettings \<Rightarrow> capSettings \<Rightarrow> capSettings" where
  "order_effect c st = st\<lparr>cs_order_support :=
     map2 (\<lambda>b v. if b = 0 then 0 else v) (take 32 (cs_order_support c)) (cs_order_support st)\<rparr>"

lemma read_bytes: "n = int (length bs) \<Longrightarrow> stream_read (stm pre (bs @ rst) sz) n = Some (bs, stm (pre @ bs) rst sz)"
  by (simp add: stream_read_stm)

lemma read_order:
  "32 \<le> length (cs_order_support c) \<Longrightarrow> rdp_read_order_capability_set (stm pre (order_body c @ rst) sz) len st
     = Some (order_effect c st, stm (pre @ order_body c) rst sz)"
  unfolding rdp_read_order_capability_set_def order_body_def order_effect_def
  by (simp add: read_fields read_bytes Let_def)

definition pointer_effect :: "capSettings \<Rightarrow> u16 \<Rightarrow> capSettings \<Rightarrow> capSettings" where
  "pointer_effect c n st =
     (if cs_server_mode st then st\<lparr>cs_pointer_cache_size := ucast n\<rparr> else st)
     \<lparr>cs_color_pointer := cs_color_pointer st \<and> cs_color_pointer c\<rparr>"

lemma read_pointer:
  "cs_large_pointer c \<Longrightarrow> rdp_read_pointer_capability_set (stm pre (pointer_body c @ rst) sz) len st
     = Some (pointer_effect c (ucast (cs_pointer_cache_size c)) st, stm (pre @ pointer_body c) rst sz)"
  unfolding rdp_read_pointer_capability_set_def pointer_body_def pointer_effect_def
  by (cases "cs_server_mode st"; cases "cs_color_pointer c") (simp_all add: read_fields Let_def)

text \<open>
  A client without large pointers writes no \<open>pointerCacheSize\<close>; the reader takes the first field of the
  next set for it.
\<close>

lemma read_short_pointer:
  "\<not> cs_large_pointer c \<Longrightarrow> rdp_read_pointer_capability_set (stm pre (pointer_body c @ le16 T @ rst) sz) len st
     = Some (pointer_effect c (ucast T) st, stm (pre @ pointer_body c @ le16 T) rst sz)"
  unfolding rdp_read_pointer_capability_set_def pointer_body_def pointer_effect_def
  by (cases "cs_server_mode st"; cases "cs_color_pointer c") (simp_all add: read_fields Let_def)

definition input_effect :: "capSettings \<Rightarrow> capSettings \<Rightarrow> capSettings" where
  "input_effect c st =
     (if cs_server_mode st
      then st\<lparr>cs_kbd_layout := cs_kbd_layout c, cs_kbd_type := cs_kbd_type c, cs_kbd_subtype := cs_kbd_subtype c,
             cs_kbd_fn_keys := cs_kbd_fn_keys c\<rparr>
      else st\<lparr>cs_fastpath_input := cs_fastpath_input st \<and> cs_fastpath_input c\<rparr>)"

lemma read_input:
  "rdp_read_input_capability_set (stm pre (input_body c @ rst) sz) len st
     = Some (input_effect c st, stm (pre @ input_body c) rst sz)"
  unfolding rdp_read_input_capability_set_def input_body_def input_effect_def
  by (cases "cs_server_mode st"; cases "cs_fastpath_input c") (simp_all add: read_fields Let_def cap_consts)

definition sound_effect :: "capSettings \<Rightarrow> capSettings \<Rightarrow> capSettings" where
  "sound_effect c st = st\<lparr>cs_sound_beeps := cs_sound_beeps c\<rparr>"

lemma read_sound:
  "rdp_read_sound_capability_set (stm pre (sound_body c @ rst) sz) len st
     = Some (sound_effect c st, stm (pre @ sound_body c) rst sz)"
  unfolding rdp_read_sound_capability_set_def sound_body_def sound_effect_def
  by (cases "cs_sound_beeps c") (simp_all add: read_fields Let_def cap_consts)

definition glyph_cache_effect :: "capSettings \<Rightarrow> capSettings \<Rightarrow> capSettings" where
  "glyph_cache_effect c st = st\<lparr>cs_glyphSupportLevel := low16 (cs_glyphSupportLevel c)\<rparr>"

lemma read_glyph_cache:
  "10 \<le> length (cs_glyphCache c) \<Longrightarrow> rdp_read_glyph_cache_capability_set (stm pre (glyph_cache_body c @ rst) sz) len st
     = Some (glyph_cache_effect c st, stm (pre @ glyph_cache_body c) rst sz)"
  unfolding rdp_read_glyph_cache_capability_set_def glyph_cache_body_def glyph_cache_effect_def
  by (simp add: read_fields Let_def take_nths upto_5_10)

definition offscreen_effect :: "capSettings \<Rightarrow> capSettings \<Rightarrow> capSettings" where
  "offscreen_effect c st = st\<lparr>cs_offscreen_bitmap_cache_size := low16 (cs_offscreen_bitmap_cache_size c),
     cs_offscreen_bitmap_cache_entries := low16 (cs_offscreen_bitmap_cache_entries c),
     cs_offscreen_bitmap_cache := cs_offscreen_bitmap_cache st \<or> cs_offscreen_bitmap_cache c\<rparr>"

lemma read_offscreen:
  "rdp_read_offscreen_bitmap_cache_capability_set (stm pre (offscreen_bitmap_cache_body c @ rst) sz) len st
     = Some (offscreen_effect c st, stm (pre @ offscreen_bitmap_cache_body c) rst sz)"
  unfolding rdp_read_offscreen_bitmap_cache_capability_set_def offscreen_bitmap_cache_body_def offscreen_effect_def
  by (cases "cs_offscreen_bitmap_cache c") (simp_all add: read_fields Let_def)

definition host_support_effect :: "capSettings \<Rightarrow> capSettings" where
  "host_support_effect st = st\<lparr>cs_persistent_bitmap_cache := True\<rparr>"

lemma read_host_support:
  "rdp_read_bitmap_cache_host_support_capability_set (stm pre (bitmap_cache_host_support_body c @ rst) sz) len st
     = Some (host_support_effect st, stm (pre @ bitmap_cache_host_support_body c) rst sz)"
  unfolding rdp_read_bitmap_cache_host_support_capability_set_def bitmap_cache_host_support_body_def host_support_effect_def
  by (simp add: read_fields Let_def cap_consts)

definition virtual_channel_effect :: "capSettings \<Rightarrow> capSettings \<Rightarrow> capSettings" where
  "virtual_channel_effect c st = (if cs_server_mode st then st else st\<lparr>cs_vc_chunk_size := cs_vc_chunk_size c\<rparr>)"

lemma read_virtual_channel:
  "8 < len \<Longrightarrow> rdp_read_virtual_channel_capability_set (stm pre (virtual_channel_body c @ rst) sz) len st
     = Some (virtual_channel_effect c st, stm (pre @ virtual_channel_body c) rst sz)"
  unfolding rdp_read_virtual_channel_capability_set_def virtual_channel_body_def virtual_channel_effect_def
  by (cases "cs_server_mode st") (simp_all add: read_fields Let_def)

lemma read_remote_programs:
  "rdp_read_remote_programs_capability_set (stm pre (remote_programs_body c @ rst) sz) len st
     = Some (st, stm (pre @ remote_programs_body c) rst sz)"
  unfolding rdp_read_remote_programs_capability_set_def remote_programs_body_def
  by (cases "cs_rail_langbar_supported c") (simp_all add: read_fields Let_def cap_consts)

definition multifrag_effect :: "capSettings \<Rightarrow> capSettings \<Rightarrow> capSettings" where
  "multifrag_effect c st = st\<lparr>cs_multifrag_max_request_size := cs_multifrag_max_request_size c\<rparr>"

lemma read_multifragment_update:
  "rdp_read_multifragment_update_capability_set (stm pre (multifragment_update_body c @ rst) sz) len st
     = Some (multifrag_effect c st, stm (pre @ multifragment_update_body c) rst sz)"
  unfolding rdp_read_multifragment_update_capability_set_def multifragment_update_body_def multifrag_effect_def
  by (simp add: read_fields)

definition surface_effect :: "capSettings \<Rightarrow> capSettings" where
  "surface_effect st = st\<lparr>cs_surface_commands := True\<rparr>"

lemma read_surface_commands:
  "rdp_read_surface_commands_capability_set (stm pre (surface_commands_body c @ rst) sz) len st
     = Some (surface_effect st, stm (pre @ surface_commands_body c) rst sz)"
  unfolding rdp_read_surface_commands_capability_set_def surface_commands_body_def surface_effect_def
  by (simp add: read_fields Let_def)

text \<open>The readers that only skip their set.\<close>

lemma read_bitmap_cache:
  "rdp_read_bitmap_cache_capability_set (stm pre (bitmap_cache_body c @ rst) sz) len st = Some (st, stm (pre @ bitmap_cache_body c) rst sz)"
  by (simp add: rdp_read_bitmap_cache_capability_set_def bitmap_cache_body_def read_fields Let_def)

lemma read_control:
  "rdp_read_control_capability_set (stm pre (control_body c @ rst) sz) len st = Some (st, stm (pre @ control_body c) rst sz)"
  by (simp add: rdp_read_control_capability_set_def control_body_def read_fields Let_def)

lemma read_window_activation:
  "rdp_read_window_activation_capability_set (stm pre (window_activation_body c @ rst) sz) len st = Some (st, stm (pre @ window_activation_body c) rst sz)"
  by (simp add: rdp_read_window_activation_capability_set_def window_activation_body_def read_fields Let_def)

lemma read_share:
  "rdp_read_share_capability_set (stm pre (share_body c @ rst) sz) len st = Some (st, stm (pre @ share_body c) rst sz)"
  by (simp add: rdp_read_share_capability_set_def share_body_def read_fields Let_def)

lemma read_color_cache:
  "rdp_read_color_cache_capability_set (stm pre (color_cache_body c @ rst) sz) len st = Some (st, stm (pre @ color_cache_body c) rst sz)"
  by (simp add: rdp_read_color_cache_capability_set_def color_cache_body_def read_fields Let_def)

lemma read_brush:
  "rdp_read_brush_capability_set (stm pre (brush_body c @ rst) sz) len st = Some (st, stm (pre @ brush_body c) rst sz)"
  by (simp add: rdp_read_brush_capability_set_def brush_body_def read_fields Let_def)

lemma read_window_list:
  "rdp_read_window_list_capability_set (stm pre (window_list_body c @ rst) sz) len st = Some (st, stm (pre @ window_list_body c) rst sz)"
  by (simp add: rdp_read_window_list_capability_set_def window_list_body_def read_fields Let_def)

lemma read_desktop_composition:
  "rdp_read_desktop_composition_capability_set (stm pre (desktop_composition_body c @ rst) sz) len st = Some (st, stm (pre @ desktop_composition_body c) rst sz)"
  by (simp add: rdp_read_desktop_composition_capability_set_def desktop_composition_body_def read_fields Let_def)

lemma read_large_pointer:
  "rdp_read_large_pointer_capability_set (stm pre (large_pointer_body c @ rst) sz) len st = Some (st, stm (pre @ large_pointer_body c) rst sz)"
  by (simp add: rdp_read_large_pointer_capability_set_def large_pointer_body_def read_fields Let_def)

lemma read_frame_acknowledge:
  "rdp_read_frame_acknowledge_capability_set (stm pre (frame_acknowledge_body c @ rst) sz) len st = Some (st, stm (pre @ frame_acknowledge_body c) rst sz)"
  by (simp add: rdp_read_frame_acknowledge_capability_set_def frame_acknowledge_body_def read_fields Let_def)

lemma read_bitmap_cache_v2:
  "5 \<le> length (cs_bitmapCacheV2CellInfo c) \<Longrightarrow>
   rdp_read_bitmap_cache_v2_capability_set (stm pre (bitmap_cache_v2_body c @ rst) sz) len st
     = Some (st, stm (pre @ bitmap_cache_v2_body c) rst sz)"
  by (simp add: rdp_read_bitmap_cache_v2_capability_set_def bitmap_cache_v2_body_def read_fields Let_def take_nths upto_5_10)

lemma read_font:
  "4 < len \<Longrightarrow> 6 < len \<Longrightarrow>
   rdp_read_font_capability_set (stm pre (font_body c @ rst) sz) len st = Some (st, stm (pre @ font_body c) rst sz)"
  by (simp add: rdp_read_font_capability_set_def font_body_def read_fields Let_def)

lemma read_v3_codec:
  "rdp_read_bitmap_cache_v3_codec_id_capability_set (stm pre (v3_codec_body c @ rst) sz) len st
     = Some (st, stm (pre @ v3_codec_body c) rst sz)"
  by (simp add: rdp_read_bitmap_cache_v3_codec_id_capability_set_def v3_codec_body_def read_fields Let_def)


section \<open>The bitmap codecs\<close>

text \<open>Comparing two byte strings the way \<open>strncmp\<close> does.\<close>

fun bytes_match :: "u8 list \<Rightarrow> u8 list \<Rightarrow> bool" where
  "bytes_match (a # as) (g # gs) \<longleftrightarrow> a = g \<and> (g = 0 \<or> bytes_match as gs)"
| "bytes_match as gs \<longleftrightarrow> True"

lemma strncmp_equal_stm:
  "length as = length gs \<Longrightarrow>
   strncmp_equal (stm pre (done' @ as @ rst) sz) (int (length done')) gs = Some (bytes_match as gs)"
proof (induction as gs arbitrary: done' rule: bytes_match.induct)
  case (1 a as g gs)
  have b: "byte_at (stm pre (done' @ a # as @ rst) sz) (int (length done')) = Some a"
    by (simp add: byte_at_stm nat_add_distrib nth_append)
  show ?case
  proof (cases "a = g \<and> g \<noteq> 0")
    case True
    then have "strncmp_equal (stm pre ((done' @ [a]) @ as @ rst) sz) (int (length (done' @ [a]))) gs = Some (bytes_match as gs)"
      using 1 by (intro 1(1)) auto
    then show ?thesis using True b by (simp add: add.commute)
  qed (use b in auto)
qed simp_all

lemma guids_differ:
  "bytes_match CODEC_GUID_REMOTEFX CODEC_GUID_REMOTEFX" "bytes_match CODEC_GUID_NSCODEC CODEC_GUID_NSCODEC"
  "\<not> bytes_match CODEC_GUID_NSCODEC CODEC_GUID_REMOTEFX" "\<not> bytes_match CODEC_GUID_JPEG CODEC_GUID_REMOTEFX"
  "\<not> bytes_match CODEC_GUID_JPEG CODEC_GUID_NSCODEC"
  by (simp_all add: cap_bytes)

lemma seek_append: "n = int (length bs) \<Longrightarrow> stream_seek (stm pre (bs @ rst) sz) n = stm (pre @ bs) rst sz"
  by (simp add: stm_def stream_seek_def)

definition codec_effect :: "u8 list \<Rightarrow> u8 \<Rightarrow> capSettings \<Rightarrow> capSettings" where
  "codec_effect guid n st =
     (if cs_server_mode st \<and> bytes_match guid CODEC_GUID_REMOTEFX then st\<lparr>cs_rfx_codec_id := ucast n, cs_rfx_codec := True\<rparr>
      else if cs_server_mode st \<and> bytes_match guid CODEC_GUID_NSCODEC then st\<lparr>cs_ns_codec_id := ucast n, cs_ns_codec := True\<rparr>
      else st)"

lemma read_codec_entry:
  assumes "length guid = 16" and "length props < 2 ^ 16"
  shows "read_bitmap_codec (stm pre (codec_entry guid n props @ rst) sz) st
    = Some (codec_effect guid n st, stm (pre @ codec_entry guid n props) rst sz)"
proof -
  let ?t = "n # le16 (of_nat (length props) :: u16) @ props @ rst"
  have c: "strncmp_equal (stm pre (guid @ ?t) sz) 0 CODEC_GUID_REMOTEFX = Some (bytes_match guid CODEC_GUID_REMOTEFX)"
    "strncmp_equal (stm pre (guid @ ?t) sz) 0 CODEC_GUID_NSCODEC = Some (bytes_match guid CODEC_GUID_NSCODEC)"
    using strncmp_equal_stm [of guid CODEC_GUID_REMOTEFX pre "[]" ?t sz]
      strncmp_equal_stm [of guid CODEC_GUID_NSCODEC pre "[]" ?t sz] assms(1) by simp_all
  have s: "stream_seek (stm pre (guid @ ?t) sz) 16 = stm (pre @ guid) ?t sz"
    "stream_seek (stm pre (guid @ ?t) sz) 17 = stm (pre @ guid @ [n]) (tl ?t) sz"
    using assms(1) seek_append [of 16 guid pre ?t sz] seek_append [of 17 "guid @ [n]" pre "tl ?t" sz] by simp_all
  have l: "uint (of_nat (length props) :: u16) = int (length props)"
    using assms(2) by (simp add: of_nat_inverse uint_nat)
  have p: "stream_seek (stm q (props @ rst) sz) (int (length props)) = stm (q @ props) rst sz" for q
    by (simp add: seek_append)
  show ?thesis
    unfolding read_bitmap_codec_def codec_entry_def codec_effect_def
    by (cases "cs_server_mode st"; cases "bytes_match guid CODEC_GUID_REMOTEFX"; cases "bytes_match guid CODEC_GUID_NSCODEC")
      (simp_all add: c s l p read_fields Let_def)
qed

lemma read_codecs_numeral:
  "read_bitmap_codecs (numeral n) s st = Option.bind (read_bitmap_codec s st) (\<lambda>(st, s). read_bitmap_codecs (pred_numeral n) s st)"
  by (simp add: numeral_eq_Suc)

definition codecs_effect :: "capSettings \<Rightarrow> capSettings \<Rightarrow> capSettings" where
  "codecs_effect c st =
     (if cs_server_mode st then st\<lparr>cs_rfx_codec := cs_rfx_codec c, cs_ns_codec := cs_ns_codec c,
        cs_rfx_codec_id := (if \<not> cs_rfx_codec c then cs_rfx_codec_id st else if cs_server_mode c then 0 else ucast CODEC_ID_REMOTEFX),
        cs_ns_codec_id := (if \<not> cs_ns_codec c then cs_ns_codec_id st else if cs_server_mode c then 0 else ucast CODEC_ID_NSCODEC)\<rparr>
      else st)"

lemma read_bitmap_codecs_set:
  "rdp_read_bitmap_codecs_capability_set (stm pre (bitmap_codecs_body c @ rst) sz) len st
     = Some (codecs_effect c st, stm (pre @ bitmap_codecs_body c) rst sz)"
  unfolding rdp_read_bitmap_codecs_capability_set_def bitmap_codecs_body_def codecs_effect_def
  by (cases "cs_rfx_codec c"; cases "cs_ns_codec c"; cases "cs_jpeg_codec c"; cases "cs_server_mode st")
    (simp_all add: read_fields Let_def read_codec_entry length_properties codec_effect_def guids_differ read_codecs_numeral)

end
