(* ===== verification/Capability_Exchange.thy ===== *)
theory Capability_Exchange
  imports Capability_Readers
begin

text \<open>
  The capability exchange end to end: the units \<open>rdp_write_confirm_active\<close> and \<open>rdp_write_demand_active\<close>
  compose are read back, set by set, by \<open>rdp_read_capability_sets\<close> on the other side.
\<close>

section \<open>Sequences of sets\<close>

text \<open>
  A set as the reader sees it: its type, its body and what it does to the settings. It is understood
  in front of \<open>rst\<close> if the reader for its type gets through the body without touching memory outside
  the stream and has that effect.
\<close>

type_synonym cap_set = "u16 \<times> u8 list \<times> (capSettings \<Rightarrow> capSettings)"

definition understood :: "bool \<Rightarrow> u16 \<Rightarrow> u8 list \<Rightarrow> (capSettings \<Rightarrow> capSettings) \<Rightarrow> u8 list \<Rightarrow> bool" where
  "understood m T b e rst \<longleftrightarrow> unat T < 32 \<and> length b < 60000
    \<and> (\<forall>pre sz st. cs_server_mode st = m \<longrightarrow>
        (\<exists>s'. read_capability_set T (stm pre (b @ rst) sz) (word_of_int (4 + int (length b))) st = Some (e st, s')
          \<and> s_size s' = sz \<and> s_data s' = pre @ b @ rst))
    \<and> (\<forall>st. cs_received_caps (e st) = cs_received_caps st \<and> cs_server_mode (e st) = cs_server_mode st)"

fun flat :: "cap_set list \<Rightarrow> u8 list" where
  "flat [] = []"
| "flat ((T, b, e) # l) = capset T b @ flat l"

fun understood_all :: "bool \<Rightarrow> cap_set list \<Rightarrow> u8 list \<Rightarrow> bool" where
  "understood_all m [] rst \<longleftrightarrow> True"
| "understood_all m ((T, b, e) # l) rst \<longleftrightarrow> understood m T b e (flat l @ rst) \<and> understood_all m l rst"

definition apply_set :: "cap_set \<Rightarrow> capSettings \<Rightarrow> capSettings" where
  "apply_set x st = (case x of (T, b, e) \<Rightarrow> e (st\<lparr>cs_received_caps := (cs_received_caps st)[unat T := True]\<rparr>))"

lemma flat_append [simp]: "flat (l @ m) = flat l @ flat m"
  by (induction l) auto

lemma understood_all_append [simp]:
  "understood_all m (l @ k) rst \<longleftrightarrow> understood_all m l (flat k @ rst) \<and> understood_all m k rst"
  by (induction l) auto

lemma read_set_header:
  "rdp_read_capability_set_header (stm pre (capset T b @ rst) sz)
     = Some ((word_of_int (4 + int (length b)), T), stm (pre @ take 4 (capset T b)) (b @ rst) sz)"
  by (simp add: rdp_read_capability_set_header_def capset_def read_fields)

lemma read_one_set:
  assumes "understood m T b e rst" and "cs_server_mode st = m" and "length (cs_received_caps st) = 32"
    and "int (length pre + 4 + length b) \<le> sz"
  shows "read_capability_sets (Suc n) (stm pre (capset T b @ rst) sz) st
    = read_capability_sets n (stm (pre @ capset T b) rst sz) (apply_set (T, b, e) st)"
proof -
  let ?st = "st\<lparr>cs_received_caps := (cs_received_caps st)[unat T := True]\<rparr>"
  define L where L_def: "L = (word_of_int (4 + int (length b)) :: u16)"
  let ?pre = "pre @ take 4 (capset T b)"
  have T: "unat T < 32" and b: "length b < 60000" using assms(1) by (auto simp: understood_def)
  have len: "uint L = 4 + int (length b)"
    using b unfolding L_def by (simp only: uint_word_of_int) simp
  have m: "cs_server_mode ?st = m" using assms(2) by simp
  obtain s' where r: "read_capability_set T (stm ?pre (b @ rst) sz) L ?st = Some (e ?st, s')"
    and s': "s_size s' = sz" "s_data s' = ?pre @ b @ rst"
    using assms(1) m unfolding understood_def L_def by blast
  have cs: "capset T b = take 4 (capset T b) @ b" by (simp add: capset_def)
  have "stream_set_pos s' (int (length pre) + (4 + int (length b))) = stm (pre @ capset T b) rst sz"
    using s' arg_cong [OF cs, of length] by (simp add: stm_def stream_set_pos_def STREAM.equality) (simp flip: cs)
  moreover have "\<not> sz - int (length ?pre) < int (length b)"
    using assms(4) by simp
  ultimately show ?thesis
    using r T assms(3)
    by (simp add: read_set_header [of pre T b rst sz, folded L_def] len Let_def stream_get_pos_def stream_get_left_def apply_set_def)
qed

lemma read_sets:
  assumes "understood_all m l rst" and "cs_server_mode st = m" and "length (cs_received_caps st) = 32"
    and "int (length pre + length (flat l)) \<le> sz"
  shows "read_capability_sets (length l) (stm pre (flat l @ rst) sz) st
    = Some (True, fold apply_set l st, stm (pre @ flat l) rst sz)"
  using assms
proof (induction l arbitrary: pre st)
  case (Cons x l)
  obtain T b e where x: "x = (T, b, e)" by (cases x)
  have u: "understood m T b e (flat l @ rst)" "understood_all m l rst" using Cons.prems(1) by (simp_all add: x)
  have st: "cs_server_mode (apply_set x st) = m" "length (cs_received_caps (apply_set x st)) = 32"
    using u(1) Cons.prems(2,3) by (simp_all add: x apply_set_def understood_def)
  have "read_capability_sets (length (x # l)) (stm pre (flat (x # l) @ rst) sz) st
      = read_capability_sets (length l) (stm (pre @ capset T b) (flat l @ rst) sz) (apply_set x st)"
    using read_one_set [OF u(1) Cons.prems(2,3), of pre sz "length l"] Cons.prems(4) by (simp add: x)
  also have "\<dots> = Some (True, fold apply_set (x # l) st, stm (pre @ flat (x # l)) rst sz)"
    using Cons.IH [OF u(2) st, of "pre @ capset T b"] Cons.prems(4) by (simp add: x)
  finally show ?case .
qed simp


section \<open>Every set is understood\<close>

lemmas set_bodies = general_body_def bitmap_body_def order_body_def bitmap_cache_body_def bitmap_cache_v2_body_def
  pointer_body_def input_body_def brush_body_def glyph_cache_body_def
  virtual_channel_body_def sound_body_def share_body_def font_body_def
  control_body_def color_cache_body_def window_activation_body_def offscreen_bitmap_cache_body_def
  large_pointer_body_def remote_programs_body_def window_list_body_def multifragment_update_body_def
  surface_commands_body_def bitmap_codecs_body_def frame_acknowledge_body_def desktop_composition_body_def
  bitmap_cache_host_support_body_def v3_codec_body_def

lemma length_bodies [simp]:
  "length (general_body c) = 20" "length (bitmap_body c) = 24" "length (bitmap_cache_body c) = 36"
  "length (pointer_body c) = (if cs_large_pointer c then 6 else 4)"
  "length (input_body c) = 84" "length (brush_body c) = 4" "length (virtual_channel_body c) = 8" "length (sound_body c) = 4"
  "length (share_body c) = 4" "length (font_body c) = 4" "length (control_body c) = 8" "length (color_cache_body c) = 4"
  "length (window_activation_body c) = 8" "length (offscreen_bitmap_cache_body c) = 8" "length (large_pointer_body c) = 2"
  "length (remote_programs_body c) = 4" "length (window_list_body c) = 7" "length (multifragment_update_body c) = 4"
  "length (surface_commands_body c) = 8" "length (frame_acknowledge_body c) = 4" "length (desktop_composition_body c) = 2"
  "length (bitmap_cache_host_support_body c) = 4" "length (v3_codec_body c) = 1"
  by (simp_all add: set_bodies)

lemma length_bodies_arrays:
  "32 \<le> length (cs_order_support c) \<Longrightarrow> length (order_body c) = 84"
  "5 \<le> length (cs_bitmapCacheV2CellInfo c) \<Longrightarrow> length (bitmap_cache_v2_body c) = 36"
  "10 \<le> length (cs_glyphCache c) \<Longrightarrow> length (glyph_cache_body c) = 48"
  by (simp_all add: set_bodies take_nths upto_5_10)

lemma length_codec_entry [simp]: "length (codec_entry guid n props) = length guid + 3 + length props"
  by (simp add: codec_entry_def)

lemma length_codecs_body: "length (bitmap_codecs_body c) \<le> 111"
  by (simp add: bitmap_codecs_body_def length_properties)

lemma dispatch:
  "read_capability_set CAPSET_TYPE_GENERAL = rdp_read_general_capability_set"
  "read_capability_set CAPSET_TYPE_BITMAP = rdp_read_bitmap_capability_set"
  "read_capability_set CAPSET_TYPE_ORDER = rdp_read_order_capability_set"
  "read_capability_set CAPSET_TYPE_BITMAP_CACHE = rdp_read_bitmap_cache_capability_set"
  "read_capability_set CAPSET_TYPE_BITMAP_CACHE_V2 = rdp_read_bitmap_cache_v2_capability_set"
  "read_capability_set CAPSET_TYPE_INPUT = rdp_read_input_capability_set"
  "read_capability_set CAPSET_TYPE_BRUSH = rdp_read_brush_capability_set"
  "read_capability_set CAPSET_TYPE_GLYPH_CACHE = rdp_read_glyph_cache_capability_set"
  "read_capability_set CAPSET_TYPE_VIRTUAL_CHANNEL = rdp_read_virtual_channel_capability_set"
  "read_capability_set CAPSET_TYPE_SOUND = rdp_read_sound_capability_set"
  "read_capability_set CAPSET_TYPE_SHARE = rdp_read_share_capability_set"
  "read_capability_set CAPSET_TYPE_FONT = rdp_read_font_capability_set"
  "read_capability_set CAPSET_TYPE_CONTROL = rdp_read_control_capability_set"
  "read_capability_set CAPSET_TYPE_COLOR_CACHE = rdp_read_color_cache_capability_set"
  "read_capability_set CAPSET_TYPE_ACTIVATION = rdp_read_window_activation_capability_set"
  "read_capability_set CAPSET_TYPE_OFFSCREEN_CACHE = rdp_read_offscreen_bitmap_cache_capability_set"
  "read_capability_set CAPSET_TYPE_LARGE_POINTER = rdp_read_large_pointer_capability_set"
  "read_capability_set CAPSET_TYPE_RAIL = rdp_read_remote_programs_capability_set"
  "read_capability_set CAPSET_TYPE_WINDOW = rdp_read_window_list_capability_set"
  "read_capability_set CAPSET_TYPE_MULTI_FRAGMENT_UPDATE = rdp_read_multifragment_update_capability_set"
  "read_capability_set CAPSET_TYPE_SURFACE_COMMANDS = rdp_read_surface_commands_capability_set"
  "read_capability_set CAPSET_TYPE_BITMAP_CODECS = rdp_read_bitmap_codecs_capability_set"
  "read_capability_set CAPSET_TYPE_FRAME_ACKNOWLEDGE = rdp_read_frame_acknowledge_capability_set"
  "read_capability_set CAPSET_TYPE_COMP_DESK = rdp_read_desktop_composition_capability_set"
  "read_capability_set CAPSET_TYPE_BITMAP_CACHE_HOST_SUPPORT = rdp_read_bitmap_cache_host_support_capability_set"
  "read_capability_set CAPSET_TYPE_POINTER = rdp_read_pointer_capability_set"
  "read_capability_set 6 = rdp_read_bitmap_cache_v3_codec_id_capability_set"
  by (intro ext; simp add: read_capability_set_def cap_consts)+

lemmas effects = general_effect_def bitmap_effect_def order_effect_def pointer_effect_def input_effect_def sound_effect_def
  glyph_cache_effect_def offscreen_effect_def host_support_effect_def virtual_channel_effect_def multifrag_effect_def
  surface_effect_def codecs_effect_def

lemma effects_keep [simp]:
  "cs_received_caps (general_effect c st) = cs_received_caps st" "cs_server_mode (general_effect c st) = cs_server_mode st"
  "cs_received_caps (bitmap_effect c st) = cs_received_caps st" "cs_server_mode (bitmap_effect c st) = cs_server_mode st"
  "cs_received_caps (order_effect c st) = cs_received_caps st" "cs_server_mode (order_effect c st) = cs_server_mode st"
  "cs_received_caps (pointer_effect c n st) = cs_received_caps st" "cs_server_mode (pointer_effect c n st) = cs_server_mode st"
  "cs_received_caps (input_effect c st) = cs_received_caps st" "cs_server_mode (input_effect c st) = cs_server_mode st"
  "cs_received_caps (sound_effect c st) = cs_received_caps st" "cs_server_mode (sound_effect c st) = cs_server_mode st"
  "cs_received_caps (glyph_cache_effect c st) = cs_received_caps st" "cs_server_mode (glyph_cache_effect c st) = cs_server_mode st"
  "cs_received_caps (offscreen_effect c st) = cs_received_caps st" "cs_server_mode (offscreen_effect c st) = cs_server_mode st"
  "cs_received_caps (host_support_effect st) = cs_received_caps st" "cs_server_mode (host_support_effect st) = cs_server_mode st"
  "cs_received_caps (virtual_channel_effect c st) = cs_received_caps st" "cs_server_mode (virtual_channel_effect c st) = cs_server_mode st"
  "cs_received_caps (multifrag_effect c st) = cs_received_caps st" "cs_server_mode (multifrag_effect c st) = cs_server_mode st"
  "cs_received_caps (surface_effect st) = cs_received_caps st" "cs_server_mode (surface_effect st) = cs_server_mode st"
  "cs_received_caps (codecs_effect c st) = cs_received_caps st" "cs_server_mode (codecs_effect c st) = cs_server_mode st"
  by (simp_all add: effects)

lemma types_small [simp]:
  "unat CAPSET_TYPE_GENERAL < 32" "unat CAPSET_TYPE_BITMAP < 32" "unat CAPSET_TYPE_ORDER < 32"
  "unat CAPSET_TYPE_BITMAP_CACHE < 32" "unat CAPSET_TYPE_BITMAP_CACHE_V2 < 32" "unat CAPSET_TYPE_INPUT < 32"
  "unat CAPSET_TYPE_BRUSH < 32" "unat CAPSET_TYPE_GLYPH_CACHE < 32" "unat CAPSET_TYPE_VIRTUAL_CHANNEL < 32"
  "unat CAPSET_TYPE_SOUND < 32" "unat CAPSET_TYPE_SHARE < 32" "unat CAPSET_TYPE_FONT < 32"
  "unat CAPSET_TYPE_CONTROL < 32" "unat CAPSET_TYPE_COLOR_CACHE < 32" "unat CAPSET_TYPE_ACTIVATION < 32"
  "unat CAPSET_TYPE_OFFSCREEN_CACHE < 32" "unat CAPSET_TYPE_LARGE_POINTER < 32" "unat CAPSET_TYPE_RAIL < 32"
  "unat CAPSET_TYPE_WINDOW < 32" "unat CAPSET_TYPE_MULTI_FRAGMENT_UPDATE < 32" "unat CAPSET_TYPE_SURFACE_COMMANDS < 32"
  "unat CAPSET_TYPE_BITMAP_CODECS < 32" "unat CAPSET_TYPE_FRAME_ACKNOWLEDGE < 32" "unat CAPSET_TYPE_COMP_DESK < 32"
  "unat CAPSET_TYPE_BITMAP_CACHE_HOST_SUPPORT < 32" "unat CAPSET_TYPE_POINTER < 32"
  by (simp_all add: cap_consts)

lemma understoodI:
  assumes "\<And>pre sz st. read_capability_set T (stm pre (b @ rst) sz) (word_of_int (4 + int (length b))) st
      = Some (e st, stm (pre @ b) rst sz)"
    and "unat T < 32" and "length b < 60000"
    and "\<And>st. cs_received_caps (e st) = cs_received_caps st" and "\<And>st. cs_server_mode (e st) = cs_server_mode st"
  shows "understood m T b e rst"
  using assms by (simp add: understood_def)

lemma understood_general:
  "understood m CAPSET_TYPE_GENERAL (general_body c) (general_effect c) rst"
  by (rule understoodI) (simp_all add: dispatch read_general)

lemma understood_bitmap:
  "understood m CAPSET_TYPE_BITMAP (bitmap_body c) (bitmap_effect c) rst"
  by (rule understoodI) (simp_all add: dispatch read_bitmap)

lemma understood_order:
  "32 \<le> length (cs_order_support c) \<Longrightarrow> understood m CAPSET_TYPE_ORDER (order_body c) (order_effect c) rst"
  by (rule understoodI) (simp_all add: dispatch read_order length_bodies_arrays)

lemma understood_bitmap_cache:
  "understood m CAPSET_TYPE_BITMAP_CACHE (bitmap_cache_body c) id rst"
  by (rule understoodI) (simp_all add: dispatch read_bitmap_cache)

lemma understood_bitmap_cache_v2:
  "5 \<le> length (cs_bitmapCacheV2CellInfo c) \<Longrightarrow> understood m CAPSET_TYPE_BITMAP_CACHE_V2 (bitmap_cache_v2_body c) id rst"
  by (rule understoodI) (simp_all add: dispatch read_bitmap_cache_v2 length_bodies_arrays)

lemma understood_input:
  "understood m CAPSET_TYPE_INPUT (input_body c) (input_effect c) rst"
  by (rule understoodI) (simp_all add: dispatch read_input)

lemma understood_brush:
  "understood m CAPSET_TYPE_BRUSH (brush_body c) id rst"
  by (rule understoodI) (simp_all add: dispatch read_brush)

lemma understood_glyph_cache:
  "10 \<le> length (cs_glyphCache c) \<Longrightarrow> understood m CAPSET_TYPE_GLYPH_CACHE (glyph_cache_body c) (glyph_cache_effect c) rst"
  by (rule understoodI) (simp_all add: dispatch read_glyph_cache length_bodies_arrays)

lemma understood_virtual_channel:
  "understood m CAPSET_TYPE_VIRTUAL_CHANNEL (virtual_channel_body c) (virtual_channel_effect c) rst"
  by (rule understoodI) (simp_all add: dispatch read_virtual_channel)

lemma understood_sound:
  "understood m CAPSET_TYPE_SOUND (sound_body c) (sound_effect c) rst"
  by (rule understoodI) (simp_all add: dispatch read_sound)

lemma understood_share:
  "understood m CAPSET_TYPE_SHARE (share_body c) id rst"
  by (rule understoodI) (simp_all add: dispatch read_share)

lemma understood_font:
  "understood m CAPSET_TYPE_FONT (font_body c) id rst"
  by (rule understoodI) (simp_all add: dispatch read_font)

lemma understood_control:
  "understood m CAPSET_TYPE_CONTROL (control_body c) id rst"
  by (rule understoodI) (simp_all add: dispatch read_control)

lemma understood_color_cache:
  "understood m CAPSET_TYPE_COLOR_CACHE (color_cache_body c) id rst"
  by (rule understoodI) (simp_all add: dispatch read_color_cache)

lemma understood_window_activation:
  "understood m CAPSET_TYPE_ACTIVATION (window_activation_body c) id rst"
  by (rule understoodI) (simp_all add: dispatch read_window_activation)

lemma understood_offscreen_bitmap_cache:
  "understood m CAPSET_TYPE_OFFSCREEN_CACHE (offscreen_bitmap_cache_body c) (offscreen_effect c) rst"
  by (rule understoodI) (simp_all add: dispatch read_offscreen)

lemma understood_large_pointer:
  "understood m CAPSET_TYPE_LARGE_POINTER (large_pointer_body c) id rst"
  by (rule understoodI) (simp_all add: dispatch read_large_pointer)

lemma understood_remote_programs:
  "understood m CAPSET_TYPE_RAIL (remote_programs_body c) id rst"
  by (rule understoodI) (simp_all add: dispatch read_remote_programs)

lemma understood_window_list:
  "understood m CAPSET_TYPE_WINDOW (window_list_body c) id rst"
  by (rule understoodI) (simp_all add: dispatch read_window_list)

lemma understood_multifragment_update:
  "understood m CAPSET_TYPE_MULTI_FRAGMENT_UPDATE (multifragment_update_body c) (multifrag_effect c) rst"
  by (rule understoodI) (simp_all add: dispatch read_multifragment_update)

lemma understood_surface_commands:
  "understood m CAPSET_TYPE_SURFACE_COMMANDS (surface_commands_body c) surface_effect rst"
  by (rule understoodI) (simp_all add: dispatch read_surface_commands)

lemma understood_bitmap_codecs:
  "understood m CAPSET_TYPE_BITMAP_CODECS (bitmap_codecs_body c) (codecs_effect c) rst"
  by (rule understoodI) (simp_all add: dispatch read_bitmap_codecs_set le_less_trans [OF length_codecs_body])

lemma understood_frame_acknowledge:
  "understood m CAPSET_TYPE_FRAME_ACKNOWLEDGE (frame_acknowledge_body c) id rst"
  by (rule understoodI) (simp_all add: dispatch read_frame_acknowledge)

lemma understood_desktop_composition:
  "understood m CAPSET_TYPE_COMP_DESK (desktop_composition_body c) id rst"
  by (rule understoodI) (simp_all add: dispatch read_desktop_composition)

lemma understood_bitmap_cache_host_support:
  "understood m CAPSET_TYPE_BITMAP_CACHE_HOST_SUPPORT (bitmap_cache_host_support_body c) host_support_effect rst"
  by (rule understoodI) (simp_all add: dispatch read_host_support)

lemma understood_v3_codec: "understood m 6 (v3_codec_body c) id rst"
  by (rule understoodI) (simp_all add: dispatch read_v3_codec)

text \<open>The pointer set is followed by the input set; without large pointers the reader runs into its type.\<close>

definition pointer_size :: "capSettings \<Rightarrow> u16 \<Rightarrow> u16" where
  "pointer_size c T = (if cs_large_pointer c then ucast (cs_pointer_cache_size c) else T)"

lemma understood_pointer:
  "understood m CAPSET_TYPE_POINTER (pointer_body c) (pointer_effect c (pointer_size c T)) (capset T b @ rst)"
proof (cases "cs_large_pointer c")
  case True
  then show ?thesis
    by (intro understoodI) (simp_all add: dispatch read_pointer pointer_size_def)
next
  case False
  then have "rdp_read_pointer_capability_set (stm pre (pointer_body c @ capset T b @ rst) sz) len st
      = Some (pointer_effect c (pointer_size c T) st, stm (pre @ pointer_body c @ le16 T) (drop 2 (capset T b) @ rst) sz)"
    for pre sz len st
    using read_short_pointer [OF False, of pre T "drop 2 (capset T b) @ rst"]
    by (simp add: capset_def pointer_size_def)
  then show ?thesis
    unfolding understood_def by (simp add: dispatch capset_def)
qed


section \<open>The unit of the client\<close>

definition caps_ok :: "capSettings \<Rightarrow> bool" where
  "caps_ok c \<longleftrightarrow> 32 \<le> length (cs_order_support c) \<and> 5 \<le> length (cs_bitmapCacheV2CellInfo c)
    \<and> 10 \<le> length (cs_glyphCache c) \<and> length (cs_received_caps c) = 32"

definition opt :: "bool \<Rightarrow> 'a list \<Rightarrow> 'a list" where
  "opt b l = (if b then l else [])"

definition received :: "capSettings \<Rightarrow> u16 \<Rightarrow> bool" where
  "received c T = cs_received_caps c ! unat T"

definition confirm_front :: "capSettings \<Rightarrow> cap_set list" where
  "confirm_front c =
    [(CAPSET_TYPE_GENERAL, general_body c, general_effect c), (CAPSET_TYPE_BITMAP, bitmap_body c, bitmap_effect c),
     (CAPSET_TYPE_ORDER, order_body c, order_effect c),
     (if cs_rdp_version c \<ge> 5 then (CAPSET_TYPE_BITMAP_CACHE_V2, bitmap_cache_v2_body c, id)
      else (CAPSET_TYPE_BITMAP_CACHE, bitmap_cache_body c, id)),
     (CAPSET_TYPE_POINTER, pointer_body c, pointer_effect c (pointer_size c CAPSET_TYPE_INPUT)),
     (CAPSET_TYPE_INPUT, input_body c, input_effect c), (CAPSET_TYPE_BRUSH, brush_body c, id),
     (CAPSET_TYPE_GLYPH_CACHE, glyph_cache_body c, glyph_cache_effect c),
     (CAPSET_TYPE_VIRTUAL_CHANNEL, virtual_channel_body c, virtual_channel_effect c),
     (CAPSET_TYPE_SOUND, sound_body c, sound_effect c), (CAPSET_TYPE_SHARE, share_body c, id),
     (CAPSET_TYPE_FONT, font_body c, id), (CAPSET_TYPE_CONTROL, control_body c, id),
     (CAPSET_TYPE_COLOR_CACHE, color_cache_body c, id), (CAPSET_TYPE_ACTIVATION, window_activation_body c, id)]
    @ opt (cs_offscreen_bitmap_cache c) [(CAPSET_TYPE_OFFSCREEN_CACHE, offscreen_bitmap_cache_body c, offscreen_effect c)]
    @ opt (received c CAPSET_TYPE_LARGE_POINTER \<and> cs_large_pointer c) [(CAPSET_TYPE_LARGE_POINTER, large_pointer_body c, id)]
    @ opt (cs_remote_app c) [(CAPSET_TYPE_RAIL, remote_programs_body c, id), (CAPSET_TYPE_WINDOW, window_list_body c, id)]
    @ opt (received c CAPSET_TYPE_MULTI_FRAGMENT_UPDATE)
        [(CAPSET_TYPE_MULTI_FRAGMENT_UPDATE, multifragment_update_body c, multifrag_effect c)]
    @ opt (received c CAPSET_TYPE_SURFACE_COMMANDS) [(CAPSET_TYPE_SURFACE_COMMANDS, surface_commands_body c, surface_effect)]"

definition confirm_rear :: "capSettings \<Rightarrow> cap_set list" where
  "confirm_rear c = opt (received c CAPSET_TYPE_FRAME_ACKNOWLEDGE \<and> cs_frame_acknowledge c)
        [(CAPSET_TYPE_FRAME_ACKNOWLEDGE, frame_acknowledge_body c, id)]
    @ opt (received c 6 \<and> cs_v3_codec_id c \<noteq> 0) [(6, v3_codec_body c, id)]"

definition confirm_sets :: "capSettings \<Rightarrow> cap_set list" where
  "confirm_sets c = confirm_front c
     @ opt (received c CAPSET_TYPE_BITMAP_CODECS) [(CAPSET_TYPE_BITMAP_CODECS, bitmap_codecs_body c, codecs_effect c)]
     @ confirm_rear c"

lemmas confirm_sets_defs = confirm_sets_def confirm_front_def confirm_rear_def

lemma opt_simps [simp]:
  "length (opt b l) = (if b then length l else 0)" "flat (opt b k) = opt b (flat k)"
  "understood_all m (opt b k) rst \<longleftrightarrow> (b \<longrightarrow> understood_all m k rst)"
  "fold f (opt b l') x = (if b then fold f l' x else x)"
  by (simp_all add: opt_def)

lemma confirm_sets_understood: "caps_ok c \<Longrightarrow> understood_all m (confirm_sets c) rst"
  by (simp add: confirm_sets_defs caps_ok_def understood_general understood_bitmap understood_order understood_bitmap_cache_v2
      understood_bitmap_cache understood_pointer understood_input understood_brush understood_glyph_cache
      understood_virtual_channel understood_sound understood_share understood_font understood_control understood_color_cache
      understood_window_activation understood_offscreen_bitmap_cache understood_large_pointer understood_remote_programs
      understood_window_list understood_multifragment_update understood_surface_commands understood_bitmap_codecs
      understood_frame_acknowledge understood_v3_codec)

lemma bind_optional:
  "Option.bind (optional_sets b k (emit x) (n, s)) f = Option.bind (emit (opt b x) s) (\<lambda>s. f (n + (if b then k else 0), s))"
  by (simp add: optional_sets_def opt_def)

lemma received_elem:
  "length (cs_received_caps c) = 32 \<Longrightarrow> unat T < 32 \<Longrightarrow> elem_at (cs_received_caps c) (unat T) = Some (received c T)"
  "length (cs_received_caps c) = 32 \<Longrightarrow> elem_at (cs_received_caps c) 6 = Some (received c 6)"
  by (simp_all add: elem_at_def received_def)

lemmas writers = write_general write_bitmap write_order write_bitmap_cache write_bitmap_cache_v2 write_pointer write_input
  write_brush write_glyph_cache write_virtual_channel write_sound write_share write_font write_control write_color_cache
  write_window_activation write_offscreen_bitmap_cache write_large_pointer write_remote_programs write_window_list
  write_multifragment_update write_surface_commands write_bitmap_codecs write_frame_acknowledge write_v3_codec
  write_bitmap_cache_host_support write_desktop_composition

lemma write_confirm_sets_emit:
  assumes "caps_ok c" and "\<not> cs_server_mode c"
  shows "write_confirm_sets s c = Option.bind (emit (flat (confirm_sets c)) s)
    (\<lambda>s. Some (c, of_nat (length (confirm_sets c)), s))"
  using assms unfolding write_confirm_sets_def caps_ok_def
  by (cases "cs_rdp_version c \<ge> 5")
    (simp_all add: writers bind_optional received_elem Let_def bind_emit bind_emit_bind confirm_sets_defs add.assoc
      if_distrib [of of_nat])


definition confirm_bytes :: "capSettings \<Rightarrow> u8 list" where
  "confirm_bytes c = le32 (cs_share_id c) @ le16 (0x03EA :: u16) @ le16 (8 :: u16)
     @ le16 (word_of_int (4 + int (length (flat (confirm_sets c)))) :: u16) @ SOURCE_DESCRIPTOR
     @ le16 (of_nat (length (confirm_sets c)) :: u16) @ le16 (0 :: u16) @ flat (confirm_sets c)"

lemma emit_over: "length bs = length old \<Longrightarrow> emit bs (stm pre (old @ rst) sz) = Some (stm (pre @ bs) rst sz)"
  by (simp add: emit_stm)

text \<open>The two fields left open are filled in at the end.\<close>

lemma finish_capabilities_stm:
  assumes "length x = 2" and "length y = 2"
  shows "finish_capabilities (stm (P @ x @ D @ y @ E) R sz) (int (length P)) (int (length P + 2 + length D)) n
    = Some (stm (P @ le16 (word_of_int (2 + int (length E)) :: u16) @ D @ le16 n @ E) R sz)"
proof -
  let ?L = "le16 (word_of_int (2 + int (length E)) :: u16)"
  have p1: "stream_set_pos (stm (P @ x @ D @ y @ E) R sz) (int (length P)) = stm P (x @ D @ y @ E @ R) sz"
    using stream_set_pos_stm [of "length P" P "x @ D @ y @ E" R sz] by simp
  have p2: "stream_set_pos (stm (P @ ?L) (D @ y @ E @ R) sz) (int (length P + 2 + length D))
      = stm (P @ ?L @ D) (y @ E @ R) sz"
    by (simp add: stm_def stream_set_pos_def)
  have p3: "stream_set_pos (stm (P @ ?L @ D @ le16 n) (E @ R) sz) (int (length P + 4 + length D + length E))
      = stm (P @ ?L @ D @ le16 n @ E) R sz"
    by (simp add: stm_def stream_set_pos_def)
  have w: "stream_write_uint16 s v = emit (le16 v) s" for s and v :: u16
    by (simp add: stream_write_uint16_emit le16_def)
  have e: "stream_get_pos (stm (P @ x @ D @ y @ E) R sz) = int (length P + 4 + length D + length E)"
    "int (length P + 4 + length D + length E) - int (length P + 2 + length D) = 2 + int (length E)"
    using assms by (simp_all add: stream_get_pos_def)
  show ?thesis
    unfolding finish_capabilities_def Let_def e p1 w
    using assms by (simp only: emit_over length_le bind.bind_lunit p2 append_assoc p3)
qed

lemma room_pieces:
  assumes "h + 2 + n + 2 + k \<le> length rst"
  obtains a x d y z r where "rst = a @ x @ d @ y @ z @ r" "length a = h" "length x = 2" "length d = n" "length y = 2" "length z = k"
proof (rule that)
  let ?r1 = "drop h rst" let ?r2 = "drop 2 ?r1" let ?r3 = "drop n ?r2" let ?r4 = "drop 2 ?r3"
  show "rst = take h rst @ take 2 ?r1 @ take n ?r2 @ take 2 ?r3 @ take k ?r4 @ drop k ?r4"
    by (simp only: append_take_drop_id)
qed (use assms in simp_all)

lemma emit_fields: "stream_write_uint16 s v = emit (le16 v) s" "stream_write_uint32 s v = emit (le32 v) s"
  by (simp_all add: stream_write_uint16_emit stream_write_uint32_emit le16_def le32_def)

lemma write_confirm:
  assumes "caps_ok c" and "\<not> cs_server_mode c" and "length (confirm_bytes c) \<le> length rst"
  shows "rdp_write_confirm_active (stm pre rst sz) c
    = Some (c, stm (pre @ confirm_bytes c) (drop (length (confirm_bytes c)) rst) sz)"
proof -
  let ?F = "flat (confirm_sets c)" and ?H = "le32 (cs_share_id c) @ le16 (0x03EA :: u16) @ le16 (8 :: u16)"
  have sd: "length SOURCE_DESCRIPTOR = 8" by (simp add: SOURCE_DESCRIPTOR_def)
  have "8 + 2 + 8 + 2 + (2 + length ?F) \<le> length rst" using assms(3) by (simp add: confirm_bytes_def sd)
  then obtain a x d y z r where r: "rst = a @ x @ d @ y @ z @ r"
    and l: "length a = 8" "length x = 2" "length d = 8" "length y = 2" "length z = 2 + length ?F"
    by (rule room_pieces)
  have h: "emit ?H (stm pre rst sz) = Some (stm (pre @ ?H) (x @ d @ y @ z @ r) sz)"
    unfolding r by (rule emit_over) (simp add: l)
  have s1: "stream_seek (stm p (x @ q) sz) 2 = stm (p @ x) q sz" "stream_seek (stm p (y @ q) sz) 2 = stm (p @ y) q sz" for p q
    by (simp_all add: seek_append l)
  have d: "stream_write (stm p (d @ q) sz) SOURCE_DESCRIPTOR 8 = Some (stm (p @ SOURCE_DESCRIPTOR) q sz)" for p q
    using emit_over [of SOURCE_DESCRIPTOR d p q sz] by (simp add: emit_def sd l)
  have z: "Option.bind (emit (le16 (0 :: u16)) (stm p (z @ q) sz)) (\<lambda>s. Option.bind (write_confirm_sets s c) g)
      = g (c, of_nat (length (confirm_sets c)), stm (p @ le16 (0 :: u16) @ ?F) q sz)" for p q and g :: "_ \<Rightarrow> 'b option"
    by (simp add: write_confirm_sets_emit [OF assms(1,2)] bind_emit_bind emit_over l)
  have f: "finish_capabilities (stm ((pre @ ?H) @ x @ SOURCE_DESCRIPTOR @ y @ le16 (0 :: u16) @ ?F) r sz)
      (int (length (pre @ ?H))) (int (length (pre @ ?H) + 2 + length SOURCE_DESCRIPTOR)) (of_nat (length (confirm_sets c)))
      = Some (stm (pre @ confirm_bytes c) r sz)"
    unfolding finish_capabilities_stm [OF l(2,4)] by (simp add: confirm_bytes_def)
  have "drop (length (confirm_bytes c)) rst = r"
    by (simp add: r l confirm_bytes_def sd)
  moreover have "rdp_write_confirm_active (stm pre rst sz) c
      = Option.bind (emit ?H (stm pre rst sz)) (\<lambda>s. do {
          let lm = stream_get_pos s;
          s \<leftarrow> stream_write (stream_seek s 2) SOURCE_DESCRIPTOR 8;
          let bm = stream_get_pos s;
          (settings, n, s) \<leftarrow> Option.bind (emit (le16 (0 :: u16)) (stream_seek s 2)) (\<lambda>s. write_confirm_sets s c);
          s \<leftarrow> finish_capabilities s lm bm n;
          Some (settings, s) })"
    by (simp add: rdp_write_confirm_active_def emit_fields bind_emit_bind Let_def split_beta)
  ultimately show ?thesis
    using f by (simp add: h s1 d z Let_def stream_get_pos_def l sd add.commute)
qed


lemma length_confirm_sets: "length (confirm_sets c) \<le> 24"
  by (simp add: confirm_sets_defs)

lemma length_flat_confirm: "caps_ok c \<Longrightarrow> length (flat (confirm_sets c)) \<le> 700"
  using length_codecs_body [of c] by (simp add: confirm_sets_defs caps_ok_def length_bodies_arrays opt_simps(1) [where 'a = u8])

lemma read_confirm:
  assumes "caps_ok c" and "length (cs_received_caps sv) = 32" and "int (length hdr + length (confirm_bytes c)) \<le> sz"
  shows "recv_confirm_active_sets (stm hdr (confirm_bytes c @ tl') sz) sv
    = Some (True, fold apply_set (confirm_sets c) sv, stm (hdr @ confirm_bytes c) tl' sz)"
proof -
  have sd: "length SOURCE_DESCRIPTOR = 8" by (simp add: SOURCE_DESCRIPTOR_def)
  have n: "unat (of_nat (length (confirm_sets c)) :: u16) = length (confirm_sets c)"
    using length_confirm_sets [of c] by (intro of_nat_inverse) simp_all
  have s: "stream_seek (stm p (SOURCE_DESCRIPTOR @ q) sz) 8 = stm (p @ SOURCE_DESCRIPTOR) q sz" for p q
    by (simp add: seek_append sd)
  let ?H = "le32 (cs_share_id c) @ le16 (0x03EA :: u16) @ le16 (8 :: u16)
     @ le16 (word_of_int (4 + int (length (flat (confirm_sets c)))) :: u16) @ SOURCE_DESCRIPTOR
     @ le16 (of_nat (length (confirm_sets c)) :: u16) @ le16 (0 :: u16)"
  have "read_capability_sets (length (confirm_sets c)) (stm (hdr @ ?H) (flat (confirm_sets c) @ tl') sz) sv
      = Some (True, fold apply_set (confirm_sets c) sv, stm ((hdr @ ?H) @ flat (confirm_sets c)) tl' sz)"
    by (rule read_sets [OF confirm_sets_understood [OF assms(1)] refl assms(2)])
      (use assms(3) in \<open>simp add: confirm_bytes_def sd\<close>)
  then show ?thesis
    by (simp add: recv_confirm_active_sets_def confirm_bytes_def read_fields s Let_def rdp_read_capability_sets_def n
        del: of_nat_add)
qed

text \<open>The flags of the received sets.\<close>

lemma received_after_sets:
  assumes "understood_all m l rst" and "length (cs_received_caps st) = 32" and "i < 32"
  shows "cs_received_caps (fold apply_set l st) ! i \<longleftrightarrow> cs_received_caps st ! i \<or> i \<in> (\<lambda>x. unat (fst x)) ` set l"
  using assms(1,2)
proof (induction l arbitrary: st)
  case (Cons x l)
  obtain T b e where x: "x = (T, b, e)" by (cases x)
  have "cs_received_caps (apply_set x st) = (cs_received_caps st)[unat T := True]" "unat T < 32"
    using Cons.prems(1) by (simp_all add: x apply_set_def understood_def)
  then show ?case using Cons.IH [of "apply_set x st"] Cons.prems assms(3) by (auto simp: x nth_list_update)
qed simp


text \<open>A field of the settings is decided by the last set that changes it.\<close>

definition keeps :: "(capSettings \<Rightarrow> 'a) \<Rightarrow> cap_set list \<Rightarrow> bool" where
  "keeps f l \<longleftrightarrow> (\<forall>x \<in> set l. \<forall>st. f (snd (snd x) st) = f st) \<and> (\<forall>st v. f (st\<lparr>cs_received_caps := v\<rparr>) = f st)"

lemma keeps_simps:
  "keeps f [] \<longleftrightarrow> (\<forall>st v. f (st\<lparr>cs_received_caps := v\<rparr>) = f st)"
  "keeps f ((T, b, e) # l) \<longleftrightarrow> (\<forall>st. f (e st) = f st) \<and> keeps f l"
  "keeps f (l @ k) \<longleftrightarrow> keeps f l \<and> keeps f k"
  "keeps f (opt p l) \<longleftrightarrow> keeps f [] \<and> (p \<longrightarrow> keeps f l)"
  by (auto simp: keeps_def opt_def)

lemma fold_keeps: "keeps f l \<Longrightarrow> f (fold apply_set l st) = f st"
  by (induction l arbitrary: st) (auto simp: keeps_def apply_set_def split_beta)

lemma fold_decided:
  assumes "k < length l" and "keeps f (drop (Suc k) l)"
  shows "f (fold apply_set l st) = f (apply_set (l ! k) (fold apply_set (take k l) st))"
proof -
  have "fold apply_set l st = fold apply_set (drop (Suc k) l) (apply_set (l ! k) (fold apply_set (take k l) st))"
    using id_take_nth_drop [OF assms(1)] by (metis comp_apply fold_append fold_simps(2))
  then show ?thesis using fold_keeps [OF assms(2)] by simp
qed

lemma server_mode_front: "keeps cs_server_mode (take k (confirm_front c))"
  by (auto simp: keeps_def confirm_front_def opt_def dest!: in_set_takeD)

lemma front_result:
  fixes c :: capSettings
  assumes "cs_server_mode sv"
  defines "sv' \<equiv> fold apply_set (confirm_front c) sv"
  shows "cs_os_major_type sv' = low16 (cs_os_major_type c)" "cs_os_minor_type sv' = low16 (cs_os_minor_type c)"
    "cs_fastpath_output sv' = (cs_fastpath_output sv \<and> cs_fastpath_output c)"
    "cs_pointer_cache_size sv' = ucast (pointer_size c CAPSET_TYPE_INPUT)"
    "cs_kbd_layout sv' = cs_kbd_layout c" "cs_kbd_type sv' = cs_kbd_type c" "cs_kbd_subtype sv' = cs_kbd_subtype c"
    "cs_kbd_fn_keys sv' = cs_kbd_fn_keys c" "cs_sound_beeps sv' = cs_sound_beeps c"
    "cs_rfx_codec sv' = cs_rfx_codec sv" "cs_ns_codec sv' = cs_ns_codec sv" "cs_server_mode sv'"
proof -
  let ?l = "confirm_front c" and ?st = "\<lambda>k. fold apply_set (take k (confirm_front c)) sv"
  have sm: "cs_server_mode (?st k)" for k
    using fold_keeps [OF server_mode_front] assms(1) by simp
  from sm [of "length ?l"] show "cs_server_mode sv'" by (simp add: sv'_def)
  have at: "?l ! 0 = (CAPSET_TYPE_GENERAL, general_body c, general_effect c)"
    "?l ! 4 = (CAPSET_TYPE_POINTER, pointer_body c, pointer_effect c (pointer_size c CAPSET_TYPE_INPUT))"
    "?l ! 5 = (CAPSET_TYPE_INPUT, input_body c, input_effect c)" "?l ! 9 = (CAPSET_TYPE_SOUND, sound_body c, sound_effect c)"
    by (simp_all add: confirm_front_def nth_append)
  have len: "15 \<le> length ?l" "?l \<noteq> []" by (simp_all add: confirm_front_def)
  let ?f = "\<lambda>s. (cs_os_major_type s, cs_os_minor_type s, cs_fastpath_output s)"
  have "keeps ?f (drop (Suc 0) ?l)" by (simp add: keeps_simps confirm_front_def effects)
  from fold_decided [OF _ this, of sv] len have "?f sv' = ?f (apply_set (?l ! 0) sv)" unfolding sv'_def by auto
  then show "cs_os_major_type sv' = low16 (cs_os_major_type c)" "cs_os_minor_type sv' = low16 (cs_os_minor_type c)"
    "cs_fastpath_output sv' = (cs_fastpath_output sv \<and> cs_fastpath_output c)"
    using assms(1) unfolding at by (simp_all add: apply_set_def effects)
  have "keeps cs_pointer_cache_size (drop (Suc 4) ?l)" by (simp add: keeps_simps confirm_front_def effects)
  from fold_decided [OF _ this, of sv] len sm [of 4] show "cs_pointer_cache_size sv' = ucast (pointer_size c CAPSET_TYPE_INPUT)"
    unfolding sv'_def at by (simp add: apply_set_def effects)
  let ?k = "\<lambda>s. (cs_kbd_layout s, cs_kbd_type s, cs_kbd_subtype s, cs_kbd_fn_keys s)"
  have "keeps ?k (drop (Suc 5) ?l)" by (simp add: keeps_simps confirm_front_def effects)
  from fold_decided [OF _ this, of sv] len have "?k sv' = ?k (apply_set (?l ! 5) (?st 5))" unfolding sv'_def by auto
  then show "cs_kbd_layout sv' = cs_kbd_layout c" "cs_kbd_type sv' = cs_kbd_type c" "cs_kbd_subtype sv' = cs_kbd_subtype c"
    "cs_kbd_fn_keys sv' = cs_kbd_fn_keys c" using sm [of 5] unfolding at by (simp_all add: apply_set_def effects)
  have "keeps cs_sound_beeps (drop (Suc 9) ?l)" by (simp add: keeps_simps confirm_front_def effects)
  from fold_decided [OF _ this, of sv] len show "cs_sound_beeps sv' = cs_sound_beeps c"
    unfolding sv'_def at by (simp add: apply_set_def effects)
  have "keeps cs_rfx_codec ?l" "keeps cs_ns_codec ?l" by (simp_all add: keeps_simps confirm_front_def effects)
  then show "cs_rfx_codec sv' = cs_rfx_codec sv" "cs_ns_codec sv' = cs_ns_codec sv" unfolding sv'_def by (simp_all add: fold_keeps)
qed

lemma confirm_result:
  fixes c :: capSettings
  assumes "cs_server_mode sv"
  defines "sv' \<equiv> fold apply_set (confirm_sets c) sv"
  shows "cs_os_major_type sv' = low16 (cs_os_major_type c)" "cs_os_minor_type sv' = low16 (cs_os_minor_type c)"
    "cs_fastpath_output sv' = (cs_fastpath_output sv \<and> cs_fastpath_output c)"
    "cs_pointer_cache_size sv' = ucast (pointer_size c CAPSET_TYPE_INPUT)"
    "cs_kbd_layout sv' = cs_kbd_layout c" "cs_kbd_type sv' = cs_kbd_type c" "cs_kbd_subtype sv' = cs_kbd_subtype c"
    "cs_kbd_fn_keys sv' = cs_kbd_fn_keys c" "cs_sound_beeps sv' = cs_sound_beeps c"
    "cs_rfx_codec sv' = (if received c CAPSET_TYPE_BITMAP_CODECS then cs_rfx_codec c else cs_rfx_codec sv)"
    "cs_ns_codec sv' = (if received c CAPSET_TYPE_BITMAP_CODECS then cs_ns_codec c else cs_ns_codec sv)"
proof -
  let ?f = "\<lambda>s. (cs_os_major_type s, cs_os_minor_type s, cs_fastpath_output s, cs_pointer_cache_size s, cs_kbd_layout s,
    cs_kbd_type s, cs_kbd_subtype s, cs_kbd_fn_keys s, cs_sound_beeps s)"
  let ?x = "(CAPSET_TYPE_BITMAP_CODECS, bitmap_codecs_body c, codecs_effect c)" and ?b = "received c CAPSET_TYPE_BITMAP_CODECS"
  let ?fr = "fold apply_set (confirm_front c) sv" and ?g = "\<lambda>s. (cs_rfx_codec s, cs_ns_codec s)"
  have "keeps ?f (opt ?b [?x] @ confirm_rear c)" by (simp add: keeps_simps confirm_rear_def effects)
  from fold_keeps [OF this, of ?fr] have f: "?f sv' = ?f ?fr"
    unfolding sv'_def confirm_sets_def by (simp del: opt_simps)
  have "keeps ?g (confirm_rear c)" by (simp add: keeps_simps confirm_rear_def)
  from fold_keeps [OF this] have "?g sv' = ?g (fold apply_set (opt ?b [?x]) ?fr)"
    unfolding sv'_def confirm_sets_def by simp
  then show "cs_rfx_codec sv' = (if ?b then cs_rfx_codec c else cs_rfx_codec sv)"
    "cs_ns_codec sv' = (if ?b then cs_ns_codec c else cs_ns_codec sv)"
    using front_result [OF assms(1), of c] by (simp_all add: apply_set_def codecs_effect_def)
  show "cs_os_major_type sv' = low16 (cs_os_major_type c)" "cs_os_minor_type sv' = low16 (cs_os_minor_type c)"
    "cs_fastpath_output sv' = (cs_fastpath_output sv \<and> cs_fastpath_output c)"
    "cs_pointer_cache_size sv' = ucast (pointer_size c CAPSET_TYPE_INPUT)"
    "cs_kbd_layout sv' = cs_kbd_layout c" "cs_kbd_type sv' = cs_kbd_type c" "cs_kbd_subtype sv' = cs_kbd_subtype c"
    "cs_kbd_fn_keys sv' = cs_kbd_fn_keys c" "cs_sound_beeps sv' = cs_sound_beeps c"
    using f front_result [OF assms(1), of c] by simp_all
qed

text \<open>
  C4: the capability exchange works. Whatever the settings of the client (with the arrays
  \<open>settings_new\<close> allocates), the confirm-active unit it writes fits in 722 bytes, and a server that
  receives it, with any bytes before and behind it, reads every set of it to the end of the unit
  without touching memory outside the stream. It then knows the client's keyboard, its
  operating system, sound and codecs, and has marked as received exactly the types of the sets that
  were written. The pointer cache size is the client's only if the client has large pointers:
  otherwise the client leaves the field out, and the server takes the type of the next
  capability set, 13, for the size.
\<close>

theorem confirm_active_understood:
  assumes "caps_ok c" and "\<not> cs_server_mode c" and "722 \<le> length rst"
    and "cs_server_mode sv" and "length (cs_received_caps sv) = 32"
  shows "\<exists>bytes. rdp_write_confirm_active (stm pre rst sz) c = Some (c, stm (pre @ bytes) (drop (length bytes) rst) sz)
    \<and> length bytes \<le> 722
    \<and> (\<forall>hdr behind sz'. int (length hdr + length bytes) \<le> sz' \<longrightarrow>
        (\<exists>sv'. recv_confirm_active_sets (stm hdr (bytes @ behind) sz') sv = Some (True, sv', stm (hdr @ bytes) behind sz')
          \<and> cs_kbd_layout sv' = cs_kbd_layout c \<and> cs_kbd_type sv' = cs_kbd_type c
          \<and> cs_kbd_subtype sv' = cs_kbd_subtype c \<and> cs_kbd_fn_keys sv' = cs_kbd_fn_keys c
          \<and> cs_os_major_type sv' = low16 (cs_os_major_type c) \<and> cs_os_minor_type sv' = low16 (cs_os_minor_type c)
          \<and> cs_sound_beeps sv' = cs_sound_beeps c
          \<and> cs_pointer_cache_size sv' = (if cs_large_pointer c then low16 (cs_pointer_cache_size c) else 13)
          \<and> (cs_received_caps c ! 0x1D \<longrightarrow> cs_rfx_codec sv' = cs_rfx_codec c \<and> cs_ns_codec sv' = cs_ns_codec c)
          \<and> (\<forall>i<32. cs_received_caps sv' ! i \<longleftrightarrow>
              cs_received_caps sv ! i \<or> i \<in> (\<lambda>x. unat (fst x)) ` set (confirm_sets c))))"
proof -
  let ?B = "confirm_bytes c" and ?sv = "fold apply_set (confirm_sets c) sv"
  have len: "length ?B \<le> 722"
    using length_flat_confirm [OF assms(1)] by (simp add: confirm_bytes_def SOURCE_DESCRIPTOR_def)
  have w: "rdp_write_confirm_active (stm pre rst sz) c = Some (c, stm (pre @ ?B) (drop (length ?B) rst) sz)"
    using write_confirm [OF assms(1,2)] len assms(3) by simp
  have p: "cs_pointer_cache_size ?sv = (if cs_large_pointer c then low16 (cs_pointer_cache_size c) else 13)"
    using confirm_result(4) [OF assms(4), of c] by (simp add: pointer_size_def CAPSET_TYPE_INPUT_def)
  have r: "received c CAPSET_TYPE_BITMAP_CODECS = cs_received_caps c ! 0x1D"
    by (simp add: received_def CAPSET_TYPE_BITMAP_CODECS_def)
  have rc: "\<forall>i<32. cs_received_caps ?sv ! i \<longleftrightarrow> cs_received_caps sv ! i \<or> i \<in> (\<lambda>x. unat (fst x)) ` set (confirm_sets c)"
    using received_after_sets [OF confirm_sets_understood [OF assms(1)] assms(5)] by blast
  show ?thesis
    using w len read_confirm [OF assms(1,5)] confirm_result [OF assms(4), of c] p rc unfolding r
    by (intro exI [of _ ?B] conjI allI impI exI [of _ ?sv]) simp_all
qed

lemma settings_new_ok: "caps_ok settings_new" "\<not> cs_server_mode settings_new" "length (cs_received_caps settings_new) = 32"
  by (simp_all add: caps_ok_def settings_new_def)

theorem confirm_active_understood_witness:
  "let c = settings_new\<lparr>cs_kbd_layout := 0x407, cs_large_pointer := False\<rparr>;
       sv = settings_new\<lparr>cs_server_mode := True\<rparr>
   in \<exists>bytes sv'. rdp_write_confirm_active (stm [] (replicate 800 0) 800) c
          = Some (c, stm bytes (replicate (800 - length bytes) 0) 800)
        \<and> recv_confirm_active_sets (stm [] bytes (int (length bytes))) sv = Some (True, sv', stm bytes [] (int (length bytes)))
        \<and> cs_kbd_layout sv' = 0x407 \<and> cs_pointer_cache_size sv' = 13"
proof -
  let ?c = "settings_new\<lparr>cs_kbd_layout := 0x407, cs_large_pointer := False\<rparr>" and ?sv = "settings_new\<lparr>cs_server_mode := True\<rparr>"
  have "caps_ok ?c" "\<not> cs_server_mode ?c" "722 \<le> length (replicate 800 (0 :: u8))" "cs_server_mode ?sv"
    "length (cs_received_caps ?sv) = 32"
    using settings_new_ok by (simp_all add: caps_ok_def)
  from confirm_active_understood [OF this, of "[]" 800] show ?thesis
  proof (elim exE conjE, goal_cases)
    case (1 bytes)
    from 1(3) [rule_format, of "[]" "int (length bytes)" "[]"] obtain sv' where
      "recv_confirm_active_sets (stm [] bytes (int (length bytes))) ?sv = Some (True, sv', stm bytes [] (int (length bytes)))"
      "cs_kbd_layout sv' = 0x407" "cs_pointer_cache_size sv' = 13"
      by auto
    with 1(1) show ?case unfolding Let_def by (intro exI [of _ bytes] exI [of _ sv']) simp
  qed
qed


section \<open>The unit of the server\<close>

definition demand_sets :: "capSettings \<Rightarrow> cap_set list" where
  "demand_sets c =
    [(CAPSET_TYPE_GENERAL, general_body c, general_effect c), (CAPSET_TYPE_BITMAP, bitmap_body c, bitmap_effect c),
     (CAPSET_TYPE_ORDER, order_body c, order_effect c),
     (CAPSET_TYPE_POINTER, pointer_body c, pointer_effect c (pointer_size c CAPSET_TYPE_INPUT)),
     (CAPSET_TYPE_INPUT, input_body c, input_effect c),
     (CAPSET_TYPE_VIRTUAL_CHANNEL, virtual_channel_body c, virtual_channel_effect c),
     (CAPSET_TYPE_BITMAP_CACHE_HOST_SUPPORT, bitmap_cache_host_support_body c, host_support_effect),
     (CAPSET_TYPE_SHARE, share_body c, id), (CAPSET_TYPE_FONT, font_body c, id),
     (CAPSET_TYPE_MULTI_FRAGMENT_UPDATE, multifragment_update_body c, multifrag_effect c),
     (CAPSET_TYPE_LARGE_POINTER, large_pointer_body c, id), (CAPSET_TYPE_COMP_DESK, desktop_composition_body c, id),
     (CAPSET_TYPE_SURFACE_COMMANDS, surface_commands_body c, surface_effect),
     (CAPSET_TYPE_BITMAP_CODECS, bitmap_codecs_body c, codecs_effect c)]"

lemma demand_sets_understood: "caps_ok c \<Longrightarrow> understood_all m (demand_sets c) rst"
  by (simp add: demand_sets_def caps_ok_def understood_general understood_bitmap understood_order understood_pointer
      understood_input understood_virtual_channel understood_bitmap_cache_host_support understood_share understood_font
      understood_multifragment_update understood_large_pointer understood_desktop_composition understood_surface_commands
      understood_bitmap_codecs)

text \<open>The writer clears two fields of the server's settings; no body depends on them in server mode.\<close>

definition server_settings :: "capSettings \<Rightarrow> capSettings" where
  "server_settings c = c\<lparr>cs_refresh_rect := False, cs_suppress_output := False\<rparr>"

lemma demand_sets_bodies:
  assumes "cs_server_mode c"
  shows "general_body c = general_body (server_settings c)" "caps_ok c \<Longrightarrow> caps_ok (server_settings c)"
  using assms by (simp_all add: general_body_def server_settings_def caps_ok_def)

lemma write_demand_sets_emit:
  assumes "caps_ok c" and "cs_server_mode c"
  shows "write_demand_sets s c = Option.bind (emit (flat (demand_sets (server_settings c))) s) (\<lambda>s. Some (server_settings c, s))"
proof -
  have "32 \<le> length (cs_order_support (server_settings c))" using assms(1) by (simp add: caps_ok_def server_settings_def)
  then show ?thesis
    using assms(2) unfolding write_demand_sets_def
    by (simp add: writers bind_emit bind_emit_bind demand_sets_def demand_sets_bodies flip: server_settings_def)
qed

definition demand_bytes :: "capSettings \<Rightarrow> u8 list" where
  "demand_bytes c = le32 (cs_share_id c) @ le16 (4 :: u16)
     @ le16 (word_of_int (4 + int (length (flat (demand_sets (server_settings c))))) :: u16) @ [0x52, 0x44, 0x50, 0x00]
     @ le16 (14 :: u16) @ le16 (0 :: u16) @ flat (demand_sets (server_settings c))"

lemma write_demand:
  assumes "caps_ok c" and "cs_server_mode c" and "length (demand_bytes c) + 4 \<le> length rst"
  shows "rdp_write_demand_active (stm pre rst sz) c = Some (server_settings c,
    stm (pre @ demand_bytes c @ [0, 0, 0, 0]) (drop (length (demand_bytes c) + 4) rst) sz)"
proof -
  let ?F = "flat (demand_sets (server_settings c))" and ?H = "le32 (cs_share_id c) @ le16 (4 :: u16)"
  let ?D = "[0x52, 0x44, 0x50, 0x00] :: u8 list"
  have "6 + 2 + 4 + 2 + (2 + length ?F + 4) \<le> length rst" using assms(3) by (simp add: demand_bytes_def)
  then obtain a x d y z r where r: "rst = a @ x @ d @ y @ z @ r"
    and l: "length a = 6" "length x = 2" "length d = 4" "length y = 2" "length z = 2 + length ?F + 4"
    by (rule room_pieces)
  define z1 z2 where z12: "z1 = take (2 + length ?F) z" "z2 = drop (2 + length ?F) z"
  have z: "z = z1 @ z2" "length z1 = 2 + length ?F" "length z2 = 4" using l(5) by (simp_all add: z12)
  have h: "emit ?H (stm pre rst sz) = Some (stm (pre @ ?H) (x @ d @ y @ z1 @ z2 @ r) sz)"
    unfolding r z(1) by (subst emit_over) (simp_all add: l)
  have s1: "stream_seek (stm p (x @ q) sz) 2 = stm (p @ x) q sz" "stream_seek (stm p (y @ q) sz) 2 = stm (p @ y) q sz" for p q
    by (simp_all add: seek_append l)
  have d: "stream_write (stm p (d @ q) sz) ?D 4 = Some (stm (p @ ?D) q sz)" for p q
    using emit_over [of ?D d p q sz] by (simp add: emit_def l)
  have w: "Option.bind (emit (le16 (0 :: u16)) (stm p (z1 @ q) sz)) (\<lambda>s. Option.bind (write_demand_sets s c) g)
      = g (server_settings c, stm (p @ le16 (0 :: u16) @ ?F) q sz)" for p q and g :: "_ \<Rightarrow> 'b option"
    by (simp add: write_demand_sets_emit [OF assms(1,2)] bind_emit_bind emit_over z)
  have f: "finish_capabilities (stm ((pre @ ?H) @ x @ ?D @ y @ le16 (0 :: u16) @ ?F) q sz)
      (int (length (pre @ ?H))) (int (length (pre @ ?H) + 2 + length ?D)) 14 = Some (stm (pre @ demand_bytes c) q sz)" for q
    unfolding finish_capabilities_stm [OF l(2,4)] by (simp add: demand_bytes_def)
  have e: "emit (le32 (0 :: u32)) (stm p (z2 @ q) sz) = Some (stm (p @ [0, 0, 0, 0]) q sz)" for p q
    using emit_over [of "le32 (0 :: u32)" z2 p q sz] z(3) by (simp add: le32_def)
  have dr: "drop (length (demand_bytes c) + 4) rst = r" by (simp add: r l demand_bytes_def)
  have "rdp_write_demand_active (stm pre rst sz) c
      = Option.bind (emit ?H (stm pre rst sz)) (\<lambda>s. do {
          let lm = stream_get_pos s;
          s \<leftarrow> stream_write (stream_seek s 2) ?D 4;
          let bm = stream_get_pos s;
          (settings, s) \<leftarrow> Option.bind (emit (le16 (0 :: u16)) (stream_seek s 2)) (\<lambda>s. write_demand_sets s c);
          s \<leftarrow> finish_capabilities s lm bm 14;
          s \<leftarrow> emit (le32 (0 :: u32)) s;
          Some (settings, s) })"
    by (simp add: rdp_write_demand_active_def emit_fields bind_emit_bind Let_def split_beta)
  then show ?thesis
    using f dr by (simp add: h s1 d w e Let_def stream_get_pos_def l add.commute)
qed

lemma read_demand:
  assumes "caps_ok c" and "cs_server_mode c" and "length (cs_received_caps st) = 32"
    and "int (length hdr + length (demand_bytes c)) \<le> sz"
  shows "recv_demand_active_sets (stm hdr (demand_bytes c @ tl') sz) st
    = Some (True, fold apply_set (demand_sets (server_settings c)) (st\<lparr>cs_share_id := cs_share_id c\<rparr>), stm (hdr @ demand_bytes c) tl' sz)"
proof -
  let ?l = "demand_sets (server_settings c)" and ?st = "st\<lparr>cs_share_id := cs_share_id c\<rparr>"
  let ?H = "le32 (cs_share_id c) @ le16 (4 :: u16) @ le16 (word_of_int (4 + int (length (flat ?l))) :: u16)
     @ [0x52, 0x44, 0x50, 0x00] @ le16 (14 :: u16) @ le16 (0 :: u16)"
  have "read_capability_sets (length ?l) (stm (hdr @ ?H) (flat ?l @ tl') sz) ?st
      = Some (True, fold apply_set ?l ?st, stm ((hdr @ ?H) @ flat ?l) tl' sz)"
    by (rule read_sets [OF demand_sets_understood [OF demand_sets_bodies(2) [OF assms(2,1)]] refl])
      (use assms(3,4) in \<open>simp_all add: demand_bytes_def\<close>)
  moreover have "length ?l = 14" by (simp add: demand_sets_def)
  ultimately show ?thesis
    by (simp add: recv_demand_active_sets_def demand_bytes_def read_fields Let_def rdp_read_capability_sets_def)
qed


lemma demand_result:
  fixes c st :: capSettings
  assumes "\<not> cs_server_mode st"
  defines "st' \<equiv> fold apply_set (demand_sets c) st"
  shows "cs_color_depth st' = ucast (announced_depth c)"
    "cs_width st' = (if cs_desktop_resize st \<and> cs_desktop_resize c then low16 (cs_width c) else cs_width st)"
    "cs_height st' = (if cs_desktop_resize st \<and> cs_desktop_resize c then low16 (cs_height c) else cs_height st)"
    "cs_vc_chunk_size st' = cs_vc_chunk_size c" "cs_multifrag_max_request_size st' = cs_multifrag_max_request_size c"
    "cs_fastpath_input st' = (cs_fastpath_input st \<and> cs_fastpath_input c)" "cs_share_id st' = cs_share_id st"
proof -
  let ?l = "demand_sets c" and ?st = "\<lambda>k. fold apply_set (take k (demand_sets c)) st"
  have "keeps cs_server_mode (take k ?l)" for k
    by (auto simp: keeps_def demand_sets_def dest!: in_set_takeD)
  then have sm: "\<not> cs_server_mode (?st k)" for k
    using fold_keeps assms(1) by fastforce
  have len: "length ?l = 14" by (simp add: demand_sets_def)
  have at: "?l ! 1 = (CAPSET_TYPE_BITMAP, bitmap_body c, bitmap_effect c)"
    "?l ! 4 = (CAPSET_TYPE_INPUT, input_body c, input_effect c)"
    "?l ! 5 = (CAPSET_TYPE_VIRTUAL_CHANNEL, virtual_channel_body c, virtual_channel_effect c)"
    "?l ! 9 = (CAPSET_TYPE_MULTI_FRAGMENT_UPDATE, multifragment_update_body c, multifrag_effect c)"
    by (simp_all add: demand_sets_def)
  let ?f = "\<lambda>s. (cs_color_depth s, cs_width s, cs_height s, cs_desktop_resize s)"
  have "keeps ?f (drop (Suc 1) ?l)" "keeps ?f (take 1 ?l)" by (simp_all add: keeps_simps demand_sets_def effects)
  from fold_decided [OF _ this(1), of st] fold_keeps [OF this(2), of st] len
  have "?f st' = ?f (apply_set (?l ! 1) (?st 1))" "?f (?st 1) = ?f st" unfolding st'_def by auto
  then show "cs_color_depth st' = ucast (announced_depth c)"
    "cs_width st' = (if cs_desktop_resize st \<and> cs_desktop_resize c then low16 (cs_width c) else cs_width st)"
    "cs_height st' = (if cs_desktop_resize st \<and> cs_desktop_resize c then low16 (cs_height c) else cs_height st)"
    using sm [of 1] unfolding at by (simp_all add: apply_set_def bitmap_effect_def)
  have "keeps cs_fastpath_input (drop (Suc 4) ?l)" "keeps cs_fastpath_input (take 4 ?l)"
    by (simp_all add: keeps_simps demand_sets_def effects)
  from fold_decided [OF _ this(1), of st] fold_keeps [OF this(2), of st] len sm [of 4]
  show "cs_fastpath_input st' = (cs_fastpath_input st \<and> cs_fastpath_input c)"
    unfolding st'_def at by (simp add: apply_set_def input_effect_def)
  have "keeps cs_vc_chunk_size (drop (Suc 5) ?l)" by (simp add: keeps_simps demand_sets_def effects)
  from fold_decided [OF _ this, of st] len sm [of 5] show "cs_vc_chunk_size st' = cs_vc_chunk_size c"
    unfolding st'_def at by (simp add: apply_set_def effects)
  have "keeps cs_multifrag_max_request_size (drop (Suc 9) ?l)" by (simp add: keeps_simps demand_sets_def effects)
  from fold_decided [OF _ this, of st] len show "cs_multifrag_max_request_size st' = cs_multifrag_max_request_size c"
    unfolding st'_def at by (simp add: apply_set_def effects)
  have "keeps cs_share_id ?l" by (simp add: keeps_simps demand_sets_def effects)
  then show "cs_share_id st' = cs_share_id st" unfolding st'_def by (simp add: fold_keeps)
qed

text \<open>
  C9: the demand-active unit of the server is understood by the client. The client reads all 14
  sets without touching memory outside the stream, stops at the session id behind them, takes over
  the share id, the colour depth, the size of virtual channel chunks and the maximal
  request size, and the desktop size if both sides allow resizing; it sends fast-path
  input only if the server supports it.
\<close>

theorem demand_active_understood:
  assumes "caps_ok c" and "cs_server_mode c" and "length (demand_bytes c) + 4 \<le> length rst"
    and "\<not> cs_server_mode st" and "length (cs_received_caps st) = 32"
    and "int (length hdr + length (demand_bytes c)) \<le> sz'"
  shows "\<exists>c' st'. rdp_write_demand_active (stm pre rst sz) c
      = Some (c', stm (pre @ demand_bytes c @ [0, 0, 0, 0]) (drop (length (demand_bytes c) + 4) rst) sz)
    \<and> recv_demand_active_sets (stm hdr (demand_bytes c @ behind) sz') st = Some (True, st', stm (hdr @ demand_bytes c) behind sz')
    \<and> cs_share_id st' = cs_share_id c \<and> cs_vc_chunk_size st' = cs_vc_chunk_size c
    \<and> cs_multifrag_max_request_size st' = cs_multifrag_max_request_size c
    \<and> cs_color_depth st' = (if cs_rdp_version c > 5 then low16 (cs_color_depth c) else 8)
    \<and> cs_width st' = (if cs_desktop_resize st \<and> cs_desktop_resize c then low16 (cs_width c) else cs_width st)
    \<and> cs_height st' = (if cs_desktop_resize st \<and> cs_desktop_resize c then low16 (cs_height c) else cs_height st)
    \<and> cs_fastpath_input st' = (cs_fastpath_input st \<and> cs_fastpath_input c)"
  using write_demand [OF assms(1,2,3)] read_demand [OF assms(1,2,5,6)]
    demand_result [of "st\<lparr>cs_share_id := cs_share_id c\<rparr>" "server_settings c"] assms(4)
  by (intro exI [of _ "server_settings c"]
      exI [of _ "fold apply_set (demand_sets (server_settings c)) (st\<lparr>cs_share_id := cs_share_id c\<rparr>)"])
    (simp add: server_settings_def announced_depth_def)

lemma length_demand_bytes: "caps_ok c \<Longrightarrow> length (demand_bytes c) \<le> 500"
  using length_codecs_body [of "server_settings c"]
  by (simp add: demand_bytes_def demand_sets_def caps_ok_def server_settings_def length_bodies_arrays)

theorem demand_active_understood_witness:
  "let c = settings_new\<lparr>cs_server_mode := True, cs_width := 1280, cs_color_depth := 24\<rparr>
   in \<exists>c' st'. rdp_write_demand_active (stm [] (replicate 600 0) 600) c
        = Some (c', stm (demand_bytes c @ [0, 0, 0, 0]) (replicate (596 - length (demand_bytes c)) 0) 600)
      \<and> recv_demand_active_sets (stm [1, 2] (demand_bytes c @ [0, 0, 0, 0]) 600) settings_new
        = Some (True, st', stm ([1, 2] @ demand_bytes c) [0, 0, 0, 0] 600)
      \<and> cs_width st' = 1280 \<and> cs_color_depth st' = 24"
proof -
  let ?c = "settings_new\<lparr>cs_server_mode := True, cs_width := 1280, cs_color_depth := 24\<rparr>"
  have ok: "caps_ok ?c" using settings_new_ok by (simp add: caps_ok_def)
  have "cs_server_mode ?c" "length (demand_bytes ?c) + 4 \<le> length (replicate 600 (0 :: u8))"
    "int (length [1 :: u8, 2] + length (demand_bytes ?c)) \<le> 600"
    using length_demand_bytes [OF ok] by simp_all
  from demand_active_understood [OF ok this(1,2) settings_new_ok(2,3) this(3), of "[]" 600 "[0, 0, 0, 0]"]
  show ?thesis unfolding Let_def by (elim exE conjE, intro exI conjI) (simp_all add: settings_new_def)
qed

end
