(* ===== verification/Spec2Isabelle.thy ===== *)
theory Spec2Isabelle
  imports Ber Nego_Correct Mcs Offscreen_Cache Linked_List Rfx_Component Capability_Exchange
begin

text \<open>
  A verification library for \<^verbatim>\<open>src/neutrinordp\<close>, the RDP client and server library of the
  corporate client (C, a fork of FreeRDP 1.0). File names below are relative to that directory.

  \<^bold>\<open>The program.\<close> \<^verbatim>\<open>libfreerdp-core\<close> speaks the protocol. A connection is a \<^verbatim>\<open>transport\<close> over TCP, TLS
  or a gateway, which cuts the byte stream into TPKT and fast-path packets. On it \<^verbatim>\<open>nego\<close> agrees on a
  security protocol, \<^verbatim>\<open>mcs\<close> opens the channels, the capability exchange fixes the parameters of the
  session, and then input events go to the server and drawing orders to the client. Drawing orders use
  the classes of \<^verbatim>\<open>graphics\<close> and the caches of \<^verbatim>\<open>libfreerdp-cache\<close>; bitmaps are coded by
  \<^verbatim>\<open>libfreerdp-codec\<close>; everything rests on the streams and lists of \<^verbatim>\<open>libfreerdp-utils\<close>.

  \<^bold>\<open>Conventions.\<close> Machine integers are words of their width, or integers with the conversion written out
  where C promotes to \<^verbatim>\<open>int\<close>. A pointer that may be NULL is an option. An operation that would read or
  write outside a block, use a freed object or dereference NULL has the value None, so a theorem that an
  operation returns Some says that it does none of these. A return value of the code (TRUE, FALSE, a
  status) is part of the result. The operating system, OpenSSL, the gateway and the application's
  callbacks are not in the repository: what they answer is a script in the state, over which the theorems
  quantify, and calls of callbacks are recorded as events.

  \<^bold>\<open>Theories.\<close>

  \<^item> \<open>Prelude\<close>, \<open>Refinement\<close>: shared lemmas on lists, options and words; simulations as a locale.
  \<^item> \<open>Wire_Stream\<close>: \<^verbatim>\<open>include/freerdp/utils/stream.h\<close> and \<^verbatim>\<open>libfreerdp-utils/stream.c\<close>. A stream is a block
    with a cursor. The locales \<open>wire_writer\<close>, \<open>sized_codec\<close>, \<open>wire_codec\<close> and \<open>bounded_reader\<close> are the
    contracts by which the later theories use it. Shown: \<open>stream_check_size\<close> ends and makes room; the
    accessors are inverse to each other, the big-endian 32-bit ones only up to the order of the halves.
  \<^item> \<open>Ber\<close>, \<open>Per\<close>, \<open>Tpkt_Tpdu\<close>: \<^verbatim>\<open>ber.c\<close>, \<^verbatim>\<open>per.c\<close>, \<^verbatim>\<open>tpkt.c\<close>, \<^verbatim>\<open>tpdu.c\<close>. Shown: round trips, and where they fail.
  \<^item> \<open>Settings\<close>, \<open>Transport\<close>, \<open>Transport_Framing\<close>, \<open>Transport_Channel\<close>: \<^verbatim>\<open>transport.c\<close> with what it calls of
    \<^verbatim>\<open>tcp.c\<close>, \<^verbatim>\<open>tls.c\<close> and \<^verbatim>\<open>tsg.c\<close>. Shown: whatever pieces the network delivers, the callback gets the packets
    whole, once and in order; a write sends the stream or reports the failure; the over-long and the too
    short packets on which the receiver goes wrong.
  \<^item> \<open>Nego\<close>, \<open>Nego_Correct\<close>: \<^verbatim>\<open>nego.c\<close> as a loop over states. Shown: it returns, requests enabled protocols
    only, and its requests and answers are understood by the other side.
  \<^item> \<open>Mcs\<close>: the domain units of \<^verbatim>\<open>mcs.c\<close>. Shown: framing and round trips of every unit.
  \<^item> \<open>Fastpath\<close>, \<open>Input_Events\<close>: headers and input events of \<^verbatim>\<open>fastpath.c\<close> and \<^verbatim>\<open>input.c\<close>. Shown: the receivers
    stay inside the data, with the exact exception; events are reported as sent.
  \<^item> \<open>Capability_Types\<close>, \<open>Capabilities\<close>, \<open>Capability_Bodies\<close>, \<open>Capability_Readers\<close>, \<open>Capability_Exchange\<close>:
    \<^verbatim>\<open>capabilities.c\<close>, every capability set and the units that carry them. \<open>Capability_Bodies\<close> gives each
    writer its bytes, \<open>Capability_Readers\<close> each reader its effect. Shown: each side reads the other's unit
    to its end and takes over the settings.
  \<^item> \<open>Graphics\<close>, \<open>Cache_Slots\<close>, \<open>Offscreen_Cache\<close>: \<^verbatim>\<open>graphics.c\<close> and \<^verbatim>\<open>libfreerdp-cache/offscreen.c\<close> on a heap of
    objects. Shown: the cache is a finite map, never uses a freed bitmap and frees everything at the end.
  \<^item> \<open>Linked_List\<close>: \<^verbatim>\<open>libfreerdp-utils/list.c\<close> on a heap of items. Shown: it refines a sequence.
  \<^item> \<open>Rfx_Bitstream\<close>, \<open>Rfx_Rlgr\<close>, \<open>Rfx_Rlgr_Correct\<close>, \<open>Rfx_Rlgr_Roundtrip\<close>: \<^verbatim>\<open>rfx_bitstream.h\<close> and \<^verbatim>\<open>rfx_rlgr.c\<close>.
    Shown: the encoder writes a reference bit string, the decoder returns on any data and inverts it.
  \<^item> \<open>Rfx_Dwt\<close>, \<open>Rfx_Dwt_Correct\<close>, \<open>Rfx_Dwt_Roundtrip\<close>: \<^verbatim>\<open>rfx_dwt.c\<close>, \<^verbatim>\<open>rfx_quantization.c\<close> and
    \<^verbatim>\<open>rfx_differential.c\<close> on arrays of 16-bit cells. Each loop nest fills cells with the values of a target
    function. Shown: a tile survives the transform and its inverse but for a bounded rounding error.
  \<^item> \<open>Rfx_Component\<close>: the chain of \<^verbatim>\<open>rfx_encode.c\<close> and \<^verbatim>\<open>rfx_decode.c\<close> for a component, and the colours. Shown:
    the coding steps lose nothing, and the errors of quantization and colour conversion are bounded.

  \<^bold>\<open>Loops.\<close> No fuel is used. Loops that are not structural are \<open>partial_function\<close>s into option, where
  not returning is None, and a theorem shows that they return.

  \<^bold>\<open>Bounds.\<close> The numbers of the codec theorems are those of the code: tiles of 4096 cells, values of the colour
  conversion within 4096, quantization values 6 to 15. The error 24 of the transform is 8 for each of its
  three levels; with values within 4096 no low band that is transformed again leaves 16 bits.

  \<^bold>\<open>Not modelled.\<close> The RDP layer (\<^verbatim>\<open>rdp.c\<close>, \<^verbatim>\<open>connection.c\<close>), licensing, client information and authentication:
  their units pass through encryption and key derivation by OpenSSL, which is not part of the repository. The
  readers of drawing orders, the bulk decompressor, the other caches and the pixel loops of the software
  drawing code could be modelled in the same way as their neighbours and are left out. Of the codec, the
  copying between pixel formats and component buffers, and the SSE2 and NEON variants, which are compiler
  intrinsics. The window-system clients, the virtual channel plugins and threads, and the shell scripts of the
  other packages are input and output. Release of memory where the model has no heap (\<^verbatim>\<open>stream_free\<close>,
  \<^verbatim>\<open>transport_free\<close>, \<^verbatim>\<open>nego_free\<close>).
\<close>

end
